(* ===== verification/Prelude.thy ===== *)
theory Prelude
  imports Main "HOL-Library.Word"
begin

text \<open>
  Shared vocabulary of the development: the simplification collections, the abbreviations for
  fixed-width integers whose width is only known at run time (\<open>llvm::APInt\<close>, on which KLEE's
  constants are built) and the lemmas on them that the component theories use.  A value of
  width \<open>w\<close> is an \<open>int\<close> in the range \<open>0 ..< 2 ^ w\<close>; every operation writes its wrap-around
  out with \<open>take_bit w\<close> and reads a value as signed with \<open>sgn_of w\<close>.
\<close>

unbundle bit_operations_syntax

named_theorems width_simps \<open>widths of the expressions a component builds\<close>
named_theorems eval_simps \<open>values of the expressions a component builds\<close>
named_theorems wf_intros \<open>well-formedness of what an operation returns\<close>
named_theorems inv_intros \<open>preservation of a component's invariant\<close>

type_synonym width = nat
type_synonym u8 = "8 word"
type_synonym u32 = "32 word"
type_synonym u64 = "64 word"

section \<open>Integers of a run-time width\<close>

definition fits :: "width \<Rightarrow> int \<Rightarrow> bool" where
  "fits w v \<longleftrightarrow> take_bit w v = v"

definition sgn_of :: "width \<Rightarrow> int \<Rightarrow> int" where
  "sgn_of w v = signed_take_bit (w - 1) v"

lemma fits_iff: "fits w v \<longleftrightarrow> 0 \<le> v \<and> v < 2 ^ w"
  by (simp add: fits_def take_bit_int_eq_self_iff)

lemma fits_take_bit [simp, intro]: "fits w (take_bit w v)"
  by (simp add: fits_def)

lemma take_bit_fits: "fits w v \<Longrightarrow> take_bit w v = v"
  by (simp add: fits_def)

lemma fits_take_bit_le: "n \<le> w \<Longrightarrow> fits w (take_bit n v)"
  by (simp add: fits_def min_def)

lemma fits_of_bool [simp, intro]: "fits (Suc 0) (of_bool b)"
  by (simp add: fits_def)

lemma fits_mono: "fits n v \<Longrightarrow> n \<le> w \<Longrightarrow> fits w v"
  by (metis fits_def fits_take_bit_le)

lemma fits_nonneg: "fits w v \<Longrightarrow> 0 \<le> v"
  by (simp add: fits_iff)

lemma fits_bit_iff: "fits w v \<longleftrightarrow> (\<forall>n. bit v n \<longrightarrow> n < w)"
  by (auto simp: fits_def bit_eq_iff bit_take_bit_iff)

lemma fits_and: "fits w a \<Longrightarrow> fits w (a AND b)"
  by (simp add: fits_bit_iff bit_and_iff)

lemma fits_or: "fits w a \<Longrightarrow> fits w b \<Longrightarrow> fits w (a OR b)"
  by (simp add: fits_def take_bit_or)

lemma fits_xor: "fits w a \<Longrightarrow> fits w b \<Longrightarrow> fits w (a XOR b)"
  by (simp add: fits_def take_bit_xor)

lemma fits_drop_bit: "fits w a \<Longrightarrow> fits w (drop_bit n a)"
  by (fastforce simp: fits_bit_iff bit_drop_bit_eq)

lemma fits_concat:
  assumes "fits w a" and "fits v b"
  shows "fits (w + v) (push_bit v a OR b)"
proof -
  have "fits (w + v) (push_bit v a)"
    using assms(1) by (simp add: fits_def take_bit_push_bit)
  moreover have "fits (w + v) b"
    using assms(2) by (rule fits_mono) simp
  ultimately show ?thesis by (rule fits_or)
qed

lemma take_bit_glue:
  "push_bit n (take_bit m (drop_bit n x)) OR take_bit n x = take_bit (m + n) x" for x :: int
proof (rule bit_eqI)
  fix k
  show "bit (push_bit n (take_bit m (drop_bit n x)) OR take_bit n x) k = bit (take_bit (m + n) x) k"
    by (cases "k < n") (auto simp: bit_or_iff bit_push_bit_iff bit_take_bit_iff bit_drop_bit_eq)
qed

lemma take_bit_add_left [simp]: "take_bit w (take_bit w a + b) = take_bit w (a + b)"
  for a b :: int
  by (simp add: take_bit_eq_mod mod_simps)

lemma take_bit_add_right [simp]: "take_bit w (a + take_bit w b) = take_bit w (a + b)"
  for a b :: int
  by (simp add: take_bit_eq_mod mod_simps)

lemma take_bit_diff_left [simp]: "take_bit w (take_bit w a - b) = take_bit w (a - b)"
  for a b :: int
  by (simp add: take_bit_eq_mod mod_simps)

lemma take_bit_diff_right [simp]: "take_bit w (a - take_bit w b) = take_bit w (a - b)"
  for a b :: int
  by (simp add: take_bit_eq_mod mod_simps)

lemma take_bit_uminus_int [simp]: "take_bit w (- take_bit w a) = take_bit w (- a)"
  for a :: int
  by (simp add: take_bit_eq_mod mod_simps)

lemma sgn_of_take_bit [simp]: "0 < w \<Longrightarrow> sgn_of w (take_bit w v) = sgn_of w v"
  by (cases w) (simp_all add: sgn_of_def signed_take_bit_take_bit)

lemma sgn_of_eq_iff:
  assumes "0 < w" and "fits w a" and "fits w b"
  shows "sgn_of w a = sgn_of w b \<longleftrightarrow> a = b"
  using assms by (auto simp: sgn_of_def fits_def signed_take_bit_eq_iff_take_bit_eq)

lemma push_bit_or_add:
  assumes "fits n b"
  shows "push_bit n a OR b = 2 ^ n * a + b"
proof -
  have "push_bit n a OR b = push_bit n a + b"
    using assms by (intro disjunctive_add [symmetric]) (auto simp: fits_bit_iff bit_push_bit_iff)
  then show ?thesis by (simp add: push_bit_eq_mult)
qed

lemma word_of_int_take_bit: "word_of_int (take_bit LENGTH('a) x) = (word_of_int x :: 'a::len word)"
  by transfer simp

lemma those_map_Some: "(\<And>x. x \<in> set xs \<Longrightarrow> f x = Some (g x)) \<Longrightarrow> those (map f xs) = Some (map g xs)"
  by (induction xs) auto

text \<open>A byte sequence as a little-endian number.\<close>

abbreviation le_int :: "u8 list \<Rightarrow> int" where
  "le_int bs \<equiv> horner_sum uint 256 bs"

lemma le_int_snoc: "le_int (bs @ [b]) = le_int bs + 256 ^ length bs * uint b"
  by (simp add: horner_sum_append)

lemma fits_le_int: "fits (8 * length bs) (le_int bs)"
proof (induction bs)
  case (Cons b bs)
  have "uint b < 256" using uint_lt2p [of b] by simp
  then show ?case using Cons by (simp add: fits_iff power_add)
qed (simp add: fits_def)

lemma le_int_nth: "i < length bs \<Longrightarrow> word_of_int (drop_bit (8 * i) (le_int bs)) = bs ! i"
proof (induction bs arbitrary: i)
  case (Cons b bs)
  have b: "0 \<le> uint b" "uint b < 256" using uint_lt2p [of b] by simp_all
  show ?case
  proof (cases i)
    case 0
    have "take_bit 8 (uint b + 256 * le_int bs) = uint b"
      using b by (simp add: take_bit_eq_mod)
    then have "(word_of_int (uint b + 256 * le_int bs) :: u8) = b"
      using word_of_int_take_bit [where 'a = 8, of "uint b + 256 * le_int bs"] by simp
    then show ?thesis by (simp add: 0)
  next
    case (Suc j)
    have "(uint b + 256 * le_int bs) div 256 = le_int bs" using b by simp
    then have "drop_bit (8 * i) (le_int (b # bs)) = drop_bit (8 * j) (le_int bs)"
      by (simp add: Suc drop_bit_eq_div power_add zdiv_zmult2_eq)
    then show ?thesis using Cons Suc by simp
  qed
qed simp

lemma le_int_bytes: "le_int (map (\<lambda>i. word_of_int (drop_bit (8 * i) x)) [0..<n]) = take_bit (8 * n) x"
proof (induction n)
  case (Suc n)
  have "uint (word_of_int (drop_bit (8 * n) x) :: u8) = take_bit 8 (drop_bit (8 * n) x)"
    by (simp add: uint_word_of_int take_bit_eq_mod)
  moreover have "take_bit (8 * n + 8) x = 2 ^ (8 * n) * take_bit 8 (drop_bit (8 * n) x) + take_bit (8 * n) x"
    using take_bit_glue [of "8 * n" 8 x] push_bit_or_add [of "8 * n" "take_bit (8 * n) x"]
    by (simp add: add.commute)
  moreover have "(256 :: int) ^ n = 2 ^ (8 * n)" by (simp add: power_mult)
  ultimately show ?case using Suc by (simp add: horner_sum_append add.commute)
qed simp

text \<open>A width-32 value and a \<open>32 word\<close> carry the same information.\<close>

lemma word_of_int_fits: "fits 32 v \<Longrightarrow> uint (word_of_int v :: u32) = v"
  by (simp add: fits_def uint_word_of_int take_bit_eq_mod)

lemma fits_uint32 [simp, intro]: "fits 32 (uint (x :: u32))"
  using uint_lt2p [of x] by (simp add: fits_iff)

end
