(* ===== verification/VP_Monad.thy ===== *)
theory VP_Monad
  imports Prelude
begin

text \<open>
  Computations of the virtual prototype: they change a state and return a value or throw.  A
  throw keeps the state reached so far, since C++ does not undo assignments on an exception and
  the core continues after it has caught a trap.  \<open>wp\<close> reads a computation as a predicate
  transformer with one postcondition for the normal result and one for the exception, so that
  the proofs about the core follow the structure of its code.
\<close>

section \<open>Exceptions\<close>

text \<open>
  \<open>SimulationTrap\<close> is the trap of \<open>trap.h\<close> with its reason and \<open>mtval\<close>; it is the only exception
  the core catches.  A failed \<open>assert\<close> and a null pointer abort the process; \<open>Suspended\<close> is the
  wait on an event that is never notified.
\<close>

datatype error =
    SimulationTrap u32 u64
  | RuntimeError string
  | LogicError string
  | OutOfRange
  | BadLexicalCast
  | ThrownString string
  | AssertionFailed string
  | NullPointer
  | Suspended

definition is_trap :: "error \<Rightarrow> bool" where
  "is_trap e = (case e of SimulationTrap _ _ \<Rightarrow> True | _ \<Rightarrow> False)"

lemma is_trap_simps [simp]:
  "is_trap (SimulationTrap r v)" "\<not> is_trap (RuntimeError m)" "\<not> is_trap (LogicError m)"
  "\<not> is_trap OutOfRange" "\<not> is_trap BadLexicalCast" "\<not> is_trap (ThrownString m)"
  "\<not> is_trap (AssertionFailed m)" "\<not> is_trap NullPointer" "\<not> is_trap Suspended"
  by (simp_all add: is_trap_def)

section \<open>The monad\<close>

datatype ('a, 's) outcome = Ok 'a 's | Throw error 's

type_synonym ('s, 'a) M = "'s \<Rightarrow> ('a, 's) outcome"

definition ret :: "'a \<Rightarrow> ('s, 'a) M" where
  "ret x = (\<lambda>s. Ok x s)"

definition throw :: "error \<Rightarrow> ('s, 'a) M" where
  "throw e = (\<lambda>s. Throw e s)"

definition bindM :: "('s, 'a) M \<Rightarrow> ('a \<Rightarrow> ('s, 'b) M) \<Rightarrow> ('s, 'b) M" where
  "bindM m f = (\<lambda>s. case m s of Ok x s' \<Rightarrow> f x s' | Throw e s' \<Rightarrow> Throw e s')"

definition seqM :: "('s, 'a) M \<Rightarrow> ('s, 'b) M \<Rightarrow> ('s, 'b) M" where
  "seqM m n = bindM m (\<lambda>_. n)"

definition catchM :: "('s, 'a) M \<Rightarrow> (error \<Rightarrow> ('s, 'a) M) \<Rightarrow> ('s, 'a) M" where
  "catchM m h = (\<lambda>s. case m s of Ok x s' \<Rightarrow> Ok x s' | Throw e s' \<Rightarrow> h e s')"

definition gets :: "('s \<Rightarrow> 'a) \<Rightarrow> ('s, 'a) M" where
  "gets f = (\<lambda>s. Ok (f s) s)"

definition withS :: "('s \<Rightarrow> ('s, 'a) M) \<Rightarrow> ('s, 'a) M" where
  "withS f = (\<lambda>s. f s s)"

definition modify :: "('s \<Rightarrow> 's) \<Rightarrow> ('s, unit) M" where
  "modify f = (\<lambda>s. Ok () (f s))"

definition whenM :: "bool \<Rightarrow> ('s, unit) M \<Rightarrow> ('s, unit) M" where
  "whenM b m = (if b then m else ret ())"

definition assertM :: "bool \<Rightarrow> string \<Rightarrow> ('s, unit) M" where
  "assertM b msg = (if b then ret () else throw (AssertionFailed msg))"

definition of_option :: "error \<Rightarrow> 'a option \<Rightarrow> ('s, 'a) M" where
  "of_option e x = (case x of Some v \<Rightarrow> ret v | None \<Rightarrow> throw e)"

definition of_sum :: "error + 'a \<Rightarrow> ('s, 'a) M" where
  "of_sum x = (case x of Inr v \<Rightarrow> ret v | Inl e \<Rightarrow> throw e)"

primrec forM :: "'x list \<Rightarrow> ('x \<Rightarrow> ('s, unit) M) \<Rightarrow> ('s, unit) M" where
  "forM [] f = ret ()"
| "forM (x # xs) f = seqM (f x) (forM xs f)"

lemmas monad_defs = withS_def ret_def throw_def bindM_def seqM_def catchM_def gets_def modify_def whenM_def
  assertM_def of_option_def of_sum_def

lemma ret_apply [simp]: "ret x s = Ok x s"
  by (simp add: ret_def)

lemma throw_apply [simp]: "throw e s = Throw e s"
  by (simp add: throw_def)

lemma gets_apply [simp]: "gets f s = Ok (f s) s"
  by (simp add: gets_def)

lemma withS_apply [simp]: "withS f s = f s s"
  by (simp add: withS_def)

lemma unit_apply [simp]:
  "modify g s = Ok () (g s)" "whenM b m s = (if b then m s else Ok () s)"
  "assertM b msg s = (if b then Ok () s else Throw (AssertionFailed msg) s)"
  by (simp_all add: monad_defs)

lemma bindM_apply [simp]:
  "m s = Ok x s' \<Longrightarrow> bindM m f s = f x s'" "m s = Throw e s' \<Longrightarrow> bindM m f s = Throw e s'"
  by (simp_all add: bindM_def)

lemma seqM_apply [simp]:
  "m s = Ok x s' \<Longrightarrow> seqM m n s = n s'" "m s = Throw e s' \<Longrightarrow> seqM m n s = Throw e s'"
  by (simp_all add: seqM_def)

lemma catchM_apply [simp]:
  "m s = Ok x s' \<Longrightarrow> catchM m h s = Ok x s'" "m s = Throw e s' \<Longrightarrow> catchM m h s = h e s'"
  by (simp_all add: catchM_def)

section \<open>Weakest preconditions\<close>

definition wp :: "('s, 'a) M \<Rightarrow> ('a \<Rightarrow> 's \<Rightarrow> bool) \<Rightarrow> (error \<Rightarrow> 's \<Rightarrow> bool) \<Rightarrow> 's \<Rightarrow> bool" where
  "wp m Q E s = (case m s of Ok x s' \<Rightarrow> Q x s' | Throw e s' \<Rightarrow> E e s')"

named_theorems wp_simps \<open>weakest preconditions of the computations of a component\<close>

lemma wp_ret [wp_simps]: "wp (ret x) Q E = Q x"
  by (simp add: wp_def fun_eq_iff)

lemma wp_throw [wp_simps]: "wp (throw e) Q E = E e"
  by (simp add: wp_def fun_eq_iff)

lemma wp_bindM [wp_simps]: "wp (bindM m f) Q E = wp m (\<lambda>x. wp (f x) Q E) E"
  by (simp add: wp_def fun_eq_iff bindM_def split: outcome.split)

lemma wp_seqM [wp_simps]: "wp (seqM m n) Q E = wp m (\<lambda>_. wp n Q E) E"
  by (simp add: seqM_def wp_bindM)

lemma wp_catchM [wp_simps]: "wp (catchM m h) Q E = wp m Q (\<lambda>e. wp (h e) Q E)"
  by (simp add: wp_def fun_eq_iff catchM_def split: outcome.split)

lemma wp_gets [wp_simps]: "wp (gets g) Q E = (\<lambda>s. Q (g s) s)"
  by (simp add: wp_def fun_eq_iff)

lemma wp_withS [wp_simps]: "wp (withS f) Q E = (\<lambda>s. wp (f s) Q E s)"
  by (simp add: wp_def fun_eq_iff)

lemma wp_modify [wp_simps]: "wp (modify g) Q E = (\<lambda>s. Q () (g s))"
  by (simp add: wp_def fun_eq_iff)

lemma wp_whenM [wp_simps]: "wp (whenM b m) Q E = (if b then wp m Q E else Q ())"
  by (simp add: wp_def fun_eq_iff)

lemma wp_assertM [wp_simps]: "wp (assertM b msg) Q E = (if b then Q () else E (AssertionFailed msg))"
  by (simp add: wp_def fun_eq_iff)

lemma wp_if [wp_simps]: "wp (if b then m else n) Q E = (if b then wp m Q E else wp n Q E)"
  by simp

lemma wp_of_option [wp_simps]: "wp (of_option e y) Q E = (case y of Some v \<Rightarrow> Q v | None \<Rightarrow> E e)"
  by (simp add: wp_def fun_eq_iff of_option_def split: option.split)

lemma wp_of_sum [wp_simps]: "wp (of_sum z) Q E = (case z of Inr v \<Rightarrow> Q v | Inl e \<Rightarrow> E e)"
  by (simp add: wp_def fun_eq_iff of_sum_def split: sum.split)

lemma wp_mono:
  assumes "wp m Q E s" and "\<And>x s'. Q x s' \<Longrightarrow> Q' x s'" and "\<And>e s'. E e s' \<Longrightarrow> E' e s'"
  shows "wp m Q' E' s"
  using assms by (simp add: wp_def split: outcome.splits)

lemma wp_conj: "wp m Q E s \<Longrightarrow> wp m Q' E' s \<Longrightarrow> wp m (\<lambda>x t. Q x t \<and> Q' x t) (\<lambda>e t. E e t \<and> E' e t) s"
  by (simp add: wp_def split: outcome.splits)

lemma wpD:
  "wp m Q E s \<Longrightarrow> m s = Ok x s' \<Longrightarrow> Q x s'" "wp m Q E s \<Longrightarrow> m s = Throw e s' \<Longrightarrow> E e s'"
  by (simp_all add: wp_def)

lemma wp_total: "wp m Q (\<lambda>_ _. False) s \<Longrightarrow> \<exists>x s'. m s = Ok x s' \<and> Q x s'"
  by (simp add: wp_def split: outcome.splits)

lemma wp_forM:
  assumes "I s" and "\<And>x s. x \<in> set xs \<Longrightarrow> I s \<Longrightarrow> wp (f x) (\<lambda>_. I) E s"
  shows "wp (forM xs f) (\<lambda>_. I) E s"
  using assms
proof (induction xs arbitrary: s)
  case (Cons x xs)
  have "wp (f x) (\<lambda>_. I) E s" using Cons.prems by simp
  then have "wp (f x) (\<lambda>_. wp (forM xs f) (\<lambda>_. I) E) E s"
    by (rule wp_mono) (use Cons in auto)
  then show ?case by (simp add: wp_simps)
qed (simp add: wp_simps)

end
