(* ===== verification/RV_Opcode.thy ===== *)
theory RV_Opcode
  imports Prelude
begin

text \<open>
  The instruction set as \<open>core/common/instr.h\<close> and the first part of \<open>instr.cpp\<close> declare it: the
  architectures, the enumeration \<open>Opcode::Mapping\<close> the decoder maps an instruction word to, the
  instruction formats, the mask and the encoding of every instruction and \<open>getType\<close>.

  \<open>Mapping\<close> is split into one datatype per section of the enumeration (\<open>M_I\<close> for the RV32I base
  instructions, \<open>M_Zicsr\<close> for the CSR instructions and so on); \<open>AND\<close>, \<open>OR\<close> and \<open>XOR\<close> carry the
  suffix \<open>_R\<close>, since these names are the bit operations here.
\<close>

section \<open>Architectures and instructions\<close>

datatype Architecture = RV32 | RV64 | RV128

datatype rv32i =
    LUI | AUIPC | JAL | JALR | BEQ | BNE | BLT | BGE | BLTU | BGEU | LB | LH | LW | LBU | LHU | SB
    | SH | SW | ADDI | SLTI | SLTIU | XORI | ORI | ANDI | SLLI | SRLI | SRAI | ADD | SUB | SLL
    | SLT | SLTU | XOR_R | SRL | SRA | OR_R | AND_R | FENCE | ECALL | EBREAK

datatype zifencei =
    FENCE_I

datatype zicsr =
    CSRRW | CSRRS | CSRRC | CSRRWI | CSRRSI | CSRRCI

datatype rv32m =
    MUL | MULH | MULHSU | MULHU | DIV | DIVU | REM | REMU

datatype rv32a =
    LR_W | SC_W | AMOSWAP_W | AMOADD_W | AMOXOR_W | AMOAND_W | AMOOR_W | AMOMIN_W | AMOMAX_W
    | AMOMINU_W | AMOMAXU_W

datatype rv64i =
    LWU | LD | SD | ADDIW | SLLIW | SRLIW | SRAIW | ADDW | SUBW | SLLW | SRLW | SRAW

datatype rv64m =
    MULW | DIVW | DIVUW | REMW | REMUW

datatype rv64a =
    LR_D | SC_D | AMOSWAP_D | AMOADD_D | AMOXOR_D | AMOAND_D | AMOOR_D | AMOMIN_D | AMOMAX_D
    | AMOMINU_D | AMOMAXU_D

datatype rv32f =
    FLW | FSW | FMADD_S | FMSUB_S | FNMADD_S | FNMSUB_S | FADD_S | FSUB_S | FMUL_S | FDIV_S
    | FSQRT_S | FSGNJ_S | FSGNJN_S | FSGNJX_S | FMIN_S | FMAX_S | FCVT_W_S | FCVT_WU_S | FMV_X_W
    | FEQ_S | FLT_S | FLE_S | FCLASS_S | FCVT_S_W | FCVT_S_WU | FMV_W_X

datatype rv64f =
    FCVT_L_S | FCVT_LU_S | FCVT_S_L | FCVT_S_LU

datatype rv32d =
    FLD | FSD | FMADD_D | FMSUB_D | FNMSUB_D | FNMADD_D | FADD_D | FSUB_D | FMUL_D | FDIV_D
    | FSQRT_D | FSGNJ_D | FSGNJN_D | FSGNJX_D | FMIN_D | FMAX_D | FCVT_S_D | FCVT_D_S | FEQ_D
    | FLT_D | FLE_D | FCLASS_D | FCVT_W_D | FCVT_WU_D | FCVT_D_W | FCVT_D_WU

datatype rv64d =
    FCVT_L_D | FCVT_LU_D | FMV_X_D | FCVT_D_L | FCVT_D_LU | FMV_D_X

datatype priv =
    URET | SRET | MRET | WFI | SFENCE_VMA

datatype Mapping =
    UNDEF
  | M_I rv32i
  | M_Zifencei zifencei
  | M_Zicsr zicsr
  | M_M rv32m
  | M_A rv32a
  | M_I64 rv64i
  | M_M64 rv64m
  | M_A64 rv64a
  | M_F rv32f
  | M_F64 rv64f
  | M_D rv32d
  | M_D64 rv64d
  | M_Priv priv

datatype Type =
  Type_UNKNOWN | Type_R | Type_I | Type_S | Type_B | Type_U | Type_J | Type_R4

section \<open>Parts of an instruction word\<close>

text \<open>The enumeration \<open>Opcode::Parts\<close>.\<close>

abbreviation (input) OP_LUI :: u32 where "OP_LUI \<equiv> 0x37"
abbreviation (input) OP_AUIPC :: u32 where "OP_AUIPC \<equiv> 0x17"
abbreviation (input) OP_JAL :: u32 where "OP_JAL \<equiv> 0x6F"
abbreviation (input) OP_JALR :: u32 where "OP_JALR \<equiv> 0x67"
abbreviation (input) F3_JALR :: u32 where "F3_JALR \<equiv> 0x0"
abbreviation (input) OP_LB :: u32 where "OP_LB \<equiv> 0x3"
abbreviation (input) F3_LB :: u32 where "F3_LB \<equiv> 0x0"
abbreviation (input) F3_LH :: u32 where "F3_LH \<equiv> 0x1"
abbreviation (input) F3_LW :: u32 where "F3_LW \<equiv> 0x2"
abbreviation (input) F3_LBU :: u32 where "F3_LBU \<equiv> 0x4"
abbreviation (input) F3_LHU :: u32 where "F3_LHU \<equiv> 0x5"
abbreviation (input) F3_LWU :: u32 where "F3_LWU \<equiv> 0x6"
abbreviation (input) F3_LD :: u32 where "F3_LD \<equiv> 0x3"
abbreviation (input) OP_SB :: u32 where "OP_SB \<equiv> 0x23"
abbreviation (input) F3_SB :: u32 where "F3_SB \<equiv> 0x0"
abbreviation (input) F3_SH :: u32 where "F3_SH \<equiv> 0x1"
abbreviation (input) F3_SW :: u32 where "F3_SW \<equiv> 0x2"
abbreviation (input) F3_SD :: u32 where "F3_SD \<equiv> 0x3"
abbreviation (input) OP_BEQ :: u32 where "OP_BEQ \<equiv> 0x63"
abbreviation (input) F3_BEQ :: u32 where "F3_BEQ \<equiv> 0x0"
abbreviation (input) F3_BNE :: u32 where "F3_BNE \<equiv> 0x1"
abbreviation (input) F3_BLT :: u32 where "F3_BLT \<equiv> 0x4"
abbreviation (input) F3_BGE :: u32 where "F3_BGE \<equiv> 0x5"
abbreviation (input) F3_BLTU :: u32 where "F3_BLTU \<equiv> 0x6"
abbreviation (input) F3_BGEU :: u32 where "F3_BGEU \<equiv> 0x7"
abbreviation (input) OP_ADDI :: u32 where "OP_ADDI \<equiv> 0x13"
abbreviation (input) F3_ADDI :: u32 where "F3_ADDI \<equiv> 0x0"
abbreviation (input) F3_SLTI :: u32 where "F3_SLTI \<equiv> 0x2"
abbreviation (input) F3_SLTIU :: u32 where "F3_SLTIU \<equiv> 0x3"
abbreviation (input) F3_XORI :: u32 where "F3_XORI \<equiv> 0x4"
abbreviation (input) F3_ORI :: u32 where "F3_ORI \<equiv> 0x6"
abbreviation (input) F3_ANDI :: u32 where "F3_ANDI \<equiv> 0x7"
abbreviation (input) F3_SLLI :: u32 where "F3_SLLI \<equiv> 0x1"
abbreviation (input) F3_SRLI :: u32 where "F3_SRLI \<equiv> 0x5"
abbreviation (input) F7_SRLI :: u32 where "F7_SRLI \<equiv> 0x0"
abbreviation (input) F7_SRAI :: u32 where "F7_SRAI \<equiv> 0x20"
abbreviation (input) F6_SRLI :: u32 where "F6_SRLI \<equiv> 0x0"
abbreviation (input) F6_SRAI :: u32 where "F6_SRAI \<equiv> 0x10"
abbreviation (input) OP_ADD :: u32 where "OP_ADD \<equiv> 0x33"
abbreviation (input) F3_ADD :: u32 where "F3_ADD \<equiv> 0x0"
abbreviation (input) F7_ADD :: u32 where "F7_ADD \<equiv> 0x0"
abbreviation (input) F3_SUB :: u32 where "F3_SUB \<equiv> 0x0"
abbreviation (input) F7_SUB :: u32 where "F7_SUB \<equiv> 0x20"
abbreviation (input) F3_SLL :: u32 where "F3_SLL \<equiv> 0x1"
abbreviation (input) F3_SLT :: u32 where "F3_SLT \<equiv> 0x2"
abbreviation (input) F3_SLTU :: u32 where "F3_SLTU \<equiv> 0x3"
abbreviation (input) F3_XOR :: u32 where "F3_XOR \<equiv> 0x4"
abbreviation (input) F3_SRL :: u32 where "F3_SRL \<equiv> 0x5"
abbreviation (input) F3_SRA :: u32 where "F3_SRA \<equiv> 0x5"
abbreviation (input) F3_OR :: u32 where "F3_OR \<equiv> 0x6"
abbreviation (input) F3_AND :: u32 where "F3_AND \<equiv> 0x7"
abbreviation (input) F3_MUL :: u32 where "F3_MUL \<equiv> 0x0"
abbreviation (input) F7_MUL :: u32 where "F7_MUL \<equiv> 0x1"
abbreviation (input) F3_MULH :: u32 where "F3_MULH \<equiv> 0x1"
abbreviation (input) F3_MULHSU :: u32 where "F3_MULHSU \<equiv> 0x2"
abbreviation (input) F3_MULHU :: u32 where "F3_MULHU \<equiv> 0x3"
abbreviation (input) F3_DIV :: u32 where "F3_DIV \<equiv> 0x4"
abbreviation (input) F3_DIVU :: u32 where "F3_DIVU \<equiv> 0x5"
abbreviation (input) F3_REM :: u32 where "F3_REM \<equiv> 0x6"
abbreviation (input) F3_REMU :: u32 where "F3_REMU \<equiv> 0x7"
abbreviation (input) OP_FENCE :: u32 where "OP_FENCE \<equiv> 0xF"
abbreviation (input) F3_FENCE :: u32 where "F3_FENCE \<equiv> 0x0"
abbreviation (input) F3_FENCE_I :: u32 where "F3_FENCE_I \<equiv> 0x1"
abbreviation (input) OP_ECALL :: u32 where "OP_ECALL \<equiv> 0x73"
abbreviation (input) F3_SYS :: u32 where "F3_SYS \<equiv> 0x0"
abbreviation (input) F12_ECALL :: u32 where "F12_ECALL \<equiv> 0x0"
abbreviation (input) F12_EBREAK :: u32 where "F12_EBREAK \<equiv> 0x1"
abbreviation (input) F12_URET :: u32 where "F12_URET \<equiv> 0x2"
abbreviation (input) F12_SRET :: u32 where "F12_SRET \<equiv> 0x102"
abbreviation (input) F12_MRET :: u32 where "F12_MRET \<equiv> 0x302"
abbreviation (input) F12_WFI :: u32 where "F12_WFI \<equiv> 0x105"
abbreviation (input) F7_SFENCE_VMA :: u32 where "F7_SFENCE_VMA \<equiv> 0x9"
abbreviation (input) F3_CSRRW :: u32 where "F3_CSRRW \<equiv> 0x1"
abbreviation (input) F3_CSRRS :: u32 where "F3_CSRRS \<equiv> 0x2"
abbreviation (input) F3_CSRRC :: u32 where "F3_CSRRC \<equiv> 0x3"
abbreviation (input) F3_CSRRWI :: u32 where "F3_CSRRWI \<equiv> 0x5"
abbreviation (input) F3_CSRRSI :: u32 where "F3_CSRRSI \<equiv> 0x6"
abbreviation (input) F3_CSRRCI :: u32 where "F3_CSRRCI \<equiv> 0x7"
abbreviation (input) OP_AMO :: u32 where "OP_AMO \<equiv> 0x2F"
abbreviation (input) F5_LR_W :: u32 where "F5_LR_W \<equiv> 0x2"
abbreviation (input) F5_SC_W :: u32 where "F5_SC_W \<equiv> 0x3"
abbreviation (input) F5_AMOSWAP_W :: u32 where "F5_AMOSWAP_W \<equiv> 0x1"
abbreviation (input) F5_AMOADD_W :: u32 where "F5_AMOADD_W \<equiv> 0x0"
abbreviation (input) F5_AMOXOR_W :: u32 where "F5_AMOXOR_W \<equiv> 0x4"
abbreviation (input) F5_AMOAND_W :: u32 where "F5_AMOAND_W \<equiv> 0xC"
abbreviation (input) F5_AMOOR_W :: u32 where "F5_AMOOR_W \<equiv> 0x8"
abbreviation (input) F5_AMOMIN_W :: u32 where "F5_AMOMIN_W \<equiv> 0x10"
abbreviation (input) F5_AMOMAX_W :: u32 where "F5_AMOMAX_W \<equiv> 0x14"
abbreviation (input) F5_AMOMINU_W :: u32 where "F5_AMOMINU_W \<equiv> 0x18"
abbreviation (input) F5_AMOMAXU_W :: u32 where "F5_AMOMAXU_W \<equiv> 0x1C"
abbreviation (input) F3_AMO_W :: u32 where "F3_AMO_W \<equiv> 0x2"
abbreviation (input) F3_AMO_D :: u32 where "F3_AMO_D \<equiv> 0x3"
abbreviation (input) OP_ADDIW :: u32 where "OP_ADDIW \<equiv> 0x1B"
abbreviation (input) F3_ADDIW :: u32 where "F3_ADDIW \<equiv> 0x0"
abbreviation (input) F3_SLLIW :: u32 where "F3_SLLIW \<equiv> 0x1"
abbreviation (input) F3_SRLIW :: u32 where "F3_SRLIW \<equiv> 0x5"
abbreviation (input) F7_SRLIW :: u32 where "F7_SRLIW \<equiv> 0x0"
abbreviation (input) F7_SRAIW :: u32 where "F7_SRAIW \<equiv> 0x20"
abbreviation (input) OP_ADDW :: u32 where "OP_ADDW \<equiv> 0x3B"
abbreviation (input) F3_ADDW :: u32 where "F3_ADDW \<equiv> 0x0"
abbreviation (input) F7_ADDW :: u32 where "F7_ADDW \<equiv> 0x0"
abbreviation (input) F3_SUBW :: u32 where "F3_SUBW \<equiv> 0x0"
abbreviation (input) F7_SUBW :: u32 where "F7_SUBW \<equiv> 0x20"
abbreviation (input) F3_SLLW :: u32 where "F3_SLLW \<equiv> 0x1"
abbreviation (input) F3_SRLW :: u32 where "F3_SRLW \<equiv> 0x5"
abbreviation (input) F7_SRLW :: u32 where "F7_SRLW \<equiv> 0x0"
abbreviation (input) F3_SRAW :: u32 where "F3_SRAW \<equiv> 0x5"
abbreviation (input) F7_SRAW :: u32 where "F7_SRAW \<equiv> 0x20"
abbreviation (input) F7_MULW :: u32 where "F7_MULW \<equiv> 0x1"
abbreviation (input) F3_MULW :: u32 where "F3_MULW \<equiv> 0x0"
abbreviation (input) F3_DIVW :: u32 where "F3_DIVW \<equiv> 0x4"
abbreviation (input) F3_DIVUW :: u32 where "F3_DIVUW \<equiv> 0x5"
abbreviation (input) F3_REMW :: u32 where "F3_REMW \<equiv> 0x6"
abbreviation (input) F3_REMUW :: u32 where "F3_REMUW \<equiv> 0x7"
abbreviation (input) OP_FMADD_S :: u32 where "OP_FMADD_S \<equiv> 0x43"
abbreviation (input) F2_FMADD_S :: u32 where "F2_FMADD_S \<equiv> 0x0"
abbreviation (input) F2_FMADD_D :: u32 where "F2_FMADD_D \<equiv> 0x1"
abbreviation (input) OP_FADD_S :: u32 where "OP_FADD_S \<equiv> 0x53"
abbreviation (input) F7_FADD_S :: u32 where "F7_FADD_S \<equiv> 0x0"
abbreviation (input) F7_FADD_D :: u32 where "F7_FADD_D \<equiv> 0x1"
abbreviation (input) F7_FSUB_S :: u32 where "F7_FSUB_S \<equiv> 0x4"
abbreviation (input) F7_FSUB_D :: u32 where "F7_FSUB_D \<equiv> 0x5"
abbreviation (input) F7_FCVT_D_S :: u32 where "F7_FCVT_D_S \<equiv> 0x21"
abbreviation (input) F7_FMUL_S :: u32 where "F7_FMUL_S \<equiv> 0x8"
abbreviation (input) F7_FMUL_D :: u32 where "F7_FMUL_D \<equiv> 0x9"
abbreviation (input) F7_FDIV_S :: u32 where "F7_FDIV_S \<equiv> 0xC"
abbreviation (input) F7_FDIV_D :: u32 where "F7_FDIV_D \<equiv> 0xD"
abbreviation (input) F7_FLE_S :: u32 where "F7_FLE_S \<equiv> 0x50"
abbreviation (input) F3_FLE_S :: u32 where "F3_FLE_S \<equiv> 0x0"
abbreviation (input) F3_FLT_S :: u32 where "F3_FLT_S \<equiv> 0x1"
abbreviation (input) F3_FEQ_S :: u32 where "F3_FEQ_S \<equiv> 0x2"
abbreviation (input) F7_FSGNJ_D :: u32 where "F7_FSGNJ_D \<equiv> 0x11"
abbreviation (input) F3_FSGNJ_D :: u32 where "F3_FSGNJ_D \<equiv> 0x0"
abbreviation (input) F3_FSGNJN_D :: u32 where "F3_FSGNJN_D \<equiv> 0x1"
abbreviation (input) F3_FSGNJX_D :: u32 where "F3_FSGNJX_D \<equiv> 0x2"
abbreviation (input) F7_FMIN_S :: u32 where "F7_FMIN_S \<equiv> 0x14"
abbreviation (input) F3_FMIN_S :: u32 where "F3_FMIN_S \<equiv> 0x0"
abbreviation (input) F3_FMAX_S :: u32 where "F3_FMAX_S \<equiv> 0x1"
abbreviation (input) F7_FMIN_D :: u32 where "F7_FMIN_D \<equiv> 0x15"
abbreviation (input) F3_FMIN_D :: u32 where "F3_FMIN_D \<equiv> 0x0"
abbreviation (input) F3_FMAX_D :: u32 where "F3_FMAX_D \<equiv> 0x1"
abbreviation (input) F7_FCVT_S_D :: u32 where "F7_FCVT_S_D \<equiv> 0x20"
abbreviation (input) F7_FSGNJ_S :: u32 where "F7_FSGNJ_S \<equiv> 0x10"
abbreviation (input) F3_FSGNJ_S :: u32 where "F3_FSGNJ_S \<equiv> 0x0"
abbreviation (input) F3_FSGNJN_S :: u32 where "F3_FSGNJN_S \<equiv> 0x1"
abbreviation (input) F3_FSGNJX_S :: u32 where "F3_FSGNJX_S \<equiv> 0x2"
abbreviation (input) F7_FLE_D :: u32 where "F7_FLE_D \<equiv> 0x51"
abbreviation (input) F3_FLE_D :: u32 where "F3_FLE_D \<equiv> 0x0"
abbreviation (input) F3_FLT_D :: u32 where "F3_FLT_D \<equiv> 0x1"
abbreviation (input) F3_FEQ_D :: u32 where "F3_FEQ_D \<equiv> 0x2"
abbreviation (input) F7_FCVT_S_W :: u32 where "F7_FCVT_S_W \<equiv> 0x68"
abbreviation (input) RS2_FCVT_S_W :: u32 where "RS2_FCVT_S_W \<equiv> 0x0"
abbreviation (input) RS2_FCVT_S_WU :: u32 where "RS2_FCVT_S_WU \<equiv> 0x1"
abbreviation (input) RS2_FCVT_S_L :: u32 where "RS2_FCVT_S_L \<equiv> 0x2"
abbreviation (input) RS2_FCVT_S_LU :: u32 where "RS2_FCVT_S_LU \<equiv> 0x3"
abbreviation (input) F7_FCVT_D_W :: u32 where "F7_FCVT_D_W \<equiv> 0x69"
abbreviation (input) RS2_FCVT_D_W :: u32 where "RS2_FCVT_D_W \<equiv> 0x0"
abbreviation (input) RS2_FCVT_D_WU :: u32 where "RS2_FCVT_D_WU \<equiv> 0x1"
abbreviation (input) RS2_FCVT_D_L :: u32 where "RS2_FCVT_D_L \<equiv> 0x2"
abbreviation (input) RS2_FCVT_D_LU :: u32 where "RS2_FCVT_D_LU \<equiv> 0x3"
abbreviation (input) F7_FCVT_W_D :: u32 where "F7_FCVT_W_D \<equiv> 0x61"
abbreviation (input) RS2_FCVT_W_D :: u32 where "RS2_FCVT_W_D \<equiv> 0x0"
abbreviation (input) RS2_FCVT_WU_D :: u32 where "RS2_FCVT_WU_D \<equiv> 0x1"
abbreviation (input) RS2_FCVT_L_D :: u32 where "RS2_FCVT_L_D \<equiv> 0x2"
abbreviation (input) RS2_FCVT_LU_D :: u32 where "RS2_FCVT_LU_D \<equiv> 0x3"
abbreviation (input) F7_FSQRT_S :: u32 where "F7_FSQRT_S \<equiv> 0x2C"
abbreviation (input) F7_FSQRT_D :: u32 where "F7_FSQRT_D \<equiv> 0x2D"
abbreviation (input) F7_FCVT_W_S :: u32 where "F7_FCVT_W_S \<equiv> 0x60"
abbreviation (input) RS2_FCVT_W_S :: u32 where "RS2_FCVT_W_S \<equiv> 0x0"
abbreviation (input) RS2_FCVT_WU_S :: u32 where "RS2_FCVT_WU_S \<equiv> 0x1"
abbreviation (input) RS2_FCVT_L_S :: u32 where "RS2_FCVT_L_S \<equiv> 0x2"
abbreviation (input) RS2_FCVT_LU_S :: u32 where "RS2_FCVT_LU_S \<equiv> 0x3"
abbreviation (input) F7_FMV_X_W :: u32 where "F7_FMV_X_W \<equiv> 0x70"
abbreviation (input) F3_FMV_X_W :: u32 where "F3_FMV_X_W \<equiv> 0x0"
abbreviation (input) F3_FCLASS_S :: u32 where "F3_FCLASS_S \<equiv> 0x1"
abbreviation (input) F7_FMV_X_D :: u32 where "F7_FMV_X_D \<equiv> 0x71"
abbreviation (input) F3_FMV_X_D :: u32 where "F3_FMV_X_D \<equiv> 0x0"
abbreviation (input) F3_FCLASS_D :: u32 where "F3_FCLASS_D \<equiv> 0x1"
abbreviation (input) F7_FMV_W_X :: u32 where "F7_FMV_W_X \<equiv> 0x78"
abbreviation (input) F7_FMV_D_X :: u32 where "F7_FMV_D_X \<equiv> 0x79"
abbreviation (input) OP_FLW :: u32 where "OP_FLW \<equiv> 0x7"
abbreviation (input) F3_FLW :: u32 where "F3_FLW \<equiv> 0x2"
abbreviation (input) F3_FLD :: u32 where "F3_FLD \<equiv> 0x3"
abbreviation (input) OP_FSW :: u32 where "OP_FSW \<equiv> 0x27"
abbreviation (input) F3_FSW :: u32 where "F3_FSW \<equiv> 0x2"
abbreviation (input) F3_FSD :: u32 where "F3_FSD \<equiv> 0x3"
abbreviation (input) OP_FMSUB_S :: u32 where "OP_FMSUB_S \<equiv> 0x47"
abbreviation (input) F2_FMSUB_S :: u32 where "F2_FMSUB_S \<equiv> 0x0"
abbreviation (input) F2_FMSUB_D :: u32 where "F2_FMSUB_D \<equiv> 0x1"
abbreviation (input) OP_FNMSUB_S :: u32 where "OP_FNMSUB_S \<equiv> 0x4B"
abbreviation (input) F2_FNMSUB_S :: u32 where "F2_FNMSUB_S \<equiv> 0x0"
abbreviation (input) F2_FNMSUB_D :: u32 where "F2_FNMSUB_D \<equiv> 0x1"
abbreviation (input) OP_FNMADD_S :: u32 where "OP_FNMADD_S \<equiv> 0x4F"
abbreviation (input) F2_FNMADD_S :: u32 where "F2_FNMADD_S \<equiv> 0x0"
abbreviation (input) F2_FNMADD_D :: u32 where "F2_FNMADD_D \<equiv> 0x1"
abbreviation (input) OP_CUST1 :: u32 where "OP_CUST1 \<equiv> 0x2B"
abbreviation (input) OP_CUST0 :: u32 where "OP_CUST0 \<equiv> 0xB"

section \<open>Masks and encodings\<close>

primrec rv32i_MASK :: "rv32i \<Rightarrow> u32" where
  "rv32i_MASK LUI = 0x0000007F"
| "rv32i_MASK AUIPC = 0x0000007F"
| "rv32i_MASK JAL = 0x0000007F"
| "rv32i_MASK JALR = 0x0000707F"
| "rv32i_MASK BEQ = 0x0000707F"
| "rv32i_MASK BNE = 0x0000707F"
| "rv32i_MASK BLT = 0x0000707F"
| "rv32i_MASK BGE = 0x0000707F"
| "rv32i_MASK BLTU = 0x0000707F"
| "rv32i_MASK BGEU = 0x0000707F"
| "rv32i_MASK LB = 0x0000707F"
| "rv32i_MASK LH = 0x0000707F"
| "rv32i_MASK LW = 0x0000707F"
| "rv32i_MASK LBU = 0x0000707F"
| "rv32i_MASK LHU = 0x0000707F"
| "rv32i_MASK SB = 0x0000707F"
| "rv32i_MASK SH = 0x0000707F"
| "rv32i_MASK SW = 0x0000707F"
| "rv32i_MASK ADDI = 0x0000707F"
| "rv32i_MASK SLTI = 0x0000707F"
| "rv32i_MASK SLTIU = 0x0000707F"
| "rv32i_MASK XORI = 0x0000707F"
| "rv32i_MASK ORI = 0x0000707F"
| "rv32i_MASK ANDI = 0x0000707F"
| "rv32i_MASK SLLI = 0xFC00707F"
| "rv32i_MASK SRLI = 0xFC00707F"
| "rv32i_MASK SRAI = 0xFC00707F"
| "rv32i_MASK ADD = 0xFE00707F"
| "rv32i_MASK SUB = 0xFE00707F"
| "rv32i_MASK SLL = 0xFE00707F"
| "rv32i_MASK SLT = 0xFE00707F"
| "rv32i_MASK SLTU = 0xFE00707F"
| "rv32i_MASK XOR_R = 0xFE00707F"
| "rv32i_MASK SRL = 0xFE00707F"
| "rv32i_MASK SRA = 0xFE00707F"
| "rv32i_MASK OR_R = 0xFE00707F"
| "rv32i_MASK AND_R = 0xFE00707F"
| "rv32i_MASK FENCE = 0x0000707F"
| "rv32i_MASK ECALL = 0xFFFFFFFF"
| "rv32i_MASK EBREAK = 0xFFFFFFFF"

primrec rv32i_ENCODING :: "rv32i \<Rightarrow> u32" where
  "rv32i_ENCODING LUI = 0x00000037"
| "rv32i_ENCODING AUIPC = 0x00000017"
| "rv32i_ENCODING JAL = 0x0000006F"
| "rv32i_ENCODING JALR = 0x00000067"
| "rv32i_ENCODING BEQ = 0x00000063"
| "rv32i_ENCODING BNE = 0x00001063"
| "rv32i_ENCODING BLT = 0x00004063"
| "rv32i_ENCODING BGE = 0x00005063"
| "rv32i_ENCODING BLTU = 0x00006063"
| "rv32i_ENCODING BGEU = 0x00007063"
| "rv32i_ENCODING LB = 0x00000003"
| "rv32i_ENCODING LH = 0x00001003"
| "rv32i_ENCODING LW = 0x00002003"
| "rv32i_ENCODING LBU = 0x00004003"
| "rv32i_ENCODING LHU = 0x00005003"
| "rv32i_ENCODING SB = 0x00000023"
| "rv32i_ENCODING SH = 0x00001023"
| "rv32i_ENCODING SW = 0x00002023"
| "rv32i_ENCODING ADDI = 0x00000013"
| "rv32i_ENCODING SLTI = 0x00002013"
| "rv32i_ENCODING SLTIU = 0x00003013"
| "rv32i_ENCODING XORI = 0x00004013"
| "rv32i_ENCODING ORI = 0x00006013"
| "rv32i_ENCODING ANDI = 0x00007013"
| "rv32i_ENCODING SLLI = 0x00001013"
| "rv32i_ENCODING SRLI = 0x00005013"
| "rv32i_ENCODING SRAI = 0x40005013"
| "rv32i_ENCODING ADD = 0x00000033"
| "rv32i_ENCODING SUB = 0x40000033"
| "rv32i_ENCODING SLL = 0x00001033"
| "rv32i_ENCODING SLT = 0x00002033"
| "rv32i_ENCODING SLTU = 0x00003033"
| "rv32i_ENCODING XOR_R = 0x00004033"
| "rv32i_ENCODING SRL = 0x00005033"
| "rv32i_ENCODING SRA = 0x40005033"
| "rv32i_ENCODING OR_R = 0x00006033"
| "rv32i_ENCODING AND_R = 0x00007033"
| "rv32i_ENCODING FENCE = 0x0000000F"
| "rv32i_ENCODING ECALL = 0x00000073"
| "rv32i_ENCODING EBREAK = 0x00100073"

primrec zifencei_MASK :: "zifencei \<Rightarrow> u32" where
  "zifencei_MASK FENCE_I = 0x0000707F"

primrec zifencei_ENCODING :: "zifencei \<Rightarrow> u32" where
  "zifencei_ENCODING FENCE_I = 0x0000100F"

primrec zicsr_MASK :: "zicsr \<Rightarrow> u32" where
  "zicsr_MASK CSRRW = 0x0000707F"
| "zicsr_MASK CSRRS = 0x0000707F"
| "zicsr_MASK CSRRC = 0x0000707F"
| "zicsr_MASK CSRRWI = 0x0000707F"
| "zicsr_MASK CSRRSI = 0x0000707F"
| "zicsr_MASK CSRRCI = 0x0000707F"

primrec zicsr_ENCODING :: "zicsr \<Rightarrow> u32" where
  "zicsr_ENCODING CSRRW = 0x00001073"
| "zicsr_ENCODING CSRRS = 0x00002073"
| "zicsr_ENCODING CSRRC = 0x00003073"
| "zicsr_ENCODING CSRRWI = 0x00005073"
| "zicsr_ENCODING CSRRSI = 0x00006073"
| "zicsr_ENCODING CSRRCI = 0x00007073"

primrec rv32m_MASK :: "rv32m \<Rightarrow> u32" where
  "rv32m_MASK MUL = 0xFE00707F"
| "rv32m_MASK MULH = 0xFE00707F"
| "rv32m_MASK MULHSU = 0xFE00707F"
| "rv32m_MASK MULHU = 0xFE00707F"
| "rv32m_MASK DIV = 0xFE00707F"
| "rv32m_MASK DIVU = 0xFE00707F"
| "rv32m_MASK REM = 0xFE00707F"
| "rv32m_MASK REMU = 0xFE00707F"

primrec rv32m_ENCODING :: "rv32m \<Rightarrow> u32" where
  "rv32m_ENCODING MUL = 0x02000033"
| "rv32m_ENCODING MULH = 0x02001033"
| "rv32m_ENCODING MULHSU = 0x02002033"
| "rv32m_ENCODING MULHU = 0x02003033"
| "rv32m_ENCODING DIV = 0x02004033"
| "rv32m_ENCODING DIVU = 0x02005033"
| "rv32m_ENCODING REM = 0x02006033"
| "rv32m_ENCODING REMU = 0x02007033"

primrec rv32a_MASK :: "rv32a \<Rightarrow> u32" where
  "rv32a_MASK LR_W = 0xF9F0707F"
| "rv32a_MASK SC_W = 0xF800707F"
| "rv32a_MASK AMOSWAP_W = 0xF800707F"
| "rv32a_MASK AMOADD_W = 0xF800707F"
| "rv32a_MASK AMOXOR_W = 0xF800707F"
| "rv32a_MASK AMOAND_W = 0xF800707F"
| "rv32a_MASK AMOOR_W = 0xF800707F"
| "rv32a_MASK AMOMIN_W = 0xF800707F"
| "rv32a_MASK AMOMAX_W = 0xF800707F"
| "rv32a_MASK AMOMINU_W = 0xF800707F"
| "rv32a_MASK AMOMAXU_W = 0xF800707F"

primrec rv32a_ENCODING :: "rv32a \<Rightarrow> u32" where
  "rv32a_ENCODING LR_W = 0x1000202F"
| "rv32a_ENCODING SC_W = 0x1800202F"
| "rv32a_ENCODING AMOSWAP_W = 0x0800202F"
| "rv32a_ENCODING AMOADD_W = 0x0000202F"
| "rv32a_ENCODING AMOXOR_W = 0x2000202F"
| "rv32a_ENCODING AMOAND_W = 0x6000202F"
| "rv32a_ENCODING AMOOR_W = 0x4000202F"
| "rv32a_ENCODING AMOMIN_W = 0x8000202F"
| "rv32a_ENCODING AMOMAX_W = 0xA000202F"
| "rv32a_ENCODING AMOMINU_W = 0xC000202F"
| "rv32a_ENCODING AMOMAXU_W = 0xE000202F"

primrec rv64i_MASK :: "rv64i \<Rightarrow> u32" where
  "rv64i_MASK LWU = 0x0000707F"
| "rv64i_MASK LD = 0x0000707F"
| "rv64i_MASK SD = 0x0000707F"
| "rv64i_MASK ADDIW = 0x0000707F"
| "rv64i_MASK SLLIW = 0xFE00707F"
| "rv64i_MASK SRLIW = 0xFE00707F"
| "rv64i_MASK SRAIW = 0xFE00707F"
| "rv64i_MASK ADDW = 0xFE00707F"
| "rv64i_MASK SUBW = 0xFE00707F"
| "rv64i_MASK SLLW = 0xFE00707F"
| "rv64i_MASK SRLW = 0xFE00707F"
| "rv64i_MASK SRAW = 0xFE00707F"

primrec rv64i_ENCODING :: "rv64i \<Rightarrow> u32" where
  "rv64i_ENCODING LWU = 0x00006003"
| "rv64i_ENCODING LD = 0x00003003"
| "rv64i_ENCODING SD = 0x00003023"
| "rv64i_ENCODING ADDIW = 0x0000001B"
| "rv64i_ENCODING SLLIW = 0x0000101B"
| "rv64i_ENCODING SRLIW = 0x0000501B"
| "rv64i_ENCODING SRAIW = 0x4000501B"
| "rv64i_ENCODING ADDW = 0x0000003B"
| "rv64i_ENCODING SUBW = 0x4000003B"
| "rv64i_ENCODING SLLW = 0x0000103B"
| "rv64i_ENCODING SRLW = 0x0000503B"
| "rv64i_ENCODING SRAW = 0x4000503B"

primrec rv64m_MASK :: "rv64m \<Rightarrow> u32" where
  "rv64m_MASK MULW = 0xFE00707F"
| "rv64m_MASK DIVW = 0xFE00707F"
| "rv64m_MASK DIVUW = 0xFE00707F"
| "rv64m_MASK REMW = 0xFE00707F"
| "rv64m_MASK REMUW = 0xFE00707F"

primrec rv64m_ENCODING :: "rv64m \<Rightarrow> u32" where
  "rv64m_ENCODING MULW = 0x0200003B"
| "rv64m_ENCODING DIVW = 0x0200403B"
| "rv64m_ENCODING DIVUW = 0x0200503B"
| "rv64m_ENCODING REMW = 0x0200603B"
| "rv64m_ENCODING REMUW = 0x0200703B"

primrec rv64a_MASK :: "rv64a \<Rightarrow> u32" where
  "rv64a_MASK LR_D = 0xF9F0707F"
| "rv64a_MASK SC_D = 0xF800707F"
| "rv64a_MASK AMOSWAP_D = 0xF800707F"
| "rv64a_MASK AMOADD_D = 0xF800707F"
| "rv64a_MASK AMOXOR_D = 0xF800707F"
| "rv64a_MASK AMOAND_D = 0xF800707F"
| "rv64a_MASK AMOOR_D = 0xF800707F"
| "rv64a_MASK AMOMIN_D = 0xF800707F"
| "rv64a_MASK AMOMAX_D = 0xF800707F"
| "rv64a_MASK AMOMINU_D = 0xF800707F"
| "rv64a_MASK AMOMAXU_D = 0xF800707F"

primrec rv64a_ENCODING :: "rv64a \<Rightarrow> u32" where
  "rv64a_ENCODING LR_D = 0x1000302F"
| "rv64a_ENCODING SC_D = 0x1800302F"
| "rv64a_ENCODING AMOSWAP_D = 0x0800302F"
| "rv64a_ENCODING AMOADD_D = 0x0000302F"
| "rv64a_ENCODING AMOXOR_D = 0x2000302F"
| "rv64a_ENCODING AMOAND_D = 0x6000302F"
| "rv64a_ENCODING AMOOR_D = 0x4000302F"
| "rv64a_ENCODING AMOMIN_D = 0x8000302F"
| "rv64a_ENCODING AMOMAX_D = 0xA000302F"
| "rv64a_ENCODING AMOMINU_D = 0xC000302F"
| "rv64a_ENCODING AMOMAXU_D = 0xE000302F"

primrec rv32f_MASK :: "rv32f \<Rightarrow> u32" where
  "rv32f_MASK FLW = 0x0000707F"
| "rv32f_MASK FSW = 0x0000707F"
| "rv32f_MASK FMADD_S = 0x0600007F"
| "rv32f_MASK FMSUB_S = 0x0600007F"
| "rv32f_MASK FNMADD_S = 0x0600007F"
| "rv32f_MASK FNMSUB_S = 0x0600007F"
| "rv32f_MASK FADD_S = 0xFE00007F"
| "rv32f_MASK FSUB_S = 0xFE00007F"
| "rv32f_MASK FMUL_S = 0xFE00007F"
| "rv32f_MASK FDIV_S = 0xFE00007F"
| "rv32f_MASK FSQRT_S = 0xFFF0007F"
| "rv32f_MASK FSGNJ_S = 0xFE00707F"
| "rv32f_MASK FSGNJN_S = 0xFE00707F"
| "rv32f_MASK FSGNJX_S = 0xFE00707F"
| "rv32f_MASK FMIN_S = 0xFE00707F"
| "rv32f_MASK FMAX_S = 0xFE00707F"
| "rv32f_MASK FCVT_W_S = 0xFFF0007F"
| "rv32f_MASK FCVT_WU_S = 0xFFF0007F"
| "rv32f_MASK FMV_X_W = 0xFFF0707F"
| "rv32f_MASK FEQ_S = 0xFE00707F"
| "rv32f_MASK FLT_S = 0xFE00707F"
| "rv32f_MASK FLE_S = 0xFE00707F"
| "rv32f_MASK FCLASS_S = 0xFFF0707F"
| "rv32f_MASK FCVT_S_W = 0xFFF0007F"
| "rv32f_MASK FCVT_S_WU = 0xFFF0007F"
| "rv32f_MASK FMV_W_X = 0xFFF0707F"

primrec rv32f_ENCODING :: "rv32f \<Rightarrow> u32" where
  "rv32f_ENCODING FLW = 0x00002007"
| "rv32f_ENCODING FSW = 0x00002027"
| "rv32f_ENCODING FMADD_S = 0x00000043"
| "rv32f_ENCODING FMSUB_S = 0x00000047"
| "rv32f_ENCODING FNMADD_S = 0x0000004F"
| "rv32f_ENCODING FNMSUB_S = 0x0000004B"
| "rv32f_ENCODING FADD_S = 0x00000053"
| "rv32f_ENCODING FSUB_S = 0x08000053"
| "rv32f_ENCODING FMUL_S = 0x10000053"
| "rv32f_ENCODING FDIV_S = 0x18000053"
| "rv32f_ENCODING FSQRT_S = 0x58000053"
| "rv32f_ENCODING FSGNJ_S = 0x20000053"
| "rv32f_ENCODING FSGNJN_S = 0x20001053"
| "rv32f_ENCODING FSGNJX_S = 0x20002053"
| "rv32f_ENCODING FMIN_S = 0x28000053"
| "rv32f_ENCODING FMAX_S = 0x28001053"
| "rv32f_ENCODING FCVT_W_S = 0xC0000053"
| "rv32f_ENCODING FCVT_WU_S = 0xC0100053"
| "rv32f_ENCODING FMV_X_W = 0xE0000053"
| "rv32f_ENCODING FEQ_S = 0xA0002053"
| "rv32f_ENCODING FLT_S = 0xA0001053"
| "rv32f_ENCODING FLE_S = 0xA0000053"
| "rv32f_ENCODING FCLASS_S = 0xE0001053"
| "rv32f_ENCODING FCVT_S_W = 0xD0000053"
| "rv32f_ENCODING FCVT_S_WU = 0xD0100053"
| "rv32f_ENCODING FMV_W_X = 0xF0000053"

primrec rv64f_MASK :: "rv64f \<Rightarrow> u32" where
  "rv64f_MASK FCVT_L_S = 0xFFF0007F"
| "rv64f_MASK FCVT_LU_S = 0xFFF0007F"
| "rv64f_MASK FCVT_S_L = 0xFFF0007F"
| "rv64f_MASK FCVT_S_LU = 0xFFF0007F"

primrec rv64f_ENCODING :: "rv64f \<Rightarrow> u32" where
  "rv64f_ENCODING FCVT_L_S = 0xC0200053"
| "rv64f_ENCODING FCVT_LU_S = 0xC0300053"
| "rv64f_ENCODING FCVT_S_L = 0xD0200053"
| "rv64f_ENCODING FCVT_S_LU = 0xD0300053"

primrec rv32d_MASK :: "rv32d \<Rightarrow> u32" where
  "rv32d_MASK FLD = 0x0000707F"
| "rv32d_MASK FSD = 0x0000707F"
| "rv32d_MASK FMADD_D = 0x0600007F"
| "rv32d_MASK FMSUB_D = 0x0600007F"
| "rv32d_MASK FNMSUB_D = 0x0600007F"
| "rv32d_MASK FNMADD_D = 0x0600007F"
| "rv32d_MASK FADD_D = 0xFE00007F"
| "rv32d_MASK FSUB_D = 0xFE00007F"
| "rv32d_MASK FMUL_D = 0xFE00007F"
| "rv32d_MASK FDIV_D = 0xFE00007F"
| "rv32d_MASK FSQRT_D = 0xFFF0007F"
| "rv32d_MASK FSGNJ_D = 0xFE00707F"
| "rv32d_MASK FSGNJN_D = 0xFE00707F"
| "rv32d_MASK FSGNJX_D = 0xFE00707F"
| "rv32d_MASK FMIN_D = 0xFE00707F"
| "rv32d_MASK FMAX_D = 0xFE00707F"
| "rv32d_MASK FCVT_S_D = 0xFFF0007F"
| "rv32d_MASK FCVT_D_S = 0xFFF0007F"
| "rv32d_MASK FEQ_D = 0xFE00707F"
| "rv32d_MASK FLT_D = 0xFE00707F"
| "rv32d_MASK FLE_D = 0xFE00707F"
| "rv32d_MASK FCLASS_D = 0xFFF0707F"
| "rv32d_MASK FCVT_W_D = 0xFFF0007F"
| "rv32d_MASK FCVT_WU_D = 0xFFF0007F"
| "rv32d_MASK FCVT_D_W = 0xFFF0007F"
| "rv32d_MASK FCVT_D_WU = 0xFFF0007F"

primrec rv32d_ENCODING :: "rv32d \<Rightarrow> u32" where
  "rv32d_ENCODING FLD = 0x00003007"
| "rv32d_ENCODING FSD = 0x00003027"
| "rv32d_ENCODING FMADD_D = 0x02000043"
| "rv32d_ENCODING FMSUB_D = 0x02000047"
| "rv32d_ENCODING FNMSUB_D = 0x0200004B"
| "rv32d_ENCODING FNMADD_D = 0x0200004F"
| "rv32d_ENCODING FADD_D = 0x02000053"
| "rv32d_ENCODING FSUB_D = 0x0A000053"
| "rv32d_ENCODING FMUL_D = 0x12000053"
| "rv32d_ENCODING FDIV_D = 0x1A000053"
| "rv32d_ENCODING FSQRT_D = 0x5A000053"
| "rv32d_ENCODING FSGNJ_D = 0x22000053"
| "rv32d_ENCODING FSGNJN_D = 0x22001053"
| "rv32d_ENCODING FSGNJX_D = 0x22002053"
| "rv32d_ENCODING FMIN_D = 0x2A000053"
| "rv32d_ENCODING FMAX_D = 0x2A001053"
| "rv32d_ENCODING FCVT_S_D = 0x40100053"
| "rv32d_ENCODING FCVT_D_S = 0x42000053"
| "rv32d_ENCODING FEQ_D = 0xA2002053"
| "rv32d_ENCODING FLT_D = 0xA2001053"
| "rv32d_ENCODING FLE_D = 0xA2000053"
| "rv32d_ENCODING FCLASS_D = 0xE2001053"
| "rv32d_ENCODING FCVT_W_D = 0xC2000053"
| "rv32d_ENCODING FCVT_WU_D = 0xC2100053"
| "rv32d_ENCODING FCVT_D_W = 0xD2000053"
| "rv32d_ENCODING FCVT_D_WU = 0xD2100053"

primrec rv64d_MASK :: "rv64d \<Rightarrow> u32" where
  "rv64d_MASK FCVT_L_D = 0xFFF0007F"
| "rv64d_MASK FCVT_LU_D = 0xFFF0007F"
| "rv64d_MASK FMV_X_D = 0xFFF0707F"
| "rv64d_MASK FCVT_D_L = 0xFFF0007F"
| "rv64d_MASK FCVT_D_LU = 0xFFF0007F"
| "rv64d_MASK FMV_D_X = 0xFFF0707F"

primrec rv64d_ENCODING :: "rv64d \<Rightarrow> u32" where
  "rv64d_ENCODING FCVT_L_D = 0xC2200053"
| "rv64d_ENCODING FCVT_LU_D = 0xC2300053"
| "rv64d_ENCODING FMV_X_D = 0xE2000053"
| "rv64d_ENCODING FCVT_D_L = 0xD2200053"
| "rv64d_ENCODING FCVT_D_LU = 0xD2300053"
| "rv64d_ENCODING FMV_D_X = 0xF2000053"

primrec priv_MASK :: "priv \<Rightarrow> u32" where
  "priv_MASK URET = 0xFFFFFFFF"
| "priv_MASK SRET = 0xFFFFFFFF"
| "priv_MASK MRET = 0xFFFFFFFF"
| "priv_MASK WFI = 0xFFFFFFFF"
| "priv_MASK SFENCE_VMA = 0xFE007FFF"

primrec priv_ENCODING :: "priv \<Rightarrow> u32" where
  "priv_ENCODING URET = 0x00200073"
| "priv_ENCODING SRET = 0x10200073"
| "priv_ENCODING MRET = 0x30200073"
| "priv_ENCODING WFI = 0x10500073"
| "priv_ENCODING SFENCE_VMA = 0x12000073"

text \<open>
  \<open>MASK arch m\<close> and \<open>ENCODING arch m\<close> are what \<open>MATCH_AND_RETURN_INSTR\<close> compares with; the
  immediate shifts have one mask for RV32 (\<open>SLLI_32_MASK\<close> and so on) and one for wider
  architectures.
\<close>

definition MASK :: "Architecture \<Rightarrow> Mapping \<Rightarrow> u32" where
  "MASK arch m =
     (case m of
        UNDEF \<Rightarrow> 0
      | M_I i \<Rightarrow>
          (if arch = RV32 \<and> i = SLLI then 0xFE00707F
           else if arch = RV32 \<and> i = SRLI then 0xFE00707F
           else if arch = RV32 \<and> i = SRAI then 0xFE00707F
           else rv32i_MASK i)
      | M_Zifencei i \<Rightarrow> zifencei_MASK i
      | M_Zicsr i \<Rightarrow> zicsr_MASK i
      | M_M i \<Rightarrow> rv32m_MASK i
      | M_A i \<Rightarrow> rv32a_MASK i
      | M_I64 i \<Rightarrow> rv64i_MASK i
      | M_M64 i \<Rightarrow> rv64m_MASK i
      | M_A64 i \<Rightarrow> rv64a_MASK i
      | M_F i \<Rightarrow> rv32f_MASK i
      | M_F64 i \<Rightarrow> rv64f_MASK i
      | M_D i \<Rightarrow> rv32d_MASK i
      | M_D64 i \<Rightarrow> rv64d_MASK i
      | M_Priv i \<Rightarrow> priv_MASK i)"

definition ENCODING :: "Architecture \<Rightarrow> Mapping \<Rightarrow> u32" where
  "ENCODING arch m =
     (case m of
        UNDEF \<Rightarrow> 0
      | M_I i \<Rightarrow>
          (if arch = RV32 \<and> i = SLLI then 0x00001013
           else if arch = RV32 \<and> i = SRLI then 0x00005013
           else if arch = RV32 \<and> i = SRAI then 0x40005013
           else rv32i_ENCODING i)
      | M_Zifencei i \<Rightarrow> zifencei_ENCODING i
      | M_Zicsr i \<Rightarrow> zicsr_ENCODING i
      | M_M i \<Rightarrow> rv32m_ENCODING i
      | M_A i \<Rightarrow> rv32a_ENCODING i
      | M_I64 i \<Rightarrow> rv64i_ENCODING i
      | M_M64 i \<Rightarrow> rv64m_ENCODING i
      | M_A64 i \<Rightarrow> rv64a_ENCODING i
      | M_F i \<Rightarrow> rv32f_ENCODING i
      | M_F64 i \<Rightarrow> rv64f_ENCODING i
      | M_D i \<Rightarrow> rv32d_ENCODING i
      | M_D64 i \<Rightarrow> rv64d_ENCODING i
      | M_Priv i \<Rightarrow> priv_ENCODING i)"

section \<open>Formats\<close>

definition getType :: "Mapping \<Rightarrow> Type" where
  "getType m =
     (if m \<in> {
          M_I SLLI, M_I SRLI, M_I SRAI, M_I ADD, M_I SUB, M_I SLL, M_I SLT, M_I SLTU, M_I XOR_R
          , M_I SRL, M_I SRA, M_I OR_R, M_I AND_R, M_M MUL, M_M MULH, M_M MULHSU, M_M MULHU
          , M_M DIV, M_M DIVU, M_M REM, M_M REMU, M_I64 ADDW, M_I64 SUBW, M_I64 SLLW, M_I64 SRLW
          , M_I64 SRAW, M_M64 MULW, M_M64 DIVW, M_M64 DIVUW, M_M64 REMW, M_M64 REMUW, M_A LR_W
          , M_A SC_W, M_A AMOSWAP_W, M_A AMOADD_W, M_A AMOXOR_W, M_A AMOAND_W, M_A AMOOR_W
          , M_A AMOMIN_W, M_A AMOMAX_W, M_A AMOMINU_W, M_A AMOMAXU_W, M_A64 LR_D, M_A64 SC_D
          , M_A64 AMOSWAP_D, M_A64 AMOADD_D, M_A64 AMOXOR_D, M_A64 AMOAND_D, M_A64 AMOOR_D
          , M_A64 AMOMIN_D, M_A64 AMOMAX_D, M_A64 AMOMINU_D, M_A64 AMOMAXU_D, M_F FADD_S
          , M_F FSUB_S, M_F FMUL_S, M_F FDIV_S, M_F FSQRT_S, M_F FSGNJ_S, M_F FSGNJN_S
          , M_F FSGNJX_S, M_F FMIN_S, M_F FMAX_S, M_F FCVT_W_S, M_F FCVT_WU_S, M_F FMV_X_W
          , M_F FEQ_S, M_F FLT_S, M_F FLE_S, M_F FCLASS_S, M_F FCVT_S_W, M_F FCVT_S_WU
          , M_F FMV_W_X, M_F64 FCVT_L_S, M_F64 FCVT_LU_S, M_F64 FCVT_S_L, M_F64 FCVT_S_LU
          , M_D FADD_D, M_D FSUB_D, M_D FMUL_D, M_D FDIV_D, M_D FSQRT_D, M_D FSGNJ_D, M_D FSGNJN_D
          , M_D FSGNJX_D, M_D FMIN_D, M_D FMAX_D, M_D FCVT_S_D, M_D FCVT_D_S, M_D FEQ_D, M_D FLT_D
          , M_D FLE_D, M_D FCLASS_D, M_D FCVT_W_D, M_D FCVT_WU_D, M_D FCVT_D_W, M_D FCVT_D_WU
          , M_D64 FCVT_L_D, M_D64 FCVT_LU_D, M_D64 FMV_X_D, M_D64 FCVT_D_L, M_D64 FCVT_D_LU
          , M_D64 FMV_D_X} then Type_R
      else if m \<in> {
          M_I JALR, M_I LB, M_I LH, M_I LW, M_I64 LD, M_I LBU, M_I LHU, M_I64 LWU, M_I ADDI
          , M_I SLTI, M_I SLTIU, M_I XORI, M_I ORI, M_I ANDI, M_I64 ADDIW, M_I64 SLLIW
          , M_I64 SRLIW, M_I64 SRAIW, M_F FLW, M_D FLD} then Type_I
      else if m \<in> {
          M_I SB, M_I SH, M_I SW, M_I64 SD, M_F FSW, M_D FSD} then Type_S
      else if m \<in> {
          M_I BEQ, M_I BNE, M_I BLT, M_I BGE, M_I BLTU, M_I BGEU} then Type_B
      else if m \<in> {
          M_I LUI, M_I AUIPC} then Type_U
      else if m \<in> {
          M_I JAL} then Type_J
      else if m \<in> {
          M_F FMADD_S, M_F FMSUB_S, M_F FNMSUB_S, M_F FNMADD_S, M_D FMADD_D, M_D FMSUB_D
          , M_D FNMSUB_D, M_D FNMADD_D} then Type_R4
      else Type_UNKNOWN)"

end
