(* ===== verification/RV_Instr.thy ===== *)
theory RV_Instr
  imports RV_Opcode
begin

text \<open>
  \<open>struct Instruction\<close> of \<open>core/common/instr.h\<close> and \<open>Instruction::decode_normal\<close> of
  \<open>instr.cpp\<close>.  The word is kept in a signed 32-bit variable, so that \<open>>>\<close> is an arithmetic
  shift (\<open>signed_drop_bit\<close>) unless the source casts to \<open>uint32_t\<close> first (\<open>drop_bit\<close>).
\<close>

section \<open>Fields of an instruction word\<close>

definition BIT_RANGE :: "u32 \<Rightarrow> nat \<Rightarrow> nat \<Rightarrow> u32" where
  "BIT_RANGE w upper lower = w AND push_bit lower (push_bit (upper - lower + 1) 1 - 1)"

definition BIT_SLICE :: "u32 \<Rightarrow> nat \<Rightarrow> nat \<Rightarrow> u32" where
  "BIT_SLICE w upper lower = signed_drop_bit lower (BIT_RANGE w upper lower)"

definition BIT_SINGLE :: "u32 \<Rightarrow> nat \<Rightarrow> u32" where
  "BIT_SINGLE w pos = w AND push_bit pos 1"

definition BIT_SINGLE_P1 :: "u32 \<Rightarrow> nat \<Rightarrow> u32" where
  "BIT_SINGLE_P1 w pos = signed_drop_bit pos (BIT_SINGLE w pos)"

definition BIT_SINGLE_PN :: "u32 \<Rightarrow> nat \<Rightarrow> nat \<Rightarrow> u32" where
  "BIT_SINGLE_PN w pos new_pos = push_bit new_pos (signed_drop_bit pos (BIT_SINGLE w pos))"

definition EXTRACT_SIGN_BIT :: "u32 \<Rightarrow> nat \<Rightarrow> nat \<Rightarrow> u32" where
  "EXTRACT_SIGN_BIT w pos new_pos = signed_drop_bit (31 - new_pos) (push_bit 31 (BIT_SINGLE_P1 w pos))"

definition opcode :: "u32 \<Rightarrow> u32" where
  "opcode w = BIT_RANGE w 6 0"

definition rd :: "u32 \<Rightarrow> u32" where
  "rd w = signed_drop_bit 7 (BIT_RANGE w 11 7)"

definition rs1 :: "u32 \<Rightarrow> u32" where
  "rs1 w = signed_drop_bit 15 (BIT_RANGE w 19 15)"

definition rs2 :: "u32 \<Rightarrow> u32" where
  "rs2 w = signed_drop_bit 20 (BIT_RANGE w 24 20)"

definition rs3 :: "u32 \<Rightarrow> u32" where
  "rs3 w = drop_bit 27 (BIT_RANGE w 31 27)"

definition funct2 :: "u32 \<Rightarrow> u32" where
  "funct2 w = signed_drop_bit 25 (BIT_RANGE w 26 25)"

definition funct3 :: "u32 \<Rightarrow> u32" where
  "funct3 w = signed_drop_bit 12 (BIT_RANGE w 14 12)"

definition funct12 :: "u32 \<Rightarrow> u32" where
  "funct12 w = drop_bit 20 (BIT_RANGE w 31 20)"

definition funct7 :: "u32 \<Rightarrow> u32" where
  "funct7 w = drop_bit 25 (BIT_RANGE w 31 25)"

definition funct6 :: "u32 \<Rightarrow> u32" where
  "funct6 w = drop_bit 26 (BIT_RANGE w 31 26)"

definition funct5 :: "u32 \<Rightarrow> u32" where
  "funct5 w = drop_bit 27 (BIT_RANGE w 31 27)"

definition csr :: "u32 \<Rightarrow> u32" where
  "csr w = drop_bit 20 (BIT_RANGE w 31 20)"

definition zimm :: "u32 \<Rightarrow> u32" where
  "zimm w = signed_drop_bit 15 (BIT_RANGE w 19 15)"

definition shamt :: "u32 \<Rightarrow> u32" where
  "shamt w = signed_drop_bit 20 (BIT_RANGE w 25 20)"

definition shamt_w :: "u32 \<Rightarrow> u32" where
  "shamt_w w = signed_drop_bit 20 (BIT_RANGE w 24 20)"

definition I_imm :: "u32 \<Rightarrow> u32" where
  "I_imm w = signed_drop_bit 20 (BIT_RANGE w 31 20)"

definition S_imm :: "u32 \<Rightarrow> u32" where
  "S_imm w = signed_drop_bit 20 (BIT_RANGE w 31 25) OR signed_drop_bit 7 (BIT_RANGE w 11 7)"

definition B_imm :: "u32 \<Rightarrow> u32" where
  "B_imm w = signed_drop_bit 19 (BIT_SINGLE w 31) OR push_bit 4 (BIT_SINGLE w 7) OR
     signed_drop_bit 20 (BIT_RANGE w 30 25) OR signed_drop_bit 7 (BIT_RANGE w 11 8)"

definition U_imm :: "u32 \<Rightarrow> u32" where
  "U_imm w = BIT_RANGE w 31 12"

definition J_imm :: "u32 \<Rightarrow> u32" where
  "J_imm w = signed_drop_bit 11 (BIT_SINGLE w 31) OR BIT_RANGE w 19 12 OR
     signed_drop_bit 9 (BIT_SINGLE w 20) OR signed_drop_bit 20 (BIT_RANGE w 30 21)"

section \<open>Decoding\<close>

text \<open>
  \<open>switch x cases default\<close>: the first matching label, as in a C++ \<open>switch\<close> whose cases all return
  or break.  \<open>MATCH\<close> is the macro \<open>MATCH_AND_RETURN_INSTR\<close>.  The word is its own \<open>data()\<close>.
\<close>

definition switch :: "'a \<Rightarrow> ('a \<times> 'b) list \<Rightarrow> 'b \<Rightarrow> 'b" where
  "switch x cs d = (case map_of cs x of Some r \<Rightarrow> r | None \<Rightarrow> d)"

definition MATCH :: "Architecture \<Rightarrow> Mapping \<Rightarrow> u32 \<Rightarrow> Mapping" where
  "MATCH arch m w = (if w AND MASK arch m \<noteq> ENCODING arch m then UNDEF else m)"

definition decode_OP_BEQ :: "Architecture \<Rightarrow> u32 \<Rightarrow> Mapping" where
  "decode_OP_BEQ arch w =
     switch (funct3 w) [
       (F3_BEQ, MATCH arch (M_I BEQ) w),
       (F3_BNE, MATCH arch (M_I BNE) w),
       (F3_BLT, MATCH arch (M_I BLT) w),
       (F3_BGE, MATCH arch (M_I BGE) w),
       (F3_BLTU, MATCH arch (M_I BLTU) w),
       (F3_BGEU, MATCH arch (M_I BGEU) w)] UNDEF"

definition decode_OP_LB :: "Architecture \<Rightarrow> u32 \<Rightarrow> Mapping" where
  "decode_OP_LB arch w =
     switch (funct3 w) [
       (F3_LB, MATCH arch (M_I LB) w),
       (F3_LH, MATCH arch (M_I LH) w),
       (F3_LW, MATCH arch (M_I LW) w),
       (F3_LBU, MATCH arch (M_I LBU) w),
       (F3_LHU, MATCH arch (M_I LHU) w),
       (F3_LWU, MATCH arch (M_I64 LWU) w),
       (F3_LD, MATCH arch (M_I64 LD) w)] UNDEF"

definition decode_OP_SB :: "Architecture \<Rightarrow> u32 \<Rightarrow> Mapping" where
  "decode_OP_SB arch w =
     switch (funct3 w) [
       (F3_SB, MATCH arch (M_I SB) w),
       (F3_SH, MATCH arch (M_I SH) w),
       (F3_SW, MATCH arch (M_I SW) w),
       (F3_SD, MATCH arch (M_I64 SD) w)] UNDEF"

definition decode_OP_ADDI :: "Architecture \<Rightarrow> u32 \<Rightarrow> Mapping" where
  "decode_OP_ADDI arch w =
     switch (funct3 w) [
       (F3_ADDI, MATCH arch (M_I ADDI) w),
       (F3_SLTI, MATCH arch (M_I SLTI) w),
       (F3_SLTIU, MATCH arch (M_I SLTIU) w),
       (F3_XORI, MATCH arch (M_I XORI) w),
       (F3_ORI, MATCH arch (M_I ORI) w),
       (F3_ANDI, MATCH arch (M_I ANDI) w),
       (F3_SLLI, MATCH arch (M_I SLLI) w),
       (F3_SRLI, switch (funct6 w) [
         (F6_SRLI, MATCH arch (M_I SRLI) w),
         (F6_SRAI, MATCH arch (M_I SRAI) w)] UNDEF)] UNDEF"

definition decode_OP_ADDIW :: "Architecture \<Rightarrow> u32 \<Rightarrow> Mapping" where
  "decode_OP_ADDIW arch w =
     switch (funct3 w) [
       (F3_ADDIW, MATCH arch (M_I64 ADDIW) w),
       (F3_SLLIW, MATCH arch (M_I64 SLLIW) w),
       (F3_SRLIW, switch (funct7 w) [
         (F7_SRLIW, MATCH arch (M_I64 SRLIW) w),
         (F7_SRAIW, MATCH arch (M_I64 SRAIW) w)] UNDEF)] UNDEF"

definition decode_OP_ADD :: "Architecture \<Rightarrow> u32 \<Rightarrow> Mapping" where
  "decode_OP_ADD arch w =
     switch (funct7 w) [
       (F7_ADD, switch (funct3 w) [
         (F3_ADD, MATCH arch (M_I ADD) w),
         (F3_SLL, MATCH arch (M_I SLL) w),
         (F3_SLT, MATCH arch (M_I SLT) w),
         (F3_SLTU, MATCH arch (M_I SLTU) w),
         (F3_XOR, MATCH arch (M_I XOR_R) w),
         (F3_SRL, MATCH arch (M_I SRL) w),
         (F3_OR, MATCH arch (M_I OR_R) w),
         (F3_AND, MATCH arch (M_I AND_R) w)] UNDEF),
       (F7_SUB, switch (funct3 w) [
         (F3_SUB, MATCH arch (M_I SUB) w),
         (F3_SRA, MATCH arch (M_I SRA) w)] UNDEF),
       (F7_MUL, switch (funct3 w) [
         (F3_MUL, MATCH arch (M_M MUL) w),
         (F3_MULH, MATCH arch (M_M MULH) w),
         (F3_MULHSU, MATCH arch (M_M MULHSU) w),
         (F3_MULHU, MATCH arch (M_M MULHU) w),
         (F3_DIV, MATCH arch (M_M DIV) w),
         (F3_DIVU, MATCH arch (M_M DIVU) w),
         (F3_REM, MATCH arch (M_M REM) w),
         (F3_REMU, MATCH arch (M_M REMU) w)] UNDEF)] UNDEF"

definition decode_OP_ADDW :: "Architecture \<Rightarrow> u32 \<Rightarrow> Mapping" where
  "decode_OP_ADDW arch w =
     switch (funct7 w) [
       (F7_ADDW, switch (funct3 w) [
         (F3_ADDW, MATCH arch (M_I64 ADDW) w),
         (F3_SLLW, MATCH arch (M_I64 SLLW) w),
         (F3_SRLW, MATCH arch (M_I64 SRLW) w)] UNDEF),
       (F7_SUBW, switch (funct3 w) [
         (F3_SUBW, MATCH arch (M_I64 SUBW) w),
         (F3_SRAW, MATCH arch (M_I64 SRAW) w)] UNDEF),
       (F7_MULW, switch (funct3 w) [
         (F3_MULW, MATCH arch (M_M64 MULW) w),
         (F3_DIVW, MATCH arch (M_M64 DIVW) w),
         (F3_DIVUW, MATCH arch (M_M64 DIVUW) w),
         (F3_REMW, MATCH arch (M_M64 REMW) w),
         (F3_REMUW, MATCH arch (M_M64 REMUW) w)] UNDEF)] UNDEF"

definition decode_OP_FENCE :: "Architecture \<Rightarrow> u32 \<Rightarrow> Mapping" where
  "decode_OP_FENCE arch w =
     switch (funct3 w) [
       (F3_FENCE, MATCH arch (M_I FENCE) w),
       (F3_FENCE_I, MATCH arch (M_Zifencei FENCE_I) w)] UNDEF"

definition decode_OP_ECALL :: "Architecture \<Rightarrow> u32 \<Rightarrow> Mapping" where
  "decode_OP_ECALL arch w =
     switch (funct3 w) [
       (F3_SYS, switch (funct12 w) [
         (F12_ECALL, MATCH arch (M_I ECALL) w),
         (F12_EBREAK, MATCH arch (M_I EBREAK) w),
         (F12_URET, MATCH arch (M_Priv URET) w),
         (F12_SRET, MATCH arch (M_Priv SRET) w),
         (F12_MRET, MATCH arch (M_Priv MRET) w),
         (F12_WFI, MATCH arch (M_Priv WFI) w)] (MATCH arch (M_Priv SFENCE_VMA) w)),
       (F3_CSRRW, MATCH arch (M_Zicsr CSRRW) w),
       (F3_CSRRS, MATCH arch (M_Zicsr CSRRS) w),
       (F3_CSRRC, MATCH arch (M_Zicsr CSRRC) w),
       (F3_CSRRWI, MATCH arch (M_Zicsr CSRRWI) w),
       (F3_CSRRSI, MATCH arch (M_Zicsr CSRRSI) w),
       (F3_CSRRCI, MATCH arch (M_Zicsr CSRRCI) w)] UNDEF"

definition decode_OP_AMO :: "Architecture \<Rightarrow> u32 \<Rightarrow> Mapping" where
  "decode_OP_AMO arch w =
     switch (funct5 w) [
       (F5_LR_W, if funct3 w = F3_AMO_D then MATCH arch (M_A64 LR_D) w else MATCH arch (M_A LR_W) w),
       (F5_SC_W, if funct3 w = F3_AMO_D then MATCH arch (M_A64 SC_D) w else MATCH arch (M_A SC_W) w),
       (F5_AMOSWAP_W, if funct3 w = F3_AMO_D then MATCH arch (M_A64 AMOSWAP_D) w else MATCH arch (M_A AMOSWAP_W) w),
       (F5_AMOADD_W, if funct3 w = F3_AMO_D then MATCH arch (M_A64 AMOADD_D) w else MATCH arch (M_A AMOADD_W) w),
       (F5_AMOXOR_W, if funct3 w = F3_AMO_D then MATCH arch (M_A64 AMOXOR_D) w else MATCH arch (M_A AMOXOR_W) w),
       (F5_AMOAND_W, if funct3 w = F3_AMO_D then MATCH arch (M_A64 AMOAND_D) w else MATCH arch (M_A AMOAND_W) w),
       (F5_AMOOR_W, if funct3 w = F3_AMO_D then MATCH arch (M_A64 AMOOR_D) w else MATCH arch (M_A AMOOR_W) w),
       (F5_AMOMIN_W, if funct3 w = F3_AMO_D then MATCH arch (M_A64 AMOMIN_D) w else MATCH arch (M_A AMOMIN_W) w),
       (F5_AMOMAX_W, if funct3 w = F3_AMO_D then MATCH arch (M_A64 AMOMAX_D) w else MATCH arch (M_A AMOMAX_W) w),
       (F5_AMOMINU_W, if funct3 w = F3_AMO_D then MATCH arch (M_A64 AMOMINU_D) w else MATCH arch (M_A AMOMINU_W) w),
       (F5_AMOMAXU_W, if funct3 w = F3_AMO_D then MATCH arch (M_A64 AMOMAXU_D) w else MATCH arch (M_A AMOMAXU_W) w)] UNDEF"

definition decode_OP_FMADD_S :: "Architecture \<Rightarrow> u32 \<Rightarrow> Mapping" where
  "decode_OP_FMADD_S arch w =
     switch (funct2 w) [
       (F2_FMADD_S, MATCH arch (M_F FMADD_S) w),
       (F2_FMADD_D, MATCH arch (M_D FMADD_D) w)] UNDEF"

definition decode_OP_FADD_S :: "Architecture \<Rightarrow> u32 \<Rightarrow> Mapping" where
  "decode_OP_FADD_S arch w =
     switch (funct7 w) [
       (F7_FADD_S, MATCH arch (M_F FADD_S) w),
       (F7_FADD_D, MATCH arch (M_D FADD_D) w),
       (F7_FSUB_S, MATCH arch (M_F FSUB_S) w),
       (F7_FSUB_D, MATCH arch (M_D FSUB_D) w),
       (F7_FCVT_D_S, MATCH arch (M_D FCVT_D_S) w),
       (F7_FMUL_S, MATCH arch (M_F FMUL_S) w),
       (F7_FMUL_D, MATCH arch (M_D FMUL_D) w),
       (F7_FDIV_S, MATCH arch (M_F FDIV_S) w),
       (F7_FDIV_D, MATCH arch (M_D FDIV_D) w),
       (F7_FLE_S, switch (funct3 w) [
         (F3_FLE_S, MATCH arch (M_F FLE_S) w),
         (F3_FLT_S, MATCH arch (M_F FLT_S) w),
         (F3_FEQ_S, MATCH arch (M_F FEQ_S) w)] UNDEF),
       (F7_FSGNJ_D, switch (funct3 w) [
         (F3_FSGNJ_D, MATCH arch (M_D FSGNJ_D) w),
         (F3_FSGNJN_D, MATCH arch (M_D FSGNJN_D) w),
         (F3_FSGNJX_D, MATCH arch (M_D FSGNJX_D) w)] UNDEF),
       (F7_FMIN_S, switch (funct3 w) [
         (F3_FMIN_S, MATCH arch (M_F FMIN_S) w),
         (F3_FMAX_S, MATCH arch (M_F FMAX_S) w)] UNDEF),
       (F7_FMIN_D, switch (funct3 w) [
         (F3_FMIN_D, MATCH arch (M_D FMIN_D) w),
         (F3_FMAX_D, MATCH arch (M_D FMAX_D) w)] UNDEF),
       (F7_FCVT_S_D, MATCH arch (M_D FCVT_S_D) w),
       (F7_FSGNJ_S, switch (funct3 w) [
         (F3_FSGNJ_S, MATCH arch (M_F FSGNJ_S) w),
         (F3_FSGNJN_S, MATCH arch (M_F FSGNJN_S) w),
         (F3_FSGNJX_S, MATCH arch (M_F FSGNJX_S) w)] UNDEF),
       (F7_FLE_D, switch (funct3 w) [
         (F3_FLE_D, MATCH arch (M_D FLE_D) w),
         (F3_FLT_D, MATCH arch (M_D FLT_D) w),
         (F3_FEQ_D, MATCH arch (M_D FEQ_D) w)] UNDEF),
       (F7_FCVT_S_W, switch (rs2 w) [
         (RS2_FCVT_S_W, MATCH arch (M_F FCVT_S_W) w),
         (RS2_FCVT_S_WU, MATCH arch (M_F FCVT_S_WU) w),
         (RS2_FCVT_S_L, MATCH arch (M_F64 FCVT_S_L) w),
         (RS2_FCVT_S_LU, MATCH arch (M_F64 FCVT_S_LU) w)] UNDEF),
       (F7_FCVT_D_W, switch (rs2 w) [
         (RS2_FCVT_D_W, MATCH arch (M_D FCVT_D_W) w),
         (RS2_FCVT_D_WU, MATCH arch (M_D FCVT_D_WU) w),
         (RS2_FCVT_D_L, MATCH arch (M_D64 FCVT_D_L) w),
         (RS2_FCVT_D_LU, MATCH arch (M_D64 FCVT_D_LU) w)] UNDEF),
       (F7_FCVT_W_D, switch (rs2 w) [
         (RS2_FCVT_W_D, MATCH arch (M_D FCVT_W_D) w),
         (RS2_FCVT_WU_D, MATCH arch (M_D FCVT_WU_D) w),
         (RS2_FCVT_L_D, MATCH arch (M_D64 FCVT_L_D) w),
         (RS2_FCVT_LU_D, MATCH arch (M_D64 FCVT_LU_D) w)] UNDEF),
       (F7_FSQRT_S, MATCH arch (M_F FSQRT_S) w),
       (F7_FSQRT_D, MATCH arch (M_D FSQRT_D) w),
       (F7_FCVT_W_S, switch (rs2 w) [
         (RS2_FCVT_W_S, MATCH arch (M_F FCVT_W_S) w),
         (RS2_FCVT_WU_S, MATCH arch (M_F FCVT_WU_S) w),
         (RS2_FCVT_L_S, MATCH arch (M_F64 FCVT_L_S) w),
         (RS2_FCVT_LU_S, MATCH arch (M_F64 FCVT_LU_S) w)] UNDEF),
       (F7_FMV_X_W, switch (funct3 w) [
         (F3_FMV_X_W, MATCH arch (M_F FMV_X_W) w),
         (F3_FCLASS_S, MATCH arch (M_F FCLASS_S) w)] UNDEF),
       (F7_FMV_X_D, switch (funct3 w) [
         (F3_FMV_X_D, MATCH arch (M_D64 FMV_X_D) w),
         (F3_FCLASS_D, MATCH arch (M_D FCLASS_D) w)] UNDEF),
       (F7_FMV_W_X, MATCH arch (M_F FMV_W_X) w),
       (F7_FMV_D_X, MATCH arch (M_D64 FMV_D_X) w)] UNDEF"

definition decode_OP_FLW :: "Architecture \<Rightarrow> u32 \<Rightarrow> Mapping" where
  "decode_OP_FLW arch w =
     switch (funct3 w) [
       (F3_FLW, MATCH arch (M_F FLW) w),
       (F3_FLD, MATCH arch (M_D FLD) w)] UNDEF"

definition decode_OP_FSW :: "Architecture \<Rightarrow> u32 \<Rightarrow> Mapping" where
  "decode_OP_FSW arch w =
     switch (funct3 w) [
       (F3_FSW, MATCH arch (M_F FSW) w),
       (F3_FSD, MATCH arch (M_D FSD) w)] UNDEF"

definition decode_OP_FMSUB_S :: "Architecture \<Rightarrow> u32 \<Rightarrow> Mapping" where
  "decode_OP_FMSUB_S arch w =
     switch (funct2 w) [
       (F2_FMSUB_S, MATCH arch (M_F FMSUB_S) w),
       (F2_FMSUB_D, MATCH arch (M_D FMSUB_D) w)] UNDEF"

definition decode_OP_FNMSUB_S :: "Architecture \<Rightarrow> u32 \<Rightarrow> Mapping" where
  "decode_OP_FNMSUB_S arch w =
     switch (funct2 w) [
       (F2_FNMSUB_S, MATCH arch (M_F FNMSUB_S) w),
       (F2_FNMSUB_D, MATCH arch (M_D FNMSUB_D) w)] UNDEF"

definition decode_OP_FNMADD_S :: "Architecture \<Rightarrow> u32 \<Rightarrow> Mapping" where
  "decode_OP_FNMADD_S arch w =
     switch (funct2 w) [
       (F2_FNMADD_S, MATCH arch (M_F FNMADD_S) w),
       (F2_FNMADD_D, MATCH arch (M_D FNMADD_D) w)] UNDEF"

definition decode_normal :: "Architecture \<Rightarrow> u32 \<Rightarrow> Mapping" where
  "decode_normal arch w =
     switch (opcode w) [
       (OP_LUI, MATCH arch (M_I LUI) w),
       (OP_AUIPC, MATCH arch (M_I AUIPC) w),
       (OP_JAL, MATCH arch (M_I JAL) w),
       (OP_JALR, MATCH arch (M_I JALR) w),
       (OP_BEQ, decode_OP_BEQ arch w),
       (OP_LB, decode_OP_LB arch w),
       (OP_SB, decode_OP_SB arch w),
       (OP_ADDI, decode_OP_ADDI arch w),
       (OP_ADDIW, decode_OP_ADDIW arch w),
       (OP_ADD, decode_OP_ADD arch w),
       (OP_ADDW, decode_OP_ADDW arch w),
       (OP_FENCE, decode_OP_FENCE arch w),
       (OP_ECALL, decode_OP_ECALL arch w),
       (OP_AMO, decode_OP_AMO arch w),
       (OP_FMADD_S, decode_OP_FMADD_S arch w),
       (OP_FADD_S, decode_OP_FADD_S arch w),
       (OP_FLW, decode_OP_FLW arch w),
       (OP_FSW, decode_OP_FSW arch w),
       (OP_FMSUB_S, decode_OP_FMSUB_S arch w),
       (OP_FNMSUB_S, decode_OP_FNMSUB_S arch w),
       (OP_FNMADD_S, decode_OP_FNMADD_S arch w)] UNDEF"

section \<open>Fields inside a mask\<close>

lemma switch_simps [simp]:
  "switch x [] d = d"
  "switch x ((k, v) # cs) d = (if x = k then v else switch x cs d)"
  by (simp_all add: switch_def)

lemma field_cong: "w AND M = E \<Longrightarrow> f AND M = f \<Longrightarrow> w AND f = E AND f" for w :: u32
  by (metis and.assoc and.commute)

lemma BIT_RANGE_cong:
  assumes "w AND M = E" and "BIT_RANGE M u l = BIT_RANGE (- 1) u l"
  shows "BIT_RANGE w u l = BIT_RANGE E u l"
  using field_cong [OF assms(1), of "push_bit l (push_bit (u - l + 1) 1 - 1)"] assms(2)
  by (simp add: BIT_RANGE_def and.commute)

lemmas field_defs = opcode_def rd_def rs1_def rs2_def rs3_def funct2_def funct3_def funct12_def
  funct7_def funct6_def funct5_def

text \<open>A field inside the mask is determined by the encoding.\<close>

lemma opcode_match: "w AND M = E \<Longrightarrow> BIT_RANGE M 6 0 = 0x7F \<Longrightarrow> opcode w = opcode E"
  using BIT_RANGE_cong [of w M E 6 0] by (simp add: opcode_def BIT_RANGE_def)
lemma funct2_match: "w AND M = E \<Longrightarrow> BIT_RANGE M 26 25 = 0x6000000 \<Longrightarrow> funct2 w = funct2 E"
  using BIT_RANGE_cong [of w M E 26 25] by (simp add: funct2_def BIT_RANGE_def)
lemma funct3_match: "w AND M = E \<Longrightarrow> BIT_RANGE M 14 12 = 0x7000 \<Longrightarrow> funct3 w = funct3 E"
  using BIT_RANGE_cong [of w M E 14 12] by (simp add: funct3_def BIT_RANGE_def)
lemma rs2_match: "w AND M = E \<Longrightarrow> BIT_RANGE M 24 20 = 0x1F00000 \<Longrightarrow> rs2 w = rs2 E"
  using BIT_RANGE_cong [of w M E 24 20] by (simp add: rs2_def BIT_RANGE_def)
lemma funct12_match: "w AND M = E \<Longrightarrow> BIT_RANGE M 31 20 = 0xFFF00000 \<Longrightarrow> funct12 w = funct12 E"
  using BIT_RANGE_cong [of w M E 31 20] by (simp add: funct12_def BIT_RANGE_def)
lemma funct7_match: "w AND M = E \<Longrightarrow> BIT_RANGE M 31 25 = 0xFE000000 \<Longrightarrow> funct7 w = funct7 E"
  using BIT_RANGE_cong [of w M E 31 25] by (simp add: funct7_def BIT_RANGE_def)
lemma funct6_match: "w AND M = E \<Longrightarrow> BIT_RANGE M 31 26 = 0xFC000000 \<Longrightarrow> funct6 w = funct6 E"
  using BIT_RANGE_cong [of w M E 31 26] by (simp add: funct6_def BIT_RANGE_def)
lemma funct5_match: "w AND M = E \<Longrightarrow> BIT_RANGE M 31 27 = 0xF8000000 \<Longrightarrow> funct5 w = funct5 E"
  using BIT_RANGE_cong [of w M E 31 27] by (simp add: funct5_def BIT_RANGE_def)

lemmas field_match = opcode_match funct2_match funct3_match rs2_match funct12_match funct7_match
  funct6_match funct5_match

definition matches :: "Architecture \<Rightarrow> Mapping \<Rightarrow> u32 \<Rightarrow> bool" where
  "matches arch m w \<longleftrightarrow> w AND MASK arch m = ENCODING arch m"

lemma MATCH_matches: "matches arch m w \<Longrightarrow> MATCH arch m w = m"
  by (simp add: MATCH_def matches_def)

lemmas matches_fields = field_match [OF matches_def [THEN iffD1]]

lemma decode_normal_op:
  "opcode w = OP_LUI \<Longrightarrow> decode_normal arch w = MATCH arch (M_I LUI) w"
  "opcode w = OP_AUIPC \<Longrightarrow> decode_normal arch w = MATCH arch (M_I AUIPC) w"
  "opcode w = OP_JAL \<Longrightarrow> decode_normal arch w = MATCH arch (M_I JAL) w"
  "opcode w = OP_JALR \<Longrightarrow> decode_normal arch w = MATCH arch (M_I JALR) w"
  "opcode w = OP_BEQ \<Longrightarrow> decode_normal arch w = decode_OP_BEQ arch w"
  "opcode w = OP_LB \<Longrightarrow> decode_normal arch w = decode_OP_LB arch w"
  "opcode w = OP_SB \<Longrightarrow> decode_normal arch w = decode_OP_SB arch w"
  "opcode w = OP_ADDI \<Longrightarrow> decode_normal arch w = decode_OP_ADDI arch w"
  "opcode w = OP_ADDIW \<Longrightarrow> decode_normal arch w = decode_OP_ADDIW arch w"
  "opcode w = OP_ADD \<Longrightarrow> decode_normal arch w = decode_OP_ADD arch w"
  "opcode w = OP_ADDW \<Longrightarrow> decode_normal arch w = decode_OP_ADDW arch w"
  "opcode w = OP_FENCE \<Longrightarrow> decode_normal arch w = decode_OP_FENCE arch w"
  "opcode w = OP_ECALL \<Longrightarrow> decode_normal arch w = decode_OP_ECALL arch w"
  "opcode w = OP_AMO \<Longrightarrow> decode_normal arch w = decode_OP_AMO arch w"
  "opcode w = OP_FMADD_S \<Longrightarrow> decode_normal arch w = decode_OP_FMADD_S arch w"
  "opcode w = OP_FADD_S \<Longrightarrow> decode_normal arch w = decode_OP_FADD_S arch w"
  "opcode w = OP_FLW \<Longrightarrow> decode_normal arch w = decode_OP_FLW arch w"
  "opcode w = OP_FSW \<Longrightarrow> decode_normal arch w = decode_OP_FSW arch w"
  "opcode w = OP_FMSUB_S \<Longrightarrow> decode_normal arch w = decode_OP_FMSUB_S arch w"
  "opcode w = OP_FNMSUB_S \<Longrightarrow> decode_normal arch w = decode_OP_FNMSUB_S arch w"
  "opcode w = OP_FNMADD_S \<Longrightarrow> decode_normal arch w = decode_OP_FNMADD_S arch w"
  by (simp_all add: decode_normal_def)

lemmas decode_defs = decode_OP_BEQ_def decode_OP_LB_def decode_OP_SB_def decode_OP_ADDI_def
  decode_OP_ADDIW_def decode_OP_ADD_def decode_OP_ADDW_def decode_OP_FENCE_def decode_OP_ECALL_def
  decode_OP_AMO_def decode_OP_FMADD_S_def decode_OP_FADD_S_def decode_OP_FLW_def decode_OP_FSW_def
  decode_OP_FMSUB_S_def decode_OP_FNMSUB_S_def decode_OP_FNMADD_S_def

lemmas decode_eval = MASK_def ENCODING_def field_defs BIT_RANGE_def decode_normal_op decode_defs

lemma decode_I:
  assumes "matches arch (M_I i) w"
  shows "decode_normal arch w = M_I i"
  using matches_fields [OF assms] MATCH_matches [OF assms]
  by (cases i) (simp_all add: decode_eval)

lemma decode_Zifencei:
  assumes "matches arch (M_Zifencei i) w"
  shows "decode_normal arch w = M_Zifencei i"
  using matches_fields [OF assms] MATCH_matches [OF assms]
  by (cases i) (simp_all add: decode_eval)

lemma decode_Zicsr:
  assumes "matches arch (M_Zicsr i) w"
  shows "decode_normal arch w = M_Zicsr i"
  using matches_fields [OF assms] MATCH_matches [OF assms]
  by (cases i) (simp_all add: decode_eval)

lemma decode_M:
  assumes "matches arch (M_M i) w"
  shows "decode_normal arch w = M_M i"
  using matches_fields [OF assms] MATCH_matches [OF assms]
  by (cases i) (simp_all add: decode_eval)

lemma decode_A:
  assumes "matches arch (M_A i) w"
  shows "decode_normal arch w = M_A i"
  using matches_fields [OF assms] MATCH_matches [OF assms]
  by (cases i) (simp_all add: decode_eval)

lemma decode_I64:
  assumes "matches arch (M_I64 i) w"
  shows "decode_normal arch w = M_I64 i"
  using matches_fields [OF assms] MATCH_matches [OF assms]
  by (cases i) (simp_all add: decode_eval)

lemma decode_M64:
  assumes "matches arch (M_M64 i) w"
  shows "decode_normal arch w = M_M64 i"
  using matches_fields [OF assms] MATCH_matches [OF assms]
  by (cases i) (simp_all add: decode_eval)

lemma decode_A64:
  assumes "matches arch (M_A64 i) w"
  shows "decode_normal arch w = M_A64 i"
  using matches_fields [OF assms] MATCH_matches [OF assms]
  by (cases i) (simp_all add: decode_eval)

lemma decode_F:
  assumes "matches arch (M_F i) w"
  shows "decode_normal arch w = M_F i"
  using matches_fields [OF assms] MATCH_matches [OF assms]
  by (cases i) (simp_all add: decode_eval)

lemma decode_F64:
  assumes "matches arch (M_F64 i) w"
  shows "decode_normal arch w = M_F64 i"
  using matches_fields [OF assms] MATCH_matches [OF assms]
  by (cases i) (simp_all add: decode_eval)

lemma decode_D:
  assumes "matches arch (M_D i) w"
  shows "decode_normal arch w = M_D i"
  using matches_fields [OF assms] MATCH_matches [OF assms]
  by (cases i) (simp_all add: decode_eval)

lemma decode_D64:
  assumes "matches arch (M_D64 i) w"
  shows "decode_normal arch w = M_D64 i"
  using matches_fields [OF assms] MATCH_matches [OF assms]
  by (cases i) (simp_all add: decode_eval)

lemma funct7_funct12: "funct7 w = drop_bit 5 (funct12 w)"
  by (simp add: funct7_def funct12_def BIT_RANGE_def drop_bit_and drop_bit_drop_bit)

lemma decode_Priv:
  assumes "matches arch (M_Priv i) w"
  shows "decode_normal arch w = M_Priv i"
proof (cases "i = SFENCE_VMA")
  case True
  have "opcode w = OP_ECALL" and "funct3 w = 0" and f7: "funct7 w = 9"
    using matches_fields [OF assms] by (simp_all add: True MASK_def ENCODING_def field_defs BIT_RANGE_def)
  moreover have "funct12 w \<noteq> F12_WFI" "funct12 w \<noteq> F12_MRET" "funct12 w \<noteq> F12_SRET" "funct12 w \<noteq> F12_URET"
      "funct12 w \<noteq> F12_EBREAK" "funct12 w \<noteq> F12_ECALL"
    using f7 unfolding funct7_funct12 by auto
  ultimately show ?thesis
    using MATCH_matches [OF assms] by (simp add: True decode_normal_op decode_OP_ECALL_def)
next
  case False
  then show ?thesis
    using matches_fields [OF assms] MATCH_matches [OF assms]
    by (cases i) (simp_all add: decode_eval)
qed

text \<open>\<open>dec_ok arch w m\<close>: \<open>m\<close> is an admissible answer for the word \<open>w\<close>.\<close>

definition dec_ok :: "Architecture \<Rightarrow> u32 \<Rightarrow> Mapping \<Rightarrow> bool" where
  "dec_ok arch w m \<longleftrightarrow> m = UNDEF \<or> matches arch m w"

lemma dec_ok_simps:
  "dec_ok arch w UNDEF"
  "dec_ok arch w (MATCH arch m w)"
  "dec_ok arch w (if c then a else b) = ((c \<longrightarrow> dec_ok arch w a) \<and> (\<not> c \<longrightarrow> dec_ok arch w b))"
  by (auto simp: dec_ok_def MATCH_def matches_def)

lemma decode_ops_sound:
  "dec_ok arch w (decode_OP_BEQ arch w)" "dec_ok arch w (decode_OP_LB arch w)"
  "dec_ok arch w (decode_OP_SB arch w)" "dec_ok arch w (decode_OP_ADDI arch w)"
  "dec_ok arch w (decode_OP_ADDIW arch w)" "dec_ok arch w (decode_OP_ADD arch w)"
  "dec_ok arch w (decode_OP_ADDW arch w)" "dec_ok arch w (decode_OP_FENCE arch w)"
  "dec_ok arch w (decode_OP_ECALL arch w)" "dec_ok arch w (decode_OP_AMO arch w)"
  "dec_ok arch w (decode_OP_FMADD_S arch w)" "dec_ok arch w (decode_OP_FADD_S arch w)"
  "dec_ok arch w (decode_OP_FLW arch w)" "dec_ok arch w (decode_OP_FSW arch w)"
  "dec_ok arch w (decode_OP_FMSUB_S arch w)" "dec_ok arch w (decode_OP_FNMSUB_S arch w)"
  "dec_ok arch w (decode_OP_FNMADD_S arch w)"
  unfolding decode_defs by (simp_all only: switch_simps dec_ok_simps simp_thms)

lemma decode_normal_sound: "dec_ok arch w (decode_normal arch w)"
  unfolding decode_normal_def by (simp only: switch_simps dec_ok_simps decode_ops_sound simp_thms)

lemma matches_decode: "matches arch m w \<Longrightarrow> m \<noteq> UNDEF \<Longrightarrow> decode_normal arch w = m"
  by (cases m) (auto intro: decode_I decode_Zifencei decode_Zicsr decode_M decode_A
        decode_I64 decode_M64 decode_A64 decode_F decode_F64 decode_D decode_D64 decode_Priv)

section \<open>Properties\<close>

text \<open>
  C16: the decoder is exact for all 161 instructions and every architecture: it answers with an
  instruction exactly when the word carries that instruction's encoding under its mask.  So no
  nesting of the switches ever rejects a word that matches an encoding, no word is taken for an
  instruction it does not match, and the encodings are unambiguous.
\<close>

theorem decode_normal_iff:
  assumes "m \<noteq> UNDEF"
  shows "decode_normal arch w = m \<longleftrightarrow> w AND MASK arch m = ENCODING arch m"
proof
  assume "decode_normal arch w = m"
  with decode_normal_sound [of arch w] assms show "w AND MASK arch m = ENCODING arch m"
    by (auto simp: dec_ok_def matches_def)
next
  assume "w AND MASK arch m = ENCODING arch m"
  then have "matches arch m w" by (simp add: matches_def)
  then show "decode_normal arch w = m" using assms by (rule matches_decode)
qed

theorem decode_normal_iff_witness:
  "M_I BNE \<noteq> UNDEF \<and> decode_normal RV32 0xFE0796E3 = M_I BNE"
proof -
  have "(0xFE0796E3 :: u32) AND MASK RV32 (M_I BNE) = ENCODING RV32 (M_I BNE)" by code_simp
  then show ?thesis using decode_normal_iff [of "M_I BNE" RV32 "0xFE0796E3"] by simp
qed

end
