(* ===== verification/RV_Compressed.thy ===== *)
theory RV_Compressed
  imports RV_Instr
begin

text \<open>
  Compressed instructions (\<open>core/common/instr.cpp\<close>): their fields and immediates, the
  \<open>InstructionFactory\<close> that assembles 32-bit words, \<open>decode_compressed\<close>, \<open>expand_compressed\<close> and
  \<open>decode_and_expand_compressed\<close>.  The expansion returns the new word and the mapping.
\<close>

section \<open>Fields of a compressed instruction\<close>

datatype Compressed =
    C_Illegal | C_Reserved | C_ADDI4SPN | C_FLD | C_LQ | C_LW | C_FLW | C_LD | C_FSD | C_SQ
    | C_SW | C_FSW | C_SD | C_NOP | C_ADDI | C_JAL | C_ADDIW | C_LI | C_ADDI16SP | C_LUI
    | C_SRLI | C_SRAI | C_ANDI | C_SUB | C_XOR | C_OR | C_AND | C_SUBW | C_ADDW | C_J | C_BEQZ
    | C_BNEZ | C_SLLI | C_FLDSP | C_LQSP | C_LWSP | C_FLWSP | C_LDSP | C_JR | C_MV | C_EBREAK
    | C_JALR | C_ADD | C_FSDSP | C_SQSP | C_SWSP | C_FSWSP | C_SDSP

definition quadrant :: "u32 \<Rightarrow> u32" where
  "quadrant w = w AND 3"

definition is_compressed :: "u32 \<Rightarrow> bool" where
  "is_compressed w \<longleftrightarrow> quadrant w < 3"

definition c_format :: "u32 \<Rightarrow> u32" where
  "c_format w = w AND 0xFFFF"

definition c_opcode :: "u32 \<Rightarrow> u32" where
  "c_opcode w = BIT_SLICE w 15 13"

definition c_b12 :: "u32 \<Rightarrow> u32" where
  "c_b12 w = BIT_SINGLE_P1 w 12"

definition c_rd :: "u32 \<Rightarrow> u32" where
  "c_rd w = rd w"

definition c_rd_small :: "u32 \<Rightarrow> u32" where
  "c_rd_small w = BIT_SLICE w 9 7 OR 8"

definition c_rs2_small :: "u32 \<Rightarrow> u32" where
  "c_rs2_small w = BIT_SLICE w 4 2 OR 8"

definition c_rs2 :: "u32 \<Rightarrow> u32" where
  "c_rs2 w = BIT_SLICE w 6 2"

definition c_imm :: "u32 \<Rightarrow> u32" where
  "c_imm w = BIT_SLICE w 6 2 OR EXTRACT_SIGN_BIT w 12 5"

definition c_uimm :: "u32 \<Rightarrow> u32" where
  "c_uimm w = BIT_SLICE w 6 2 OR push_bit 5 (BIT_SINGLE_P1 w 12)"

definition c_f2_high :: "u32 \<Rightarrow> u32" where
  "c_f2_high w = BIT_SLICE w 11 10"

definition c_f2_low :: "u32 \<Rightarrow> u32" where
  "c_f2_low w = BIT_SLICE w 6 5"

section \<open>Immediates\<close>

definition C_ADDI4SPN_NZUIMM :: "u32 \<Rightarrow> u32" where
  "C_ADDI4SPN_NZUIMM n = push_bit 4 (BIT_SLICE n 12 11) OR push_bit 6 (BIT_SLICE n 10 7) OR
     push_bit 2 (BIT_SINGLE_P1 n 6) OR push_bit 3 (BIT_SINGLE_P1 n 5)"

definition C_LW_UIMM :: "u32 \<Rightarrow> u32" where
  "C_LW_UIMM n = push_bit 3 (BIT_SLICE n 12 10) OR push_bit 2 (BIT_SINGLE_P1 n 6) OR
     push_bit 6 (BIT_SINGLE_P1 n 5)"

definition C_LD_UIMM :: "u32 \<Rightarrow> u32" where
  "C_LD_UIMM n = push_bit 3 (BIT_SLICE n 12 10) OR push_bit 6 (BIT_SLICE n 6 5)"

definition C_SW_UIMM :: "u32 \<Rightarrow> u32" where
  "C_SW_UIMM n = C_LW_UIMM n"

definition C_SD_UIMM :: "u32 \<Rightarrow> u32" where
  "C_SD_UIMM n = C_LD_UIMM n"

definition C_JAL_IMM :: "u32 \<Rightarrow> u32" where
  "C_JAL_IMM n = EXTRACT_SIGN_BIT n 12 11 OR BIT_SINGLE_PN n 11 4 OR push_bit 8 (BIT_SLICE n 10 9) OR
     BIT_SINGLE_PN n 8 10 OR BIT_SINGLE_PN n 7 6 OR BIT_SINGLE_PN n 6 7 OR push_bit 1 (BIT_SLICE n 5 3) OR
     BIT_SINGLE_PN n 2 5"

definition C_ADDI16SP_NZIMM :: "u32 \<Rightarrow> u32" where
  "C_ADDI16SP_NZIMM n = EXTRACT_SIGN_BIT n 12 9 OR BIT_SINGLE_PN n 6 4 OR BIT_SINGLE_PN n 5 6 OR
     push_bit 7 (BIT_SLICE n 4 3) OR BIT_SINGLE_PN n 2 5"

definition C_LUI_NZIMM :: "u32 \<Rightarrow> u32" where
  "C_LUI_NZIMM n = EXTRACT_SIGN_BIT n 12 17 OR push_bit 12 (BIT_SLICE n 6 2)"

definition C_J_IMM :: "u32 \<Rightarrow> u32" where
  "C_J_IMM n = C_JAL_IMM n"

definition C_BRANCH_IMM :: "u32 \<Rightarrow> u32" where
  "C_BRANCH_IMM n = EXTRACT_SIGN_BIT n 12 8 OR push_bit 3 (BIT_SLICE n 11 10) OR
     push_bit 6 (BIT_SLICE n 6 5) OR push_bit 1 (BIT_SLICE n 4 3) OR BIT_SINGLE_PN n 2 5"

definition C_LWSP_UIMM :: "u32 \<Rightarrow> u32" where
  "C_LWSP_UIMM n = BIT_SINGLE_PN n 12 5 OR push_bit 2 (BIT_SLICE n 6 4) OR push_bit 6 (BIT_SLICE n 3 2)"

definition C_SWSP_UIMM :: "u32 \<Rightarrow> u32" where
  "C_SWSP_UIMM n = push_bit 2 (BIT_SLICE n 12 9) OR push_bit 6 (BIT_SLICE n 8 7)"

definition C_LDSP_UIMM :: "u32 \<Rightarrow> u32" where
  "C_LDSP_UIMM n = BIT_SINGLE_PN n 12 5 OR push_bit 3 (BIT_SLICE n 6 5) OR push_bit 6 (BIT_SLICE n 4 2)"

definition C_SDSP_UIMM :: "u32 \<Rightarrow> u32" where
  "C_SDSP_UIMM n = push_bit 3 (BIT_SLICE n 12 10) OR push_bit 6 (BIT_SLICE n 9 7)"

section \<open>The instruction factory\<close>

definition IF_ADD :: "u32 \<Rightarrow> u32 \<Rightarrow> u32 \<Rightarrow> u32" where
  "IF_ADD d a b = (push_bit 7 (d AND 31)) OR (push_bit 15 (a AND 31)) OR
     (push_bit 20 (b AND 31)) OR 51 OR (push_bit 12 0) OR (push_bit 25 0)"

definition IF_AND :: "u32 \<Rightarrow> u32 \<Rightarrow> u32 \<Rightarrow> u32" where
  "IF_AND d a b = (push_bit 7 (d AND 31)) OR (push_bit 15 (a AND 31)) OR
     (push_bit 20 (b AND 31)) OR 51 OR (push_bit 12 7) OR (push_bit 25 0)"

definition IF_OR :: "u32 \<Rightarrow> u32 \<Rightarrow> u32 \<Rightarrow> u32" where
  "IF_OR d a b = (push_bit 7 (d AND 31)) OR (push_bit 15 (a AND 31)) OR
     (push_bit 20 (b AND 31)) OR 51 OR (push_bit 12 6) OR (push_bit 25 0)"

definition IF_XOR :: "u32 \<Rightarrow> u32 \<Rightarrow> u32 \<Rightarrow> u32" where
  "IF_XOR d a b = (push_bit 7 (d AND 31)) OR (push_bit 15 (a AND 31)) OR
     (push_bit 20 (b AND 31)) OR 51 OR (push_bit 12 4) OR (push_bit 25 0)"

definition IF_SUB :: "u32 \<Rightarrow> u32 \<Rightarrow> u32 \<Rightarrow> u32" where
  "IF_SUB d a b = (push_bit 7 (d AND 31)) OR (push_bit 15 (a AND 31)) OR
     (push_bit 20 (b AND 31)) OR 51 OR (push_bit 12 0) OR (push_bit 25 32)"

definition IF_LW :: "u32 \<Rightarrow> u32 \<Rightarrow> u32 \<Rightarrow> u32" where
  "IF_LW d a imm = (push_bit 20 (imm AND 4095)) OR (push_bit 7 (d AND 31)) OR
     (push_bit 15 (a AND 31)) OR 3 OR (push_bit 12 2)"

definition IF_LD :: "u32 \<Rightarrow> u32 \<Rightarrow> u32 \<Rightarrow> u32" where
  "IF_LD d a imm = (push_bit 20 (imm AND 4095)) OR (push_bit 7 (d AND 31)) OR
     (push_bit 15 (a AND 31)) OR 3 OR (push_bit 12 3)"

definition IF_FLW :: "u32 \<Rightarrow> u32 \<Rightarrow> u32 \<Rightarrow> u32" where
  "IF_FLW d a imm = (push_bit 20 (imm AND 4095)) OR (push_bit 7 (d AND 31)) OR
     (push_bit 15 (a AND 31)) OR 7 OR (push_bit 12 2)"

definition IF_FLD :: "u32 \<Rightarrow> u32 \<Rightarrow> u32 \<Rightarrow> u32" where
  "IF_FLD d a imm = (push_bit 20 (imm AND 4095)) OR (push_bit 7 (d AND 31)) OR
     (push_bit 15 (a AND 31)) OR 7 OR (push_bit 12 3)"

definition IF_SW :: "u32 \<Rightarrow> u32 \<Rightarrow> u32 \<Rightarrow> u32" where
  "IF_SW a b imm = (push_bit 7 (imm AND 31)) OR (push_bit 20 (imm AND (push_bit 5 127))) OR
     (push_bit 15 (a AND 31)) OR (push_bit 20 (b AND 31)) OR 35 OR (push_bit 12 2)"

definition IF_SD :: "u32 \<Rightarrow> u32 \<Rightarrow> u32 \<Rightarrow> u32" where
  "IF_SD a b imm = (push_bit 7 (imm AND 31)) OR (push_bit 20 (imm AND (push_bit 5 127))) OR
     (push_bit 15 (a AND 31)) OR (push_bit 20 (b AND 31)) OR 35 OR (push_bit 12 3)"

definition IF_FSW :: "u32 \<Rightarrow> u32 \<Rightarrow> u32 \<Rightarrow> u32" where
  "IF_FSW a b imm = (push_bit 7 (imm AND 31)) OR (push_bit 20 (imm AND (push_bit 5 127))) OR
     (push_bit 15 (a AND 31)) OR (push_bit 20 (b AND 31)) OR 39 OR (push_bit 12 2)"

definition IF_FSD :: "u32 \<Rightarrow> u32 \<Rightarrow> u32 \<Rightarrow> u32" where
  "IF_FSD a b imm = (push_bit 7 (imm AND 31)) OR (push_bit 20 (imm AND (push_bit 5 127))) OR
     (push_bit 15 (a AND 31)) OR (push_bit 20 (b AND 31)) OR 39 OR (push_bit 12 3)"

definition IF_LUI :: "u32 \<Rightarrow> u32 \<Rightarrow> u32" where
  "IF_LUI d imm = (imm AND (push_bit 12 1048575)) OR (push_bit 7 (d AND 31)) OR 55"

definition IF_ADDI :: "u32 \<Rightarrow> u32 \<Rightarrow> u32 \<Rightarrow> u32" where
  "IF_ADDI d a imm = (push_bit 20 (imm AND 4095)) OR (push_bit 7 (d AND 31)) OR
     (push_bit 15 (a AND 31)) OR 19 OR (push_bit 12 0)"

definition IF_ANDI :: "u32 \<Rightarrow> u32 \<Rightarrow> u32 \<Rightarrow> u32" where
  "IF_ANDI d a imm = (push_bit 20 (imm AND 4095)) OR (push_bit 7 (d AND 31)) OR
     (push_bit 15 (a AND 31)) OR 19 OR (push_bit 12 7)"

definition IF_SRLI :: "u32 \<Rightarrow> u32 \<Rightarrow> u32 \<Rightarrow> u32" where
  "IF_SRLI d a sh = (push_bit 7 (d AND 31)) OR (push_bit 15 (a AND 31)) OR
     (push_bit 20 (sh AND 63)) OR 19 OR (push_bit 12 5) OR (push_bit 25 0)"

definition IF_SRAI :: "u32 \<Rightarrow> u32 \<Rightarrow> u32 \<Rightarrow> u32" where
  "IF_SRAI d a sh = (push_bit 7 (d AND 31)) OR (push_bit 15 (a AND 31)) OR
     (push_bit 20 (sh AND 63)) OR 19 OR (push_bit 12 5) OR (push_bit 25 32)"

definition IF_SLLI :: "u32 \<Rightarrow> u32 \<Rightarrow> u32 \<Rightarrow> u32" where
  "IF_SLLI d a sh = (push_bit 7 (d AND 31)) OR (push_bit 15 (a AND 31)) OR
     (push_bit 20 (sh AND 63)) OR 19 OR (push_bit 12 1) OR (push_bit 25 0)"

definition IF_JAL :: "u32 \<Rightarrow> u32 \<Rightarrow> u32" where
  "IF_JAL d imm = 111 OR (push_bit 7 (d AND 31)) OR ((imm AND (push_bit 12 255)) OR
     (push_bit 9 (imm AND (push_bit 11 1))) OR (push_bit 20 (imm AND 2046)) OR
     (push_bit 11 (imm AND (push_bit 20 1))))"

definition IF_JALR :: "u32 \<Rightarrow> u32 \<Rightarrow> u32 \<Rightarrow> u32" where
  "IF_JALR d a imm = (push_bit 20 (imm AND 4095)) OR (push_bit 7 (d AND 31)) OR
     (push_bit 15 (a AND 31)) OR 103 OR (push_bit 12 0)"

definition IF_BEQ :: "u32 \<Rightarrow> u32 \<Rightarrow> u32 \<Rightarrow> u32" where
  "IF_BEQ a b imm = (push_bit 7 (imm AND 30)) OR (signed_drop_bit 4 (imm AND (push_bit 11 1))) OR
     ((push_bit 20 (imm AND (push_bit 5 63))) OR (push_bit 19 (imm AND (push_bit 12 1)))) OR
     (push_bit 15 (a AND 31)) OR (push_bit 20 (b AND 31)) OR 99 OR (push_bit 12 0)"

definition IF_BNE :: "u32 \<Rightarrow> u32 \<Rightarrow> u32 \<Rightarrow> u32" where
  "IF_BNE a b imm = (push_bit 7 (imm AND 30)) OR (signed_drop_bit 4 (imm AND (push_bit 11 1))) OR
     ((push_bit 20 (imm AND (push_bit 5 63))) OR (push_bit 19 (imm AND (push_bit 12 1)))) OR
     (push_bit 15 (a AND 31)) OR (push_bit 20 (b AND 31)) OR 99 OR (push_bit 12 1)"

definition IF_EBREAK :: "u32" where
  "IF_EBREAK = 1048691"

definition IF_ADDIW :: "u32 \<Rightarrow> u32 \<Rightarrow> u32 \<Rightarrow> u32" where
  "IF_ADDIW d a imm = (push_bit 20 (imm AND 4095)) OR (push_bit 7 (d AND 31)) OR
     (push_bit 15 (a AND 31)) OR 27"

definition IF_ADDW :: "u32 \<Rightarrow> u32 \<Rightarrow> u32 \<Rightarrow> u32" where
  "IF_ADDW d a b = (push_bit 7 (d AND 31)) OR (push_bit 15 (a AND 31)) OR
     (push_bit 20 (b AND 31)) OR 59"

definition IF_SUBW :: "u32 \<Rightarrow> u32 \<Rightarrow> u32 \<Rightarrow> u32" where
  "IF_SUBW d a b = (push_bit 7 (d AND 31)) OR (push_bit 15 (a AND 31)) OR
     (push_bit 20 (b AND 31)) OR 59 OR 1073741824"

section \<open>Decoding and expansion\<close>

text \<open>\<open>None\<close> is the exception thrown for a word that is not compressed.\<close>

definition decode_quadrant0 :: "u32 \<Rightarrow> Architecture \<Rightarrow> Compressed" where
  "decode_quadrant0 w arch =
     switch (c_opcode w) [
       (0, if c_format w = 0 then C_Illegal else C_ADDI4SPN),
       (1, C_FLD),
       (2, C_LW),
       (3, if arch = RV32 then C_FLW else C_LD),
       (4, C_Reserved),
       (5, C_FSD),
       (6, C_SW),
       (7, if arch = RV32 then C_FSW else C_SD)] C_Illegal"

definition decode_quadrant1 :: "u32 \<Rightarrow> Architecture \<Rightarrow> Compressed" where
  "decode_quadrant1 w arch =
     switch (c_opcode w) [
       (0, if c_format w = 1 then C_NOP else C_ADDI),
       (1, if arch = RV32 then C_JAL else C_ADDIW),
       (2, C_LI),
       (3, if c_rd w = 2 then C_ADDI16SP else C_LUI),
       (4, switch (c_f2_high w) [
         (0, C_SRLI),
         (1, C_SRAI),
         (2, C_ANDI),
         (3, if c_b12 w \<noteq> 0
             then switch (c_f2_low w) [(0, C_SUBW), (1, C_ADDW)] C_Reserved
             else switch (c_f2_low w) [(0, C_SUB), (1, C_XOR), (2, C_OR), (3, C_AND)] C_Illegal)] C_Illegal),
       (5, C_J),
       (6, C_BEQZ),
       (7, C_BNEZ)] C_Illegal"

definition decode_quadrant2 :: "u32 \<Rightarrow> Architecture \<Rightarrow> Compressed" where
  "decode_quadrant2 w arch =
     switch (c_opcode w) [
       (0, C_SLLI),
       (1, C_FLDSP),
       (2, C_LWSP),
       (3, if arch = RV32 then C_FLWSP else C_LDSP),
       (4, if c_b12 w \<noteq> 0
           then (if c_rd w \<noteq> 0 then (if c_rs2 w \<noteq> 0 then C_ADD else C_JALR) else C_EBREAK)
           else (if c_rs2 w \<noteq> 0 then C_MV else C_JR)),
       (5, C_FSDSP),
       (6, C_SWSP),
       (7, if arch = RV32 then C_FSWSP else C_SDSP)] C_Illegal"

definition decode_compressed :: "u32 \<Rightarrow> Architecture \<Rightarrow> Compressed option" where
  "decode_compressed w arch =
     switch (quadrant w) [
       (0, Some (decode_quadrant0 w arch)),
       (1, Some (decode_quadrant1 w arch)),
       (2, Some (decode_quadrant2 w arch)),
       (3, None)] (Some C_Illegal)"

definition expand_compressed :: "u32 \<Rightarrow> Compressed \<Rightarrow> Architecture \<Rightarrow> u32 \<times> Mapping" where
  "expand_compressed w op arch =
     (case op of
        C_Illegal \<Rightarrow> (w, UNDEF)
      | C_LQ \<Rightarrow> (w, UNDEF)
      | C_LQSP \<Rightarrow> (w, UNDEF)
      | C_SQ \<Rightarrow> (w, UNDEF)
      | C_SQSP \<Rightarrow> (w, UNDEF)
      | C_Reserved \<Rightarrow> (w, UNDEF)
      | C_NOP \<Rightarrow> (IF_ADD 0 0 0, M_I ADD)
      | C_ADD \<Rightarrow> (IF_ADD (c_rd w) (c_rd w) (c_rs2 w), M_I ADD)
      | C_MV \<Rightarrow> (IF_ADD (c_rd w) 0 (c_rs2 w), M_I ADD)
      | C_AND \<Rightarrow> (IF_AND (c_rd_small w) (c_rd_small w) (c_rs2_small w), M_I AND_R)
      | C_OR \<Rightarrow> (IF_OR (c_rd_small w) (c_rd_small w) (c_rs2_small w), M_I OR_R)
      | C_XOR \<Rightarrow> (IF_XOR (c_rd_small w) (c_rd_small w) (c_rs2_small w), M_I XOR_R)
      | C_SUB \<Rightarrow> (IF_SUB (c_rd_small w) (c_rd_small w) (c_rs2_small w), M_I SUB)
      | C_ADDW \<Rightarrow> (IF_ADDW (c_rd_small w) (c_rd_small w) (c_rs2_small w), M_I64 ADDW)
      | C_SUBW \<Rightarrow> (IF_SUBW (c_rd_small w) (c_rd_small w) (c_rs2_small w), M_I64 SUBW)
      | C_LW \<Rightarrow> (IF_LW (c_rs2_small w) (c_rd_small w) (C_LW_UIMM w), M_I LW)
      | C_LD \<Rightarrow> (IF_LD (c_rs2_small w) (c_rd_small w) (C_LD_UIMM w), M_I64 LD)
      | C_FLW \<Rightarrow> (IF_FLW (c_rs2_small w) (c_rd_small w) (C_LW_UIMM w), M_F FLW)
      | C_FLD \<Rightarrow> (IF_FLD (c_rs2_small w) (c_rd_small w) (C_LD_UIMM w), M_D FLD)
      | C_SW \<Rightarrow> (IF_SW (c_rd_small w) (c_rs2_small w) (C_SW_UIMM w), M_I SW)
      | C_SD \<Rightarrow> (IF_SD (c_rd_small w) (c_rs2_small w) (C_SD_UIMM w), M_I64 SD)
      | C_FSW \<Rightarrow> (IF_FSW (c_rd_small w) (c_rs2_small w) (C_SW_UIMM w), M_F FSW)
      | C_FSD \<Rightarrow> (IF_FSD (c_rd_small w) (c_rs2_small w) (C_SD_UIMM w), M_D FSD)
      | C_ADDI4SPN \<Rightarrow> (let n = C_ADDI4SPN_NZUIMM w in (if n = 0 then (w, UNDEF) else (IF_ADDI (c_rs2_small w) 2 n, M_I ADDI)))
      | C_ADDI \<Rightarrow> (IF_ADDI (c_rd w) (c_rd w) (c_imm w), M_I ADDI)
      | C_JAL \<Rightarrow> (IF_JAL 1 (C_JAL_IMM w), M_I JAL)
      | C_ADDIW \<Rightarrow> (if c_rd w = 0 then (w, UNDEF) else (IF_ADDI (c_rd w) (c_rd w) (c_imm w), M_I64 ADDIW))
      | C_LI \<Rightarrow> (IF_ADDI (c_rd w) 0 (c_imm w), M_I ADDI)
      | C_ADDI16SP \<Rightarrow> (let n = C_ADDI16SP_NZIMM w in (if n = 0 then (w, UNDEF) else (IF_ADDI 2 2 n, M_I ADDI)))
      | C_LUI \<Rightarrow> (let n = C_LUI_NZIMM w in (if n = 0 then (w, UNDEF) else (IF_LUI (c_rd w) n, M_I LUI)))
      | C_SLLI \<Rightarrow> (let n = c_uimm w in (if arch = RV32 \<and> n > 31 then (w, UNDEF) else (IF_SLLI (c_rd w) (c_rd w) n, M_I SLLI)))
      | C_SRLI \<Rightarrow> (let n = c_uimm w in (if arch = RV32 \<and> n > 31 then (w, UNDEF) else (IF_SRLI (c_rd_small w) (c_rd_small w) n, M_I SRLI)))
      | C_SRAI \<Rightarrow> (let n = c_uimm w in (if arch = RV32 \<and> n > 31 then (w, UNDEF) else (IF_SRAI (c_rd_small w) (c_rd_small w) n, M_I SRAI)))
      | C_ANDI \<Rightarrow> (IF_ANDI (c_rd_small w) (c_rd_small w) (c_imm w), M_I ANDI)
      | C_J \<Rightarrow> (IF_JAL 0 (C_J_IMM w), M_I JAL)
      | C_BEQZ \<Rightarrow> (IF_BEQ (c_rd_small w) 0 (C_BRANCH_IMM w), M_I BEQ)
      | C_BNEZ \<Rightarrow> (IF_BNE (c_rd_small w) 0 (C_BRANCH_IMM w), M_I BNE)
      | C_LWSP \<Rightarrow> (if c_rd w = 0 then (w, UNDEF) else (IF_LW (c_rd w) 2 (C_LWSP_UIMM w), M_I LW))
      | C_LDSP \<Rightarrow> (if c_rd w = 0 then (w, UNDEF) else (IF_LD (c_rd w) 2 (C_LDSP_UIMM w), M_I64 LD))
      | C_FLWSP \<Rightarrow> (IF_FLW (c_rd w) 2 (C_LWSP_UIMM w), M_F FLW)
      | C_FLDSP \<Rightarrow> (IF_FLD (c_rd w) 2 (C_LDSP_UIMM w), M_D FLD)
      | C_SWSP \<Rightarrow> (IF_SW 2 (c_rs2 w) (C_SWSP_UIMM w), M_I SW)
      | C_SDSP \<Rightarrow> (IF_SD 2 (c_rs2 w) (C_SDSP_UIMM w), M_I64 SD)
      | C_FSWSP \<Rightarrow> (IF_FSW 2 (c_rs2 w) (C_SWSP_UIMM w), M_F FSW)
      | C_FSDSP \<Rightarrow> (IF_FSD 2 (c_rs2 w) (C_SDSP_UIMM w), M_D FSD)
      | C_EBREAK \<Rightarrow> (IF_EBREAK, M_I EBREAK)
      | C_JR \<Rightarrow> (if c_rd w = 0 then (w, UNDEF) else (IF_JALR 0 (c_rd w) 0, M_I JALR))
      | C_JALR \<Rightarrow> (IF_JALR 1 (c_rd w) 0, M_I JALR))"

definition decode_and_expand_compressed :: "u32 \<Rightarrow> Architecture \<Rightarrow> (u32 \<times> Mapping) option" where
  "decode_and_expand_compressed w arch =
     (case decode_compressed w arch of
        Some c_op \<Rightarrow> Some (expand_compressed w c_op arch)
      | None \<Rightarrow> None)"

section \<open>The factory assembles what the decoder reads\<close>

lemma signed_drop_bit_nonneg:
  "\<not> bit w 31 \<Longrightarrow> signed_drop_bit n w = drop_bit n w" for w :: u32
  by (rule bit_eqI) (auto simp: bit_signed_drop_bit_iff bit_drop_bit_eq not_le dest: bit_imp_le_length)

lemma signed_drop_bit_and:
  "\<not> bit c 31 \<Longrightarrow> signed_drop_bit n (w AND c) = drop_bit n w AND drop_bit n c" for w :: u32
  by (simp add: signed_drop_bit_nonneg bit_and_iff)

lemmas factory_eval = matches_def MASK_def ENCODING_def bit.conj_disj_distrib bit.conj_disj_distrib2 and.assoc signed_drop_bit_and

lemma factory_matches:
  "matches arch (M_I ADD) (IF_ADD d a b)"
  "matches arch (M_I AND_R) (IF_AND d a b)"
  "matches arch (M_I OR_R) (IF_OR d a b)"
  "matches arch (M_I XOR_R) (IF_XOR d a b)"
  "matches arch (M_I SUB) (IF_SUB d a b)"
  "matches arch (M_I LW) (IF_LW d a imm)"
  "matches arch (M_I64 LD) (IF_LD d a imm)"
  "matches arch (M_F FLW) (IF_FLW d a imm)"
  "matches arch (M_D FLD) (IF_FLD d a imm)"
  "matches arch (M_I SW) (IF_SW a b imm)"
  "matches arch (M_I64 SD) (IF_SD a b imm)"
  "matches arch (M_F FSW) (IF_FSW a b imm)"
  "matches arch (M_D FSD) (IF_FSD a b imm)"
  "matches arch (M_I LUI) (IF_LUI d imm)"
  "matches arch (M_I ADDI) (IF_ADDI d a imm)"
  "matches arch (M_I ANDI) (IF_ANDI d a imm)"
  "matches arch (M_I JAL) (IF_JAL d imm)"
  "matches arch (M_I JALR) (IF_JALR d a imm)"
  "matches arch (M_I BEQ) (IF_BEQ a b imm)"
  "matches arch (M_I BNE) (IF_BNE a b imm)"
  "matches arch (M_I EBREAK) IF_EBREAK"
  "matches arch (M_I64 ADDIW) (IF_ADDIW d a imm)"
  "matches arch (M_I64 ADDW) (IF_ADDW d a b)"
  "matches arch (M_I64 SUBW) (IF_SUBW d a b)"
  by (simp_all add: factory_eval IF_ADD_def IF_AND_def IF_OR_def IF_XOR_def IF_SUB_def IF_LW_def
      IF_LD_def IF_FLW_def IF_FLD_def IF_SW_def IF_SD_def IF_FSW_def IF_FSD_def IF_LUI_def
      IF_ADDI_def IF_ANDI_def IF_JAL_def IF_JALR_def IF_BEQ_def IF_BNE_def IF_EBREAK_def
      IF_ADDIW_def IF_ADDW_def IF_SUBW_def)

lemma shift_amount: "sh \<le> 31 \<Longrightarrow> (sh :: u32) AND 63 = sh AND 31"
proof -
  assume "sh \<le> 31"
  then have "sh < 32" "sh < 64" by (simp_all add: word_le_nat_alt word_less_nat_alt)
  then have "take_bit 5 sh = sh" "take_bit 6 sh = sh"
    by (simp_all add: take_bit_eq_mod mod_word_less)
  then show ?thesis
    using take_bit_eq_mask [of 5 sh] take_bit_eq_mask [of 6 sh] by (simp add: mask_numeral)
qed

lemma factory_shift_matches:
  assumes "arch = RV32 \<longrightarrow> sh \<le> 31"
  shows "matches arch (M_I SLLI) (IF_SLLI d a sh)"
    "matches arch (M_I SRLI) (IF_SRLI d a sh)"
    "matches arch (M_I SRAI) (IF_SRAI d a sh)"
  using assms
  by (cases "arch = RV32"; simp add: shift_amount factory_eval IF_SLLI_def IF_SRLI_def IF_SRAI_def)+

lemma word32_eqI:
  assumes "list_all (\<lambda>n. bit x n = bit y n) [0, 1, 2, 3, 4, 5, 6, 7, 8, 9, 10, 11, 12, 13, 14, 15, 16,
    17, 18, 19, 20, 21, 22, 23, 24, 25, 26, 27, 28, 29, 30, 31]"
  shows "x = (y :: u32)"
proof (rule bit_eqI)
  fix n assume "possible_bit TYPE(u32) n"
  then have "n < 32" by simp
  then have "n \<in> set [0, 1, 2, 3, 4, 5, 6, 7, 8, 9, 10, 11, 12, 13, 14, 15, 16,
    17, 18, 19, 20, 21, 22, 23, 24, 25, 26, 27, 28, 29, 30, 31]" by (simp, presburger)
  with assms show "bit x n = bit y n" unfolding list_all_iff by blast
qed

lemmas bit_eval = bit_or_iff bit_and_iff bit_push_bit_iff bit_signed_drop_bit_iff
  bit_signed_take_bit_iff bit_not_iff bit_drop_bit_eq

lemmas field_eval = rd_def rs1_def rs2_def I_imm_def S_imm_def B_imm_def J_imm_def U_imm_def
  BIT_RANGE_def BIT_SINGLE_def shamt_def

lemma IF_ADDI_fields:
  "rd (IF_ADDI d a imm) = d AND 31" "rs1 (IF_ADDI d a imm) = a AND 31"
  "I_imm (IF_ADDI d a imm) = signed_take_bit 11 imm"
  by (rule word32_eqI, simp add: field_eval IF_ADDI_def bit_eval)+

lemma IF_LW_fields:
  "rd (IF_LW d a imm) = d AND 31" "rs1 (IF_LW d a imm) = a AND 31"
  "I_imm (IF_LW d a imm) = signed_take_bit 11 imm"
  by (rule word32_eqI, simp add: field_eval IF_LW_def bit_eval)+

lemma IF_JALR_fields:
  "rd (IF_JALR d a imm) = d AND 31" "rs1 (IF_JALR d a imm) = a AND 31"
  "I_imm (IF_JALR d a imm) = signed_take_bit 11 imm"
  by (rule word32_eqI, simp add: field_eval IF_JALR_def bit_eval)+

lemma IF_SW_fields:
  "rs1 (IF_SW a b imm) = a AND 31" "rs2 (IF_SW a b imm) = b AND 31"
  "S_imm (IF_SW a b imm) = signed_take_bit 11 imm"
  by (rule word32_eqI, simp add: field_eval IF_SW_def bit_eval)+

lemma IF_BEQ_fields:
  "rs1 (IF_BEQ a b imm) = a AND 31" "rs2 (IF_BEQ a b imm) = b AND 31"
  "B_imm (IF_BEQ a b imm) = signed_take_bit 12 imm AND - 2"
  by (rule word32_eqI, simp add: field_eval IF_BEQ_def bit_eval)+

lemma IF_BNE_fields:
  "rs1 (IF_BNE a b imm) = a AND 31" "rs2 (IF_BNE a b imm) = b AND 31"
  "B_imm (IF_BNE a b imm) = signed_take_bit 12 imm AND - 2"
  by (rule word32_eqI, simp add: field_eval IF_BNE_def bit_eval)+

lemma IF_JAL_fields:
  "rd (IF_JAL d imm) = d AND 31" "J_imm (IF_JAL d imm) = signed_take_bit 20 imm AND - 2"
  by (rule word32_eqI, simp add: field_eval IF_JAL_def bit_eval)+

lemma IF_LUI_fields:
  "rd (IF_LUI d imm) = d AND 31" "U_imm (IF_LUI d imm) = imm AND - 4096"
  by (rule word32_eqI, simp add: field_eval IF_LUI_def bit_eval)+

lemma IF_ADD_fields:
  "rd (IF_ADD d a b) = d AND 31" "rs1 (IF_ADD d a b) = a AND 31" "rs2 (IF_ADD d a b) = b AND 31"
  by (rule word32_eqI, simp add: field_eval IF_ADD_def bit_eval)+

text \<open>The immediates of compressed instructions are in the range their expansion can hold.\<close>

lemmas imm_eval = C_ADDI4SPN_NZUIMM_def C_LW_UIMM_def C_SW_UIMM_def C_JAL_IMM_def
  C_J_IMM_def C_ADDI16SP_NZIMM_def C_LUI_NZIMM_def C_BRANCH_IMM_def C_LWSP_UIMM_def C_SWSP_UIMM_def
  c_imm_def BIT_SLICE_def BIT_SINGLE_P1_def BIT_SINGLE_PN_def EXTRACT_SIGN_BIT_def BIT_RANGE_def
  BIT_SINGLE_def

lemma compressed_imm_ranges:
  "signed_take_bit 11 (C_ADDI4SPN_NZUIMM w) = C_ADDI4SPN_NZUIMM w"
  "signed_take_bit 11 (C_LW_UIMM w) = C_LW_UIMM w"
  "signed_take_bit 11 (C_LWSP_UIMM w) = C_LWSP_UIMM w"
  "signed_take_bit 11 (C_SWSP_UIMM w) = C_SWSP_UIMM w"
  "signed_take_bit 11 (C_ADDI16SP_NZIMM w) = C_ADDI16SP_NZIMM w"
  "signed_take_bit 11 (c_imm w) = c_imm w"
  "signed_take_bit 12 (C_BRANCH_IMM w) AND - 2 = C_BRANCH_IMM w"
  "signed_take_bit 20 (C_JAL_IMM w) AND - 2 = C_JAL_IMM w"
  "C_LUI_NZIMM w AND - 4096 = C_LUI_NZIMM w"
  by (rule word32_eqI, simp add: imm_eval bit_eval numeral_2_eq_2 [symmetric] del: One_nat_def push_bit_Suc)+

lemma expand_matches:
  assumes "expand_compressed w op arch = (w', m)" and "m \<noteq> UNDEF" and "op \<noteq> C_ADDIW"
  shows "matches arch m w'"
  using assms
  by (cases op)
     (auto simp: expand_compressed_def Let_def factory_matches factory_shift_matches not_less
       split: if_splits)

lemma less_3_cases: "(x :: u32) < 3 \<Longrightarrow> x = 0 \<or> x = 1 \<or> x = 2"
proof -
  assume "x < 3"
  then have "unat x < 3" by (simp add: word_less_nat_alt)
  then have "unat x = unat (0 :: u32) \<or> unat x = unat (1 :: u32) \<or> unat x = unat (2 :: u32)"
    by auto
  then show ?thesis by (simp only: word_unat_eq_iff)
qed

section \<open>Properties\<close>



text \<open>
  C28: on RV32 every 16-bit instruction is handled: decoding does not throw and never yields
  \<open>C.ADDIW\<close>, so what the expansion returns is either an illegal instruction or a word that
  \<open>decode_normal\<close> reads as the instruction returned.
\<close>

theorem decode_and_expand_total:
  assumes "is_compressed w"
  shows "\<exists>w' m. decode_and_expand_compressed w RV32 = Some (w', m) \<and>
    (m = UNDEF \<or> decode_normal RV32 w' = m)"
proof -
  have "quadrant w = 0 \<or> quadrant w = 1 \<or> quadrant w = 2"
    using assms less_3_cases unfolding is_compressed_def by blast
  then obtain op where op: "decode_compressed w RV32 = Some op"
      "op \<in> {decode_quadrant0 w RV32, decode_quadrant1 w RV32, decode_quadrant2 w RV32}"
    by (auto simp: decode_compressed_def)
  have "decode_quadrant0 w RV32 \<noteq> C_ADDIW" "decode_quadrant1 w RV32 \<noteq> C_ADDIW"
      "decode_quadrant2 w RV32 \<noteq> C_ADDIW"
    by (simp_all add: decode_quadrant0_def decode_quadrant1_def decode_quadrant2_def)
  with op(2) have "op \<noteq> C_ADDIW" by auto
  obtain w' m where e: "expand_compressed w op RV32 = (w', m)" by fastforce
  then show ?thesis
    using op(1) matches_decode [OF expand_matches [OF e]] \<open>op \<noteq> C_ADDIW\<close>
    by (auto simp: decode_and_expand_compressed_def)
qed

theorem decode_and_expand_total_witness:
  "is_compressed 0x8082 \<and> decode_and_expand_compressed 0x8082 RV32 = Some (0x8067, M_I JALR)"
proof -
  have "is_compressed 0x8082"
    and "decode_and_expand_compressed 0x8082 RV32 = Some (0x8067, M_I JALR)" by code_simp+
  then show ?thesis using decode_and_expand_total [of "0x8082"] by simp
qed


end
