(* ===== verification/RV_Coverage.thy ===== *)
theory RV_Coverage
  imports VP_Monad RV_Compressed "HOL-Library.List_Lexorder" "HOL-Library.Char_ord"
begin

text \<open>
  Code coverage (\<open>core/rv32/coverage.cpp\<close>, \<open>basic_block.cpp\<close>, \<open>json.cpp\<close>): the tables of source
  files, functions, lines and basic blocks that are built once from the program, the update on
  every executed instruction and the record that is reported for a line and a function.

  The debug information is the parameter \<open>get_sources\<close> (\<open>addr2line.cpp\<close> over elfutils), which maps
  an address to the source lines it belongs to; the instruction memory is the parameter
  \<open>load_instr\<close>.  A pointer to a basic block is its index in the list of all blocks.
\<close>

section \<open>Data\<close>

text \<open>\<open>std::map\<close> as an association list in the order of the keys.\<close>

type_synonym ('k, 'v) std_map = "('k \<times> 'v) list"

fun map_put :: "'k::linorder \<Rightarrow> 'v \<Rightarrow> ('k, 'v) std_map \<Rightarrow> ('k, 'v) std_map" where
  "map_put k v [] = [(k, v)]"
| "map_put k v ((k', v') # m) =
     (if k < k' then (k, v) # (k', v') # m
      else if k = k' then (k, v) # m
      else (k', v') # map_put k v m)"

lemma map_of_map_put [simp]: "map_of (map_put k v m) = (map_of m)(k \<mapsto> v)"
  by (induction k v m rule: map_put.induct) (auto simp: fun_upd_twist)

lemma sorted_map_put: "sorted_wrt (<) (map fst m) \<Longrightarrow> sorted_wrt (<) (map fst (map_put k v m))"
proof (induction k v m rule: map_put.induct)
  case (2 k v k' v' m)
  have "set (map fst (map_put k v m)) = insert k (set (map fst m))"
    by (induction k v m rule: map_put.induct) auto
  with 2 show ?case by auto
qed simp

record SourceInfo =
  symbol_name :: string
  source_path :: string
  si_line :: int
  si_column :: int

record BasicBlock =
  bb_start :: u64
  bb_end :: u64
  bb_visited :: bool

type_synonym Location = "int \<times> int"

record Function =
  fn_name :: string
  fn_definition :: "Location \<times> Location"
  fn_blocks :: "nat list"
  fn_first_instr :: u64
  fn_exec_count :: u64

record SourceLine =
  func_name :: string
  sl_definition :: Location
  sl_blocks :: "nat list"
  sl_first_instr :: u64
  sl_exec_count :: u64
  symbolic_once :: bool
  tainted_once :: bool
  initial_conc :: bool

record SourceFile =
  sf_name :: string
  sf_lines :: "(int, SourceLine) std_map"
  sf_funcs :: "(string, Function) std_map"

record Coverage =
  cov_blocks :: "BasicBlock list"
  block_leaders :: "u64 \<rightharpoonup> bool"
  cov_files :: "(string, SourceFile) std_map"

text \<open>What \<open>operator[]\<close> of a map inserts for a missing key.\<close>

definition newFunction :: Function where
  "newFunction = \<lparr>fn_name = [], fn_definition = ((0, 0), (0, 0)), fn_blocks = [],
     fn_first_instr = 0, fn_exec_count = 0\<rparr>"

definition newSourceLine :: SourceLine where
  "newSourceLine = \<lparr>func_name = [], sl_definition = (0, 0), sl_blocks = [], sl_first_instr = 0,
     sl_exec_count = 0, symbolic_once = False, tainted_once = False, initial_conc = False\<rparr>"

definition newSourceFile :: SourceFile where
  "newSourceFile = \<lparr>sf_name = [], sf_lines = [], sf_funcs = []\<rparr>"

definition newCoverage :: Coverage where
  "newCoverage = \<lparr>cov_blocks = [], block_leaders = Map.empty, cov_files = []\<rparr>"

section \<open>Basic blocks\<close>

definition bbl_add :: "u64 \<Rightarrow> u64 \<Rightarrow> BasicBlock list \<Rightarrow> nat \<times> BasicBlock list" where
  "bbl_add start end' bs = (length bs, bs @ [\<lparr>bb_start = start, bb_end = end', bb_visited = False\<rparr>])"

fun bbl_visit :: "u64 \<Rightarrow> BasicBlock list \<Rightarrow> BasicBlock list" where
  "bbl_visit addr [] = []"
| "bbl_visit addr (b # bs) =
     (if bb_start b \<le> addr \<and> addr < bb_end b then b\<lparr>bb_visited := True\<rparr> # bs
      else b # bbl_visit addr bs)"

definition instr_size :: "u32 \<Rightarrow> u64" where
  "instr_size i = (if is_compressed i then 2 else 4)"

definition jump_target :: "u32 \<Rightarrow> u64 \<Rightarrow> u64 option" where
  "jump_target i addr =
     (if opcode i = OP_BEQ then Some (addr + scast (B_imm i))
      else if opcode i = OP_JAL then Some (addr + scast (J_imm i))
      else None)"

definition is_jump :: "u32 \<Rightarrow> bool" where
  "is_jump i \<longleftrightarrow> opcode i = OP_BEQ \<or> opcode i = OP_JAL \<or> opcode i = OP_JALR"

text \<open>
  The loop of \<open>init_basic_blocks\<close>; \<open>None\<close> would be a loop that does not end.  A jump whose target
  lies in the function makes the target a leader, and every jump makes the next instruction one.
\<close>

definition mark_target :: "u64 \<Rightarrow> u64 \<Rightarrow> u64 option \<Rightarrow> Coverage \<Rightarrow> Coverage" where
  "mark_target func_start func_end dest cov =
     (case dest of
        None \<Rightarrow> cov
      | Some d \<Rightarrow>
          (if func_start \<le> d \<and> d < func_end
           then cov\<lparr>block_leaders := (block_leaders cov)(d \<mapsto> True)\<rparr> else cov))"

partial_function (option) leaders_loop ::
  "(u64 \<Rightarrow> error + u32) \<Rightarrow> u64 \<Rightarrow> u64 \<Rightarrow> u64 \<Rightarrow> bool \<Rightarrow> Coverage \<Rightarrow> (unit, Coverage) outcome option"
where
  "leaders_loop load func_start func_end addr prev_wasjump cov =
     (if \<not> addr < func_end then Some (Ok () cov)
      else
        (let cov1 = (if prev_wasjump then cov\<lparr>block_leaders := (block_leaders cov)(addr \<mapsto> True)\<rparr> else cov)
         in case load addr of
              Inl e \<Rightarrow> Some (Throw e cov1)
            | Inr i \<Rightarrow>
                leaders_loop load func_start func_end (addr + instr_size i) (is_jump i)
                  (mark_target func_start func_end (jump_target i addr) cov1)))"

declare leaders_loop.simps [code]

definition init_basic_blocks ::
  "(u64 \<Rightarrow> error + u32) \<Rightarrow> u64 \<Rightarrow> u64 \<Rightarrow> Coverage \<Rightarrow> (unit, Coverage) outcome option"
where
  "init_basic_blocks load func_start func_end cov =
     leaders_loop load func_start func_end func_start False
       (cov\<lparr>block_leaders := (block_leaders cov)(func_start \<mapsto> True)\<rparr>)"

section \<open>Functions and lines\<close>

definition add_source_file :: "u64 \<Rightarrow> SourceInfo \<Rightarrow> SourceFile \<Rightarrow> SourceFile" where
  "add_source_file addr s sf =
     (let newFunc = (map_of (sf_funcs sf) (symbol_name s) = None);
          f = (case map_of (sf_funcs sf) (symbol_name s) of
                 Some f \<Rightarrow> f
               | None \<Rightarrow> newFunction\<lparr>fn_name := symbol_name s,
                   fn_definition := ((si_line s, si_column s), (0, 0)), fn_first_instr := addr\<rparr>);
          newLine = (map_of (sf_lines sf) (si_line s) = None);
          sl = (case map_of (sf_lines sf) (si_line s) of
                  Some sl \<Rightarrow> sl
                | None \<Rightarrow> newSourceLine\<lparr>func_name := fn_name f,
                    sl_definition := (si_line s, si_column s), sl_first_instr := addr\<rparr>);
          f' = (if newLine \<and> fst (sl_definition sl) > fst (snd (fn_definition f))
                then f\<lparr>fn_definition := (fst (fn_definition f), sl_definition sl)\<rparr> else f)
      in sf\<lparr>sf_funcs := map_put (symbol_name s) f' (sf_funcs sf),
            sf_lines := map_put (si_line s) sl (sf_lines sf)\<rparr>)"

definition add_source :: "u64 \<Rightarrow> SourceInfo \<Rightarrow> (Coverage, unit) M" where
  "add_source addr s =
     seqM (assertM (\<not> (symbol_name s = [] \<or> source_path s = [])) ''0'')
       (modify (\<lambda>cov.
          let sf = (case map_of (cov_files cov) (source_path s) of
                      Some sf \<Rightarrow> sf
                    | None \<Rightarrow> newSourceFile\<lparr>sf_name := source_path s\<rparr>)
          in cov\<lparr>cov_files := map_put (source_path s) (add_source_file addr s sf) (cov_files cov)\<rparr>))"

text \<open>
  At the end of a block: \<open>sl\<close> is a copy of the line, so that the block is appended to the copy and
  to the function, and not to the line of the table.
\<close>

definition add_block :: "u64 \<Rightarrow> u64 \<Rightarrow> SourceInfo \<Rightarrow> (Coverage, unit) M" where
  "add_block block_prev addr s =
     bindM (gets (\<lambda>cov. map_of (cov_files cov) (source_path s))) (\<lambda>sf'.
     bindM (of_option OutOfRange sf') (\<lambda>sf.
     bindM (of_option OutOfRange (map_of (sf_funcs sf) (symbol_name s))) (\<lambda>f.
     bindM (of_option OutOfRange (map_of (sf_lines sf) (si_line s))) (\<lambda>sl.
     modify (\<lambda>cov.
       case bbl_add block_prev addr (cov_blocks cov) of (bb, bs) \<Rightarrow>
         cov\<lparr>cov_blocks := bs,
             cov_files := map_put (source_path s)
               (sf\<lparr>sf_funcs := map_put (symbol_name s) (f\<lparr>fn_blocks := fn_blocks f @ [bb]\<rparr>) (sf_funcs sf)\<rparr>)
               (cov_files cov)\<rparr>)))))"

definition add_func_body ::
  "(u64 \<Rightarrow> error + SourceInfo list) \<Rightarrow> (u64 \<Rightarrow> error + u32) \<Rightarrow> u64 \<Rightarrow> u64 \<Rightarrow> u64 \<Rightarrow> (Coverage, u64 \<times> u64) M"
where
  "add_func_body srcs load func_end addr block_prev =
     bindM (of_sum (srcs addr)) (\<lambda>sources.
       seqM (forM sources (add_source addr))
       (bindM (of_sum (load addr)) (\<lambda>i.
        bindM (gets (\<lambda>cov. block_leaders cov (addr + instr_size i) \<noteq> None \<or> addr + instr_size i = func_end)) (\<lambda>block_end.
          if block_end
          then seqM (assertM (block_prev < addr + instr_size i) ''block_prev < addr'')
                 (seqM (forM sources (add_block block_prev (addr + instr_size i)))
                    (ret (addr + instr_size i, addr + instr_size i)))
          else ret (addr + instr_size i, block_prev)))))"

partial_function (option) add_func_loop ::
  "(u64 \<Rightarrow> error + SourceInfo list) \<Rightarrow> (u64 \<Rightarrow> error + u32) \<Rightarrow> u64 \<Rightarrow> u64 \<Rightarrow> u64 \<Rightarrow> Coverage \<Rightarrow>
     (unit, Coverage) outcome option"
where
  "add_func_loop srcs load func_end addr block_prev cov =
     (if \<not> addr < func_end then Some (Ok () cov)
      else
        case add_func_body srcs load func_end addr block_prev cov of
          Throw e cov' \<Rightarrow> Some (Throw e cov')
        | Ok (addr', block_prev') cov' \<Rightarrow> add_func_loop srcs load func_end addr' block_prev' cov')"

declare add_func_loop.simps [code]

definition add_func ::
  "(u64 \<Rightarrow> error + SourceInfo list) \<Rightarrow> (u64 \<Rightarrow> error + u32) \<Rightarrow> u64 \<Rightarrow> u64 \<Rightarrow> Coverage \<Rightarrow>
     (unit, Coverage) outcome option"
where
  "add_func srcs load func_start func_end cov = add_func_loop srcs load func_end func_start func_start cov"

text \<open>
  \<open>init\<close>: one pass over all functions of the debug information for the leaders and one for the
  tables; \<open>funcs\<close> are the address ranges of the functions that are not inlined, the bias added.
\<close>

fun for_funcs ::
  "(u64 \<Rightarrow> u64 \<Rightarrow> Coverage \<Rightarrow> (unit, Coverage) outcome option) \<Rightarrow> (u64 \<times> u64) list \<Rightarrow> Coverage \<Rightarrow>
     (unit, Coverage) outcome option"
where
  "for_funcs f [] cov = Some (Ok () cov)"
| "for_funcs f ((lopc, hipc) # fs) cov =
     (case f lopc hipc cov of
        Some (Ok _ cov') \<Rightarrow> for_funcs f fs cov'
      | r \<Rightarrow> r)"

definition cov_init ::
  "(u64 \<Rightarrow> error + SourceInfo list) \<Rightarrow> (u64 \<Rightarrow> error + u32) \<Rightarrow> (u64 \<times> u64) list \<Rightarrow> Coverage \<Rightarrow>
     (unit, Coverage) outcome option"
where
  "cov_init srcs load funcs cov =
     (case for_funcs (init_basic_blocks load) funcs cov of
        Some (Ok _ cov') \<Rightarrow> for_funcs (add_func srcs load) funcs cov'
      | r \<Rightarrow> r)"

section \<open>Covering an instruction\<close>

definition cover_line :: "u64 \<Rightarrow> bool \<Rightarrow> bool \<Rightarrow> bool \<Rightarrow> SourceLine \<Rightarrow> SourceLine" where
  "cover_line addr tainted symbolic init sl =
     sl\<lparr>sl_exec_count := (if addr = sl_first_instr sl then sl_exec_count sl + 1 else sl_exec_count sl),
        symbolic_once := symbolic \<or> symbolic_once sl,
        tainted_once := tainted \<or> tainted_once sl,
        initial_conc := init \<or> initial_conc sl\<rparr>"

definition cover_func :: "u64 \<Rightarrow> Function \<Rightarrow> Function" where
  "cover_func addr f =
     f\<lparr>fn_exec_count := (if addr = fn_first_instr f then fn_exec_count f + 1 else fn_exec_count f)\<rparr>"

definition put_file :: "string \<Rightarrow> SourceFile \<Rightarrow> Coverage \<Rightarrow> Coverage" where
  "put_file p sf cov = cov\<lparr>cov_files := map_put p sf (cov_files cov)\<rparr>"

definition cover_source :: "u64 \<Rightarrow> bool \<Rightarrow> bool \<Rightarrow> bool \<Rightarrow> SourceInfo \<Rightarrow> (Coverage, unit) M" where
  "cover_source addr tainted symbolic init s =
     bindM (gets (\<lambda>cov. map_of (cov_files cov) (source_path s))) (\<lambda>file.
       case file of
         None \<Rightarrow> ret ()
       | Some sf \<Rightarrow>
           bindM (of_option OutOfRange (map_of (sf_funcs sf) (symbol_name s))) (\<lambda>func.
           let sf1 = sf\<lparr>sf_funcs := map_put (symbol_name s) (cover_func addr func) (sf_funcs sf)\<rparr>
           in seqM (modify (put_file (source_path s) sf1))
             (seqM (modify (\<lambda>cov. cov\<lparr>cov_blocks := bbl_visit addr (cov_blocks cov)\<rparr>))
               (bindM (of_option OutOfRange (map_of (sf_lines sf1) (si_line s))) (\<lambda>sl.
                modify (put_file (source_path s)
                  (sf1\<lparr>sf_lines := map_put (si_line s) (cover_line addr tainted symbolic init sl)
                     (sf_lines sf1)\<rparr>)))))))"

definition cover :: "(u64 \<Rightarrow> error + SourceInfo list) \<Rightarrow> u64 \<Rightarrow> bool \<Rightarrow> bool \<Rightarrow> bool \<Rightarrow> (Coverage, unit) M" where
  "cover srcs addr tainted symbolic init =
     bindM (of_sum (srcs addr)) (\<lambda>sources. forM sources (cover_source addr tainted symbolic init))"

section \<open>The report\<close>

definition has_unexecuted_block :: "BasicBlock list \<Rightarrow> SourceLine \<Rightarrow> bool" where
  "has_unexecuted_block bs sl \<longleftrightarrow>
     sl_exec_count sl = 0 \<or> list_ex (\<lambda>i. \<not> bb_visited (bs ! i)) (sl_blocks sl)"

record line_json =
  j_count :: u64
  j_line_number :: int
  j_unexecuted_block :: bool
  j_function_name :: string
  j_tainted_once :: bool
  j_symbolic_once :: bool
  j_initial_concretization :: bool

definition SourceLine_to_json :: "BasicBlock list \<Rightarrow> SourceLine \<Rightarrow> line_json" where
  "SourceLine_to_json bs sl = \<lparr>j_count = sl_exec_count sl, j_line_number = fst (sl_definition sl),
     j_unexecuted_block = has_unexecuted_block bs sl, j_function_name = func_name sl,
     j_tainted_once = tainted_once sl, j_symbolic_once = symbolic_once sl,
     j_initial_concretization = initial_conc sl\<rparr>"

record func_json =
  j_blocks :: nat
  j_blocks_executed :: nat
  j_name :: string
  j_end_column :: int
  j_end_line :: int
  j_execution_count :: u64
  j_start_column :: int
  j_start_line :: int

definition Function_to_json :: "BasicBlock list \<Rightarrow> Function \<Rightarrow> func_json" where
  "Function_to_json bs f = \<lparr>j_blocks = length (fn_blocks f),
     j_blocks_executed = length (filter (\<lambda>i. bb_visited (bs ! i)) (fn_blocks f)), j_name = fn_name f,
     j_end_column = snd (snd (fn_definition f)), j_end_line = fst (snd (fn_definition f)),
     j_execution_count = fn_exec_count f, j_start_column = snd (fst (fn_definition f)),
     j_start_line = fst (fst (fn_definition f))\<rparr>"

definition filename :: "string \<Rightarrow> string" where
  "filename p = rev (takeWhile (\<lambda>c. c \<noteq> CHR ''/'') (rev p))"

definition SourceFile_to_json :: "BasicBlock list \<Rightarrow> SourceFile \<Rightarrow> string \<times> line_json list \<times> func_json list" where
  "SourceFile_to_json bs sf =
     (filename (sf_name sf), map (SourceLine_to_json bs \<circ> snd) (sf_lines sf), map (Function_to_json bs \<circ> snd) (sf_funcs sf))"

section \<open>What the tables know\<close>

text \<open>
  \<open>knows cov s\<close>: the file, the function and the line of \<open>s\<close> are in the tables; \<open>coverable\<close> also
  allows a file of which no table exists (code outside of every function of the debug
  information, such as assembler files).
\<close>

definition knows :: "Coverage \<Rightarrow> SourceInfo \<Rightarrow> bool" where
  "knows cov s \<longleftrightarrow>
     (case map_of (cov_files cov) (source_path s) of
        None \<Rightarrow> False
      | Some sf \<Rightarrow> map_of (sf_funcs sf) (symbol_name s) \<noteq> None \<and> map_of (sf_lines sf) (si_line s) \<noteq> None)"

definition coverable :: "Coverage \<Rightarrow> SourceInfo \<Rightarrow> bool" where
  "coverable cov s \<longleftrightarrow> map_of (cov_files cov) (source_path s) = None \<or> knows cov s"

definition extends :: "Coverage \<Rightarrow> Coverage \<Rightarrow> bool" where
  "extends cov cov' \<longleftrightarrow> (\<forall>s. knows cov s \<longrightarrow> knows cov' s)"

lemma extends_refl [simp]: "extends cov cov"
  by (simp add: extends_def)

lemma extends_trans: "extends a b \<Longrightarrow> extends b c \<Longrightarrow> extends a c"
  by (simp add: extends_def)

lemma extendsD: "extends a b \<Longrightarrow> knows a s \<Longrightarrow> knows b s"
  by (simp add: extends_def)

lemma add_source_file_maps:
  "map_of (sf_funcs (add_source_file addr s sf)) n \<noteq> None \<longleftrightarrow> n = symbol_name s \<or> map_of (sf_funcs sf) n \<noteq> None"
  "map_of (sf_lines (add_source_file addr s sf)) l \<noteq> None \<longleftrightarrow> l = si_line s \<or> map_of (sf_lines sf) l \<noteq> None"
  by (auto simp: add_source_file_def Let_def)

lemma add_source_wp:
  "wp (add_source addr s) (\<lambda>_ cov'. knows cov' s \<and> extends cov cov' \<and> block_leaders cov' = block_leaders cov)
     (\<lambda>e _. e = AssertionFailed ''0'') cov"
  using add_source_file_maps
  by (auto simp: add_source_def wp_simps knows_def extends_def Let_def newSourceFile_def split: option.split)

lemma add_block_wp:
  "knows cov s \<Longrightarrow> wp (add_block a b s) (\<lambda>_ cov'. extends cov cov' \<and> block_leaders cov' = block_leaders cov)
     (\<lambda>_ _. False) cov"
  by (auto simp: add_block_def wp_simps knows_def extends_def bbl_add_def split: option.splits)

lemma add_sources_wp:
  "wp (forM ss (add_source addr))
     (\<lambda>_ cov'. (\<forall>s \<in> set ss. knows cov' s) \<and> extends cov cov' \<and> block_leaders cov' = block_leaders cov)
     (\<lambda>e _. e = AssertionFailed ''0'') cov"
proof (induction ss arbitrary: cov)
  case (Cons s ss)
  have "wp (forM ss (add_source addr))
      (\<lambda>_ cov'. (\<forall>x \<in> set (s # ss). knows cov' x) \<and> extends cov cov' \<and> block_leaders cov' = block_leaders cov)
      (\<lambda>e _. e = AssertionFailed ''0'') cov1"
    if "knows cov1 s" "extends cov cov1" "block_leaders cov1 = block_leaders cov" for cov1
    using Cons.IH [of cov1] by (rule wp_mono) (use that in \<open>auto intro: extends_trans dest: extendsD\<close>)
  then show ?case
    unfolding forM.simps wp_simps by (intro wp_mono [OF add_source_wp]) auto
qed (simp add: wp_simps)

lemma add_blocks_wp:
  assumes "\<forall>s \<in> set ss. knows cov s"
  shows "wp (forM ss (add_block a b)) (\<lambda>_ cov'. extends cov cov' \<and> block_leaders cov' = block_leaders cov)
    (\<lambda>_ _. False) cov"
proof (rule wp_forM)
  fix s cov' assume "s \<in> set ss" "extends cov cov' \<and> block_leaders cov' = block_leaders cov"
  then show "wp (add_block a b s) (\<lambda>_ cov'. extends cov cov' \<and> block_leaders cov' = block_leaders cov)
      (\<lambda>_ _. False) cov'"
    using assms by (intro wp_mono [OF add_block_wp]) (auto intro: extends_trans dest: extendsD)
qed simp

section \<open>The loops over a function\<close>

text \<open>\<open>instr_at load e a b\<close>: a loop that starts at \<open>a\<close> and stops at \<open>e\<close> reaches an instruction at \<open>b\<close>.\<close>

inductive instr_at :: "(u64 \<Rightarrow> error + u32) \<Rightarrow> u64 \<Rightarrow> u64 \<Rightarrow> u64 \<Rightarrow> bool" for load e where
  here: "a < e \<Longrightarrow> instr_at load e a a"
| later: "a < e \<Longrightarrow> load a = Inr i \<Longrightarrow> instr_at load e (a + instr_size i) b \<Longrightarrow> instr_at load e a b"

inductive_cases instr_atE: "instr_at load e a b"

lemma instr_at_less: "instr_at load e a b \<Longrightarrow> a < e"
  by (erule instr_atE)

lemma instr_at_step: "load a = Inr i \<Longrightarrow>
    instr_at load e a b \<longleftrightarrow> a < e \<and> (b = a \<or> instr_at load e (a + instr_size i) b)"
  by (auto intro: instr_at.intros elim: instr_atE)

lemma instr_size_pos: "instr_size i = 2 \<or> instr_size i = 4"
  by (simp add: instr_size_def)

text \<open>No wrap-around, and so an end, where the function ends below the last word of the address space.\<close>

lemma next_instr:
  fixes addr :: u64
  assumes "addr < e" and "e \<le> - 4"
  shows "unat e - unat (addr + instr_size i) < unat e - unat addr" "addr < addr + instr_size i"
proof -
  have e: "unat e \<le> 2 ^ 64 - 4" using assms(2) by (simp add: word_le_nat_alt)
  have a: "unat addr < unat e" using assms(1) by (simp add: word_less_nat_alt)
  have "unat (addr + instr_size i) = unat addr + unat (instr_size i)"
    using e a instr_size_pos [of i] by (intro unat_add_lem [THEN iffD1]) auto
  then show "unat e - unat (addr + instr_size i) < unat e - unat addr" "addr < addr + instr_size i"
    using a instr_size_pos [of i] by (auto simp: word_less_nat_alt)
qed

lemma leaders_loop_returns:
  assumes "e \<le> - 4" shows "\<exists>r. leaders_loop load fs e addr pj cov = Some r"
proof (induction "unat e - unat addr" arbitrary: addr pj cov rule: less_induct)
  case less
  show ?case
  proof (cases "addr < e")
    case True
    with less next_instr(1) [OF True assms] show ?thesis
      by (subst leaders_loop.simps) (auto simp: Let_def split: sum.split)
  qed (subst leaders_loop.simps, simp)
qed

lemma add_func_body_wp:
  "wp (add_func_body srcs load e addr bp)
     (\<lambda>(addr', bp') cov'. (\<exists>i ss. load addr = Inr i \<and> addr' = addr + instr_size i \<and>
        srcs addr = Inr ss \<and> (\<forall>s \<in> set ss. knows cov' s)) \<and> extends cov cov')
     (\<lambda>_ _. True) cov"
proof -
  have "wp (forM ss (add_block x y)) (\<lambda>_ cov'. (\<forall>s \<in> set ss. knows cov' s) \<and> extends cov cov')
      (\<lambda>_ _. True) cov1"
    if "\<forall>s \<in> set ss. knows cov1 s" "extends cov cov1" for ss cov1 x y
    by (rule wp_mono [OF add_blocks_wp [OF that(1)]]) (use that in \<open>auto simp: extends_def\<close>)
  note blk = this
  show ?thesis
  proof (cases "srcs addr"; cases "load addr")
    fix ss i assume l: "srcs addr = Inr ss" "load addr = Inr i"
    show ?thesis unfolding add_func_body_def wp_simps l
      by (auto simp: wp_simps intro!: wp_mono [OF add_sources_wp] blk)
  qed (auto simp: add_func_body_def wp_simps intro!: wp_mono [OF add_sources_wp])
qed

text \<open>\<open>all_known\<close>: the sources of every instruction a loop from \<open>a\<close> to \<open>e\<close> reaches are in the tables.\<close>

definition all_known ::
  "(u64 \<Rightarrow> error + SourceInfo list) \<Rightarrow> (u64 \<Rightarrow> error + u32) \<Rightarrow> u64 \<Rightarrow> u64 \<Rightarrow> Coverage \<Rightarrow> bool"
where
  "all_known srcs load e a cov \<longleftrightarrow>
     (\<forall>b ss. instr_at load e a b \<longrightarrow> srcs b = Inr ss \<longrightarrow> (\<forall>s \<in> set ss. knows cov s))"

lemma all_known_done: "\<not> a < e \<Longrightarrow> all_known srcs load e a cov"
  using instr_at_less unfolding all_known_def by blast

lemma all_known_step:
  assumes "load a = Inr i" and "srcs a = Inr ss" and "\<forall>s \<in> set ss. knows cov s"
    and "all_known srcs load e (a + instr_size i) cov"
  shows "all_known srcs load e a cov"
  unfolding all_known_def
proof (intro allI impI)
  fix b zs assume b: "instr_at load e a b" "srcs b = Inr zs"
  then consider "b = a" | "instr_at load e (a + instr_size i) b"
    using instr_at_step [where load = load and a = a, OF assms(1)] by blast
  then show "\<forall>s \<in> set zs. knows cov s"
  proof cases
    case 2
    then show ?thesis using assms(4) b(2) unfolding all_known_def by blast
  qed (use assms b in simp)
qed

lemma add_func_loop_knows:
  assumes "add_func_loop srcs load e addr bp cov = Some (Ok () cov')"
  shows "extends cov cov' \<and> all_known srcs load e addr cov'"
proof -
  let ?P = "\<lambda>srcs load e addr bp cov r. r = Ok () cov' \<longrightarrow> extends cov cov' \<and> all_known srcs load e addr cov'"
  have "?P srcs load e addr bp cov (Ok () cov')"
  proof (rule add_func_loop.raw_induct [where P = ?P, OF _ assms])
    fix loop srcs load e addr bp cov r
    assume IH: "\<And>srcs load e addr bp cov r. loop srcs load e addr bp cov = Some r \<Longrightarrow>
        r = Ok () cov' \<longrightarrow> extends cov cov' \<and> all_known srcs load e addr cov'"
      and body: "(if \<not> addr < e then Some (Ok () cov)
        else case add_func_body srcs load e addr bp cov of
          Ok (addr', bp') cov' \<Rightarrow> loop srcs load e addr' bp' cov' | Throw e cov' \<Rightarrow> Some (Throw e cov')) = Some r"
    show "r = Ok () cov' \<longrightarrow> extends cov cov' \<and> all_known srcs load e addr cov'"
    proof (cases "addr < e")
      case True
      show ?thesis
      proof (cases "add_func_body srcs load e addr bp cov")
        case (Ok x cov1)
        obtain addr' bp' where x: "x = (addr', bp')" by (cases x)
        from wpD(1) [OF add_func_body_wp Ok] obtain i ss where i: "load addr = Inr i"
            "addr' = addr + instr_size i" "srcs addr = Inr ss" "\<forall>s \<in> set ss. knows cov1 s" "extends cov cov1"
          unfolding x by auto
        have "loop srcs load e addr' bp' cov1 = Some r" using body True Ok x by simp
        from IH [OF this] show ?thesis
          using extends_trans [OF i(5)] all_known_step [where load = load and srcs = srcs and e = e, OF i(1,3)]
            extendsD i(2,4) by blast
      next
        case (Throw e s')
        with body True show ?thesis by auto
      qed
    qed (use body all_known_done in auto)
  qed
  then show ?thesis by simp
qed

lemma add_func_loop_returns:
  assumes "e \<le> - 4" shows "\<exists>r. add_func_loop srcs load e addr bp cov = Some r"
proof (induction "unat e - unat addr" arbitrary: addr bp cov rule: less_induct)
  case less
  show ?case
  proof (cases "addr < e")
    case True
    show ?thesis
    proof (cases "add_func_body srcs load e addr bp cov")
      case (Ok x cov1)
      from wpD(1) [OF add_func_body_wp Ok] obtain i where "fst x = addr + instr_size i"
        by (auto split: prod.splits)
      with less next_instr(1) [OF True assms, of i] Ok True show ?thesis
        by (subst add_func_loop.simps) (auto split: prod.split)
    qed (subst add_func_loop.simps, use True in simp)
  qed (subst add_func_loop.simps, simp)
qed

lemma cover_source_wp:
  "coverable cov s \<Longrightarrow>
    wp (cover_source addr t y i s) (\<lambda>_ cov'. \<forall>x. coverable cov' x = coverable cov x) (\<lambda>_ _. False) cov"
  by (auto simp: cover_source_def wp_simps coverable_def knows_def put_file_def Let_def split: option.splits)

lemma cover_wp:
  assumes "srcs addr = Inr ss" "\<forall>s \<in> set ss. coverable cov s"
  shows "wp (cover srcs addr t y i) (\<lambda>_ cov'. \<forall>x. coverable cov' x = coverable cov x) (\<lambda>_ _. False) cov"
  unfolding cover_def wp_simps assms(1) sum.case
  by (rule wp_forM) (use assms(2) in \<open>auto intro!: wp_mono [OF cover_source_wp]\<close>)

section \<open>Block leaders\<close>

text \<open>The definition of a leader: the target of a jump inside of the function, or the instruction after a jump.\<close>

definition leader_by :: "u64 \<Rightarrow> u64 \<Rightarrow> u64 \<Rightarrow> u32 \<Rightarrow> u64 \<Rightarrow> bool" where
  "leader_by fs e b i d \<longleftrightarrow> d < e \<and>
     (jump_target i b = Some d \<and> fs \<le> d \<or> is_jump i \<and> d = b + instr_size i)"

definition new_leaders :: "(u64 \<Rightarrow> error + u32) \<Rightarrow> u64 \<Rightarrow> u64 \<Rightarrow> u64 \<Rightarrow> u64 set" where
  "new_leaders load fs e a = {d. \<exists>b i. instr_at load e a b \<and> load b = Inr i \<and> leader_by fs e b i d}"

lemma new_leaders_done: "\<not> a < e \<Longrightarrow> new_leaders load fs e a = {}"
  using instr_at_less by (fastforce simp: new_leaders_def)

lemma new_leaders_step:
  assumes "load a = Inr i" and "a < e"
  shows "new_leaders load fs e a = {d. leader_by fs e a i d} \<union> new_leaders load fs e (a + instr_size i)"
  using assms instr_at_step [where load = load and a = a and e = e, OF assms(1)]
  by (auto simp: new_leaders_def)

lemma leader_by_step:
  "dom (block_leaders (mark_target fs e (jump_target i a) cov)) \<union>
     (if is_jump i \<and> a + instr_size i < e then {a + instr_size i} else {}) =
   dom (block_leaders cov) \<union> {d. leader_by fs e a i d}"
  by (auto simp: mark_target_def leader_by_def split: option.splits if_splits)

lemma leaders_loop_leaders:
  assumes "leaders_loop load fs e addr pj cov = Some (Ok () cov')"
  shows "dom (block_leaders cov') =
    dom (block_leaders cov) \<union> (if pj \<and> addr < e then {addr} else {}) \<union> new_leaders load fs e addr"
proof -
  let ?P = "\<lambda>load fs e addr pj cov r. r = Ok () cov' \<longrightarrow> dom (block_leaders cov') =
    dom (block_leaders cov) \<union> (if pj \<and> addr < e then {addr} else {}) \<union> new_leaders load fs e addr"
  have "?P load fs e addr pj cov (Ok () cov')"
  proof (rule leaders_loop.raw_induct [where P = ?P, OF _ assms])
    fix loop load fs e addr pj r and cov :: Coverage
    let ?c = "if pj then cov\<lparr>block_leaders := (block_leaders cov)(addr \<mapsto> True)\<rparr> else cov"
    assume IH: "\<And>load fs e addr pj cov r. loop load fs e addr pj cov = Some r \<Longrightarrow>
        r = Ok () cov' \<longrightarrow> dom (block_leaders cov') =
          dom (block_leaders cov) \<union> (if pj \<and> addr < e then {addr} else {}) \<union> new_leaders load fs e addr"
      and body: "(if \<not> addr < e then Some (Ok () cov)
        else let cov1 = ?c in case load addr of Inl e \<Rightarrow> Some (Throw e cov1)
          | Inr i \<Rightarrow> loop load fs e (addr + instr_size i) (is_jump i)
              (mark_target fs e (jump_target i addr) cov1)) = Some r"
    show "r = Ok () cov' \<longrightarrow> dom (block_leaders cov') =
        dom (block_leaders cov) \<union> (if pj \<and> addr < e then {addr} else {}) \<union> new_leaders load fs e addr"
    proof (cases "addr < e")
      case True
      show ?thesis
      proof (cases "load addr")
        case (Inr i)
        have "loop load fs e (addr + instr_size i) (is_jump i) (mark_target fs e (jump_target i addr) ?c) = Some r"
          using body True Inr by (simp add: Let_def)
        from IH [OF this] show ?thesis
          unfolding leader_by_step new_leaders_step [where load = load, OF Inr True]
          using True by auto
      qed (use body True in \<open>auto simp: Let_def\<close>)
    qed (use body in \<open>auto simp: new_leaders_done\<close>)
  qed
  then show ?thesis by simp
qed

section \<open>Blocks of lines and functions\<close>

text \<open>No line ever has a block, since \<open>add_block\<close> extends a copy.\<close>

definition no_line_blocks :: "Coverage \<Rightarrow> bool" where
  "no_line_blocks cov \<longleftrightarrow>
     (\<forall>p sf l sl. map_of (cov_files cov) p = Some sf \<longrightarrow> map_of (sf_lines sf) l = Some sl \<longrightarrow> sl_blocks sl = [])"

lemma no_line_blocks_new: "no_line_blocks newCoverage"
  by (simp add: no_line_blocks_def newCoverage_def)

lemma no_line_blocks_steps:
  assumes "no_line_blocks cov"
  shows "wp (add_source addr s) (\<lambda>_. no_line_blocks) (\<lambda>_. no_line_blocks) cov"
    and "wp (add_block a b s) (\<lambda>_. no_line_blocks) (\<lambda>_. no_line_blocks) cov"
    and "wp (cover_source addr t y i s) (\<lambda>_. no_line_blocks) (\<lambda>_. no_line_blocks) cov"
  using assms
  by (auto simp: add_source_def add_source_file_def add_block_def cover_source_def wp_simps Let_def
      no_line_blocks_def newSourceFile_def newSourceLine_def bbl_add_def put_file_def cover_line_def
      split: option.split if_splits)

text \<open>The report of a line, therefore, never looks at a block.\<close>

lemma line_report_ignores_blocks:
  assumes "no_line_blocks cov" and "map_of (cov_files cov) p = Some sf" and "map_of (sf_lines sf) l = Some sl"
  shows "j_unexecuted_block (SourceLine_to_json (cov_blocks cov) sl) \<longleftrightarrow> sl_exec_count sl = 0"
  using assms by (fastforce simp: no_line_blocks_def SourceLine_to_json_def has_unexecuted_block_def)

text \<open>
  \<open>visit\<close> marks the first block that contains the address.  \<open>add_func\<close> appends one block per source
  of an address, so that the block of the second source has the range of the first and is never
  marked.
\<close>

lemma bbl_visit_shadowed:
  assumes "i < length bs" and "j < i" and "bb_start (bs ! j) \<le> addr" and "addr < bb_end (bs ! j)"
  shows "bbl_visit addr bs ! i = bs ! i"
  using assms
proof (induction bs arbitrary: i j)
  case (Cons b bs)
  then obtain i' where i: "i = Suc i'" by (cases i) auto
  with Cons show ?case by (cases j) auto
qed simp

lemma add_block_shadows:
  "bbl_visit addr (snd (bbl_add a b (snd (bbl_add a b bs)))) ! Suc (length bs) =
     \<lparr>bb_start = a, bb_end = b, bb_visited = False\<rparr>"
proof (cases "a \<le> addr \<and> addr < b")
  case True
  then show ?thesis
    by (subst bbl_visit_shadowed [where j = "length bs"]) (auto simp: bbl_add_def nth_append)
next
  case False
  then show ?thesis by (induction bs) (auto simp: bbl_add_def nth_append)
qed

section \<open>Properties\<close>

lemma for_funcs_returns:
  "(\<And>lo hi cov. (lo, hi) \<in> set fs \<Longrightarrow> \<exists>r. f lo hi cov = Some r) \<Longrightarrow> \<exists>r. for_funcs f fs cov = Some r"
proof (induction f fs cov rule: for_funcs.induct)
  case (2 f lo hi fs cov)
  then obtain r where r: "f lo hi cov = Some r" by force
  with 2 show ?case by (cases r) force+
qed simp

lemma all_known_extends: "all_known srcs load e a cov \<Longrightarrow> extends cov cov' \<Longrightarrow> all_known srcs load e a cov'"
  unfolding all_known_def by (blast dest: extendsD)

lemma for_funcs_known:
  assumes "for_funcs (add_func srcs load) fs cov = Some (Ok () cov')"
  shows "extends cov cov' \<and> (\<forall>(lo, hi) \<in> set fs. all_known srcs load hi lo cov')"
  using assms
proof (induction "add_func srcs load" fs cov rule: for_funcs.induct)
  case (2 lo hi fs cov)
  then obtain cov1 where c: "add_func srcs load lo hi cov = Some (Ok () cov1)"
      "for_funcs (add_func srcs load) fs cov1 = Some (Ok () cov')"
    by (auto split: option.splits outcome.splits)
  note k = add_func_loop_knows [OF c(1) [unfolded add_func_def]] and IH = 2(1) [OF c(1) refl c(2)]
  show ?case using k IH extends_trans all_known_extends by fastforce
qed auto

text \<open>
  C22: Once \<open>Coverage::init\<close> has run over the functions of the program, \<open>cover\<close> succeeds on every
  instruction of these functions: each file, function and line its debug information names is in
  the tables, so that none of the lookups with \<open>at\<close> throws.  The call leaves the tables able to
  cover what they could cover before.
\<close>

theorem cover_after_init:
  assumes "cov_init srcs load funcs newCoverage = Some (Ok () cov)"
    and "(lo, hi) \<in> set funcs" and "instr_at load hi lo addr" and "srcs addr = Inr ss"
  shows "\<exists>cov'. cover srcs addr tainted symbolic init cov = Ok () cov' \<and>
           (\<forall>s. coverable cov' s = coverable cov s)"
proof -
  from assms(1) obtain cov1 where "for_funcs (add_func srcs load) funcs cov1 = Some (Ok () cov)"
    by (auto simp: cov_init_def split: option.splits outcome.splits)
  from for_funcs_known [OF this] assms(2) have "all_known srcs load hi lo cov" by auto
  then have "\<forall>s \<in> set ss. coverable cov s"
    using assms(3,4) by (auto simp: all_known_def coverable_def)
  from wp_total [OF cover_wp [where srcs = srcs, OF assms(4) this]] show ?thesis by auto
qed

text \<open>A function of two instructions: a no-op and a branch back to it.\<close>

definition ex_load :: "u64 \<Rightarrow> error + u32" where
  "ex_load a = (if a = 0x104 then Inr 0xFE000EE3 else Inr 0x13)"

definition ex_source :: SourceInfo where
  "ex_source = \<lparr>symbol_name = ''f'', source_path = ''a.c'', si_line = 3, si_column = 1\<rparr>"

definition is_ok :: "('a, 's) outcome option \<Rightarrow> bool" where
  "is_ok r = (case r of Some (Ok _ _) \<Rightarrow> True | _ \<Rightarrow> False)"

lemma is_okE: "is_ok r \<Longrightarrow> (\<And>x s. r = Some (Ok x s) \<Longrightarrow> P) \<Longrightarrow> P"
  by (auto simp: is_ok_def split: option.splits outcome.splits)

lemma ex_init_ok:
  "is_ok (cov_init (\<lambda>_. Inr [ex_source]) ex_load [(0x100, 0x108)] newCoverage)"
  "is_ok (init_basic_blocks ex_load 0x100 0x108 newCoverage)"
  by code_simp+

lemma ex_instr_at: "instr_at ex_load 0x108 0x100 0x104"
proof (rule instr_at.later)
  show "instr_at ex_load 0x108 (0x100 + instr_size 0x13) 0x104"
    using instr_at.here [of "0x104" "0x108" ex_load] by (simp add: instr_size_def is_compressed_def quadrant_def BIT_RANGE_def)
qed (simp_all add: ex_load_def)

theorem cover_after_init_witness:
  "\<exists>cov cov'. cov_init (\<lambda>_. Inr [ex_source]) ex_load [(0x100, 0x108)] newCoverage = Some (Ok () cov) \<and>
     cover (\<lambda>_. Inr [ex_source]) 0x104 False True False cov = Ok () cov'"
proof -
  obtain cov where c: "cov_init (\<lambda>_. Inr [ex_source]) ex_load [(0x100, 0x108)] newCoverage = Some (Ok () cov)"
    using ex_init_ok(1) by (auto elim: is_okE)
  from cover_after_init [OF c _ ex_instr_at] show ?thesis using c by fastforce
qed

text \<open>
  C29: The two passes over a function end, whatever the memory and the debug information answer,
  when the function ends at least four bytes below the top of the address space (above that the
  address would wrap around).
\<close>

theorem cov_init_terminates:
  assumes "\<forall>(lo, hi) \<in> set funcs. hi \<le> - 4"
  shows "\<exists>r. cov_init srcs load funcs cov = Some r"
proof -
  obtain r where r: "for_funcs (init_basic_blocks load) funcs cov = Some r"
    using for_funcs_returns [of funcs "init_basic_blocks load"] leaders_loop_returns assms
    by (fastforce simp: init_basic_blocks_def)
  show ?thesis
  proof (cases r)
    case (Ok x c)
    then show ?thesis
      using r for_funcs_returns [of funcs "add_func srcs load" c] add_func_loop_returns assms
      by (fastforce simp: cov_init_def add_func_def)
  qed (simp add: cov_init_def r)
qed

theorem cov_init_terminates_witness:
  "\<exists>r. cov_init (\<lambda>_. Inr [ex_source]) ex_load [(0x100, 0x108), (0x200, 0x300)] newCoverage = Some r"
  by (rule cov_init_terminates) simp



end
