(* ===== verification/RV_CSR.thy ===== *)
theory RV_CSR
  imports RV_Instr
begin

text \<open>
  The control and status registers (\<open>core/rv32/csr.h\<close>, with \<open>trap.h\<close> and \<open>irq_if.h\<close>): the
  registers with their bit fields as a record, the address map of \<open>csr_table\<close> as pointers into
  that record, and the masks with which the core reads and writes them.
\<close>

section \<open>Bit fields\<close>

text \<open>
  A bit field of a \<open>union\<close> is its position and width; \<open>bget\<close> reads it and \<open>bput\<close> assigns it, an
  assignment keeping the bits of the value that fit.
\<close>

type_synonym bitfield = "nat \<times> nat"

definition bget :: "bitfield \<Rightarrow> u32 \<Rightarrow> u32" where
  "bget f r = take_bit (snd f) (drop_bit (fst f) r)"

definition bput :: "bitfield \<Rightarrow> u32 \<Rightarrow> u32 \<Rightarrow> u32" where
  "bput f v r = (r AND NOT (push_bit (fst f) (mask (snd f)))) OR push_bit (fst f) (take_bit (snd f) v)"

abbreviation uie :: bitfield where "uie \<equiv> (0, 1)"
abbreviation sie :: bitfield where "sie \<equiv> (1, 1)"
abbreviation mie :: bitfield where "mie \<equiv> (3, 1)"
abbreviation upie :: bitfield where "upie \<equiv> (4, 1)"
abbreviation spie :: bitfield where "spie \<equiv> (5, 1)"
abbreviation mpie :: bitfield where "mpie \<equiv> (7, 1)"
abbreviation spp :: bitfield where "spp \<equiv> (8, 1)"
abbreviation mpp :: bitfield where "mpp \<equiv> (11, 2)"
abbreviation fs :: bitfield where "fs \<equiv> (13, 2)"
abbreviation mprv :: bitfield where "mprv \<equiv> (17, 1)"
abbreviation sum_bit :: bitfield where "sum_bit \<equiv> (18, 1)"
abbreviation mxr :: bitfield where "mxr \<equiv> (19, 1)"
abbreviation tvm :: bitfield where "tvm \<equiv> (20, 1)"
abbreviation tw :: bitfield where "tw \<equiv> (21, 1)"
abbreviation tsr :: bitfield where "tsr \<equiv> (22, 1)"
abbreviation sd :: bitfield where "sd \<equiv> (31, 1)"

abbreviation tvec_mode :: bitfield where "tvec_mode \<equiv> (0, 2)"
abbreviation tvec_base :: bitfield where "tvec_base \<equiv> (2, 30)"
abbreviation exception_code :: bitfield where "exception_code \<equiv> (0, 31)"
abbreviation cause_interrupt :: bitfield where "cause_interrupt \<equiv> (31, 1)"

abbreviation usip :: bitfield where "usip \<equiv> (0, 1)"
abbreviation ssip :: bitfield where "ssip \<equiv> (1, 1)"
abbreviation msip :: bitfield where "msip \<equiv> (3, 1)"
abbreviation utip :: bitfield where "utip \<equiv> (4, 1)"
abbreviation stip :: bitfield where "stip \<equiv> (5, 1)"
abbreviation mtip :: bitfield where "mtip \<equiv> (7, 1)"
abbreviation ueip :: bitfield where "ueip \<equiv> (8, 1)"
abbreviation seip :: bitfield where "seip \<equiv> (9, 1)"
abbreviation meip :: bitfield where "meip \<equiv> (11, 1)"

abbreviation counter_CY :: bitfield where "counter_CY \<equiv> (0, 1)"
abbreviation counter_IR :: bitfield where "counter_IR \<equiv> (2, 1)"
abbreviation satp_ppn :: bitfield where "satp_ppn \<equiv> (0, 22)"
abbreviation satp_mode :: bitfield where "satp_mode \<equiv> (31, 1)"
abbreviation fflags :: bitfield where "fflags \<equiv> (0, 5)"
abbreviation frm :: bitfield where "frm \<equiv> (5, 3)"

section \<open>Privilege levels and exception codes\<close>

type_synonym PrivilegeLevel = u32

abbreviation MachineMode :: PrivilegeLevel where "MachineMode \<equiv> 3"
abbreviation SupervisorMode :: PrivilegeLevel where "SupervisorMode \<equiv> 1"
abbreviation UserMode :: PrivilegeLevel where "UserMode \<equiv> 0"
abbreviation NoneMode :: PrivilegeLevel where "NoneMode \<equiv> - 1"

definition is_valid_privilege_level :: "PrivilegeLevel \<Rightarrow> bool" where
  "is_valid_privilege_level mode \<longleftrightarrow>
     mode = MachineMode \<or> mode = SupervisorMode \<or> mode = UserMode"

abbreviation EXC_U_SOFTWARE_INTERRUPT :: u32 where "EXC_U_SOFTWARE_INTERRUPT \<equiv> 0"
abbreviation EXC_S_SOFTWARE_INTERRUPT :: u32 where "EXC_S_SOFTWARE_INTERRUPT \<equiv> 1"
abbreviation EXC_M_SOFTWARE_INTERRUPT :: u32 where "EXC_M_SOFTWARE_INTERRUPT \<equiv> 3"
abbreviation EXC_U_TIMER_INTERRUPT :: u32 where "EXC_U_TIMER_INTERRUPT \<equiv> 4"
abbreviation EXC_S_TIMER_INTERRUPT :: u32 where "EXC_S_TIMER_INTERRUPT \<equiv> 5"
abbreviation EXC_M_TIMER_INTERRUPT :: u32 where "EXC_M_TIMER_INTERRUPT \<equiv> 7"
abbreviation EXC_U_EXTERNAL_INTERRUPT :: u32 where "EXC_U_EXTERNAL_INTERRUPT \<equiv> 8"
abbreviation EXC_S_EXTERNAL_INTERRUPT :: u32 where "EXC_S_EXTERNAL_INTERRUPT \<equiv> 9"
abbreviation EXC_M_EXTERNAL_INTERRUPT :: u32 where "EXC_M_EXTERNAL_INTERRUPT \<equiv> 11"
abbreviation EXC_INSTR_ADDR_MISALIGNED :: u32 where "EXC_INSTR_ADDR_MISALIGNED \<equiv> 0"
abbreviation EXC_INSTR_ACCESS_FAULT :: u32 where "EXC_INSTR_ACCESS_FAULT \<equiv> 1"
abbreviation EXC_ILLEGAL_INSTR :: u32 where "EXC_ILLEGAL_INSTR \<equiv> 2"
abbreviation EXC_BREAKPOINT :: u32 where "EXC_BREAKPOINT \<equiv> 3"
abbreviation EXC_LOAD_ADDR_MISALIGNED :: u32 where "EXC_LOAD_ADDR_MISALIGNED \<equiv> 4"
abbreviation EXC_LOAD_ACCESS_FAULT :: u32 where "EXC_LOAD_ACCESS_FAULT \<equiv> 5"
abbreviation EXC_STORE_AMO_ADDR_MISALIGNED :: u32 where "EXC_STORE_AMO_ADDR_MISALIGNED \<equiv> 6"
abbreviation EXC_STORE_AMO_ACCESS_FAULT :: u32 where "EXC_STORE_AMO_ACCESS_FAULT \<equiv> 7"
abbreviation EXC_ECALL_U_MODE :: u32 where "EXC_ECALL_U_MODE \<equiv> 8"
abbreviation EXC_ECALL_S_MODE :: u32 where "EXC_ECALL_S_MODE \<equiv> 9"
abbreviation EXC_ECALL_M_MODE :: u32 where "EXC_ECALL_M_MODE \<equiv> 11"
abbreviation EXC_INSTR_PAGE_FAULT :: u32 where "EXC_INSTR_PAGE_FAULT \<equiv> 12"
abbreviation EXC_LOAD_PAGE_FAULT :: u32 where "EXC_LOAD_PAGE_FAULT \<equiv> 13"
abbreviation EXC_STORE_AMO_PAGE_FAULT :: u32 where "EXC_STORE_AMO_PAGE_FAULT \<equiv> 15"

section \<open>Addresses and masks\<close>

abbreviation CYCLE_ADDR :: u32 where "CYCLE_ADDR \<equiv> 0xC00"
abbreviation CYCLEH_ADDR :: u32 where "CYCLEH_ADDR \<equiv> 0xC80"
abbreviation TIME_ADDR :: u32 where "TIME_ADDR \<equiv> 0xC01"
abbreviation TIMEH_ADDR :: u32 where "TIMEH_ADDR \<equiv> 0xC81"
abbreviation INSTRET_ADDR :: u32 where "INSTRET_ADDR \<equiv> 0xC02"
abbreviation INSTRETH_ADDR :: u32 where "INSTRETH_ADDR \<equiv> 0xC82"
abbreviation MCYCLE_ADDR :: u32 where "MCYCLE_ADDR \<equiv> 0xB00"
abbreviation MCYCLEH_ADDR :: u32 where "MCYCLEH_ADDR \<equiv> 0xB80"
abbreviation MTIME_ADDR :: u32 where "MTIME_ADDR \<equiv> 0xB01"
abbreviation MTIMEH_ADDR :: u32 where "MTIMEH_ADDR \<equiv> 0xB81"
abbreviation MINSTRET_ADDR :: u32 where "MINSTRET_ADDR \<equiv> 0xB02"
abbreviation MINSTRETH_ADDR :: u32 where "MINSTRETH_ADDR \<equiv> 0xB82"
abbreviation TSELECT_ADDR :: u32 where "TSELECT_ADDR \<equiv> 0x7A0"
abbreviation TDATA1_ADDR :: u32 where "TDATA1_ADDR \<equiv> 0x7A1"
abbreviation TDATA2_ADDR :: u32 where "TDATA2_ADDR \<equiv> 0x7A2"
abbreviation TDATA3_ADDR :: u32 where "TDATA3_ADDR \<equiv> 0x7A3"
abbreviation DCSR_ADDR :: u32 where "DCSR_ADDR \<equiv> 0x7B0"
abbreviation DPC_ADDR :: u32 where "DPC_ADDR \<equiv> 0x7B1"
abbreviation DSCRATCH0_ADDR :: u32 where "DSCRATCH0_ADDR \<equiv> 0x7B2"
abbreviation DSCRATCH1_ADDR :: u32 where "DSCRATCH1_ADDR \<equiv> 0x7B3"
abbreviation MVENDORID_ADDR :: u32 where "MVENDORID_ADDR \<equiv> 0xF11"
abbreviation MARCHID_ADDR :: u32 where "MARCHID_ADDR \<equiv> 0xF12"
abbreviation MIMPID_ADDR :: u32 where "MIMPID_ADDR \<equiv> 0xF13"
abbreviation MHARTID_ADDR :: u32 where "MHARTID_ADDR \<equiv> 0xF14"
abbreviation MSTATUS_ADDR :: u32 where "MSTATUS_ADDR \<equiv> 0x300"
abbreviation MISA_ADDR :: u32 where "MISA_ADDR \<equiv> 0x301"
abbreviation MEDELEG_ADDR :: u32 where "MEDELEG_ADDR \<equiv> 0x302"
abbreviation MIDELEG_ADDR :: u32 where "MIDELEG_ADDR \<equiv> 0x303"
abbreviation MIE_ADDR :: u32 where "MIE_ADDR \<equiv> 0x304"
abbreviation MTVEC_ADDR :: u32 where "MTVEC_ADDR \<equiv> 0x305"
abbreviation MCOUNTEREN_ADDR :: u32 where "MCOUNTEREN_ADDR \<equiv> 0x306"
abbreviation MCOUNTINHIBIT_ADDR :: u32 where "MCOUNTINHIBIT_ADDR \<equiv> 0x320"
abbreviation MSCRATCH_ADDR :: u32 where "MSCRATCH_ADDR \<equiv> 0x340"
abbreviation MEPC_ADDR :: u32 where "MEPC_ADDR \<equiv> 0x341"
abbreviation MCAUSE_ADDR :: u32 where "MCAUSE_ADDR \<equiv> 0x342"
abbreviation MTVAL_ADDR :: u32 where "MTVAL_ADDR \<equiv> 0x343"
abbreviation MIP_ADDR :: u32 where "MIP_ADDR \<equiv> 0x344"
abbreviation PMPCFG0_ADDR :: u32 where "PMPCFG0_ADDR \<equiv> 0x3A0"
abbreviation PMPADDR0_ADDR :: u32 where "PMPADDR0_ADDR \<equiv> 0x3B0"
abbreviation SSTATUS_ADDR :: u32 where "SSTATUS_ADDR \<equiv> 0x100"
abbreviation SEDELEG_ADDR :: u32 where "SEDELEG_ADDR \<equiv> 0x102"
abbreviation SIDELEG_ADDR :: u32 where "SIDELEG_ADDR \<equiv> 0x103"
abbreviation SIE_ADDR :: u32 where "SIE_ADDR \<equiv> 0x104"
abbreviation STVEC_ADDR :: u32 where "STVEC_ADDR \<equiv> 0x105"
abbreviation SCOUNTEREN_ADDR :: u32 where "SCOUNTEREN_ADDR \<equiv> 0x106"
abbreviation SSCRATCH_ADDR :: u32 where "SSCRATCH_ADDR \<equiv> 0x140"
abbreviation SEPC_ADDR :: u32 where "SEPC_ADDR \<equiv> 0x141"
abbreviation SCAUSE_ADDR :: u32 where "SCAUSE_ADDR \<equiv> 0x142"
abbreviation STVAL_ADDR :: u32 where "STVAL_ADDR \<equiv> 0x143"
abbreviation SIP_ADDR :: u32 where "SIP_ADDR \<equiv> 0x144"
abbreviation SATP_ADDR :: u32 where "SATP_ADDR \<equiv> 0x180"
abbreviation USTATUS_ADDR :: u32 where "USTATUS_ADDR \<equiv> 0x000"
abbreviation UIE_ADDR :: u32 where "UIE_ADDR \<equiv> 0x004"
abbreviation UTVEC_ADDR :: u32 where "UTVEC_ADDR \<equiv> 0x005"
abbreviation USCRATCH_ADDR :: u32 where "USCRATCH_ADDR \<equiv> 0x040"
abbreviation UEPC_ADDR :: u32 where "UEPC_ADDR \<equiv> 0x041"
abbreviation UCAUSE_ADDR :: u32 where "UCAUSE_ADDR \<equiv> 0x042"
abbreviation UTVAL_ADDR :: u32 where "UTVAL_ADDR \<equiv> 0x043"
abbreviation UIP_ADDR :: u32 where "UIP_ADDR \<equiv> 0x044"
abbreviation FFLAGS_ADDR :: u32 where "FFLAGS_ADDR \<equiv> 0x001"
abbreviation FRM_ADDR :: u32 where "FRM_ADDR \<equiv> 0x002"
abbreviation FCSR_ADDR :: u32 where "FCSR_ADDR \<equiv> 0x003"

abbreviation MIE_MASK :: u32 where "MIE_MASK \<equiv> 0xBBB"
abbreviation SIE_MASK :: u32 where "SIE_MASK \<equiv> 0x333"
abbreviation UIE_MASK :: u32 where "UIE_MASK \<equiv> 0x111"
abbreviation MIP_WRITE_MASK :: u32 where "MIP_WRITE_MASK \<equiv> 0x333"
abbreviation MIP_READ_MASK :: u32 where "MIP_READ_MASK \<equiv> MIE_MASK"
abbreviation SIP_MASK :: u32 where "SIP_MASK \<equiv> 0x3"
abbreviation UIP_MASK :: u32 where "UIP_MASK \<equiv> 0x1"
abbreviation MEDELEG_MASK :: u32 where "MEDELEG_MASK \<equiv> 0xBBFF"
abbreviation MIDELEG_MASK :: u32 where "MIDELEG_MASK \<equiv> MIE_MASK"
abbreviation MTVEC_MASK :: u32 where "MTVEC_MASK \<equiv> 0xFFFFFFFD"
abbreviation MCOUNTEREN_MASK :: u32 where "MCOUNTEREN_MASK \<equiv> 0x7"
abbreviation MCOUNTINHIBIT_MASK :: u32 where "MCOUNTINHIBIT_MASK \<equiv> 0x5"
abbreviation SEDELEG_MASK :: u32 where "SEDELEG_MASK \<equiv> 0xB1FF"
abbreviation SIDELEG_MASK :: u32 where "SIDELEG_MASK \<equiv> MIDELEG_MASK"
abbreviation MSTATUS_MASK :: u32 where "MSTATUS_MASK \<equiv> 0x807FF9BB"
abbreviation SSTATUS_MASK :: u32 where "SSTATUS_MASK \<equiv> 0x800DE133"
abbreviation USTATUS_MASK :: u32 where "USTATUS_MASK \<equiv> 0x11"
abbreviation SATP_MASK :: u32 where "SATP_MASK \<equiv> 0x803FFFFF"
abbreviation SATP_MODE :: u32 where "SATP_MODE \<equiv> 0x80000000"
abbreviation FCSR_MASK :: u32 where "FCSR_MASK \<equiv> 0xFF"

text \<open>The label list \<open>SWITCH_CASE_MATCH_ANY_HPMCOUNTER_RV32\<close>, by its five address ranges.\<close>

definition any_hpmcounter :: "u32 \<Rightarrow> bool" where
  "any_hpmcounter addr \<longleftrightarrow>
     0xC03 \<le> addr \<and> addr \<le> 0xC1F \<or> 0xC83 \<le> addr \<and> addr \<le> 0xC9F \<or>
     0xB03 \<le> addr \<and> addr \<le> 0xB1F \<or> 0xB83 \<le> addr \<and> addr \<le> 0xB9F \<or>
     0x323 \<le> addr \<and> addr \<le> 0x33F"

section \<open>The table\<close>

text \<open>
  One field per register, holding its \<open>reg\<close>.  The arrays \<open>pmpaddr\<close> and \<open>pmpcfg\<close> are functions of
  the index, which the address map keeps below 16 and 4.
\<close>

record csr_table =
  csr_cycle :: u64
  csr_time :: u64
  csr_instret :: u64
  csr_mvendorid :: u32
  csr_marchid :: u32
  csr_mimpid :: u32
  csr_mhartid :: u32
  csr_mstatus :: u32
  csr_misa :: u32
  csr_medeleg :: u32
  csr_mideleg :: u32
  csr_mie :: u32
  csr_mtvec :: u32
  csr_mcounteren :: u32
  csr_mcountinhibit :: u32
  csr_mscratch :: u32
  csr_mepc :: u32
  csr_mcause :: u32
  csr_mtval :: u32
  csr_mip :: u32
  csr_pmpaddr :: "nat \<Rightarrow> u32"
  csr_pmpcfg :: "nat \<Rightarrow> u32"
  csr_sedeleg :: u32
  csr_sideleg :: u32
  csr_stvec :: u32
  csr_scounteren :: u32
  csr_sscratch :: u32
  csr_sepc :: u32
  csr_scause :: u32
  csr_stval :: u32
  csr_satp :: u32
  csr_utvec :: u32
  csr_uscratch :: u32
  csr_uepc :: u32
  csr_ucause :: u32
  csr_utval :: u32
  csr_fcsr :: u32

abbreviation misa_A :: u32 where "misa_A \<equiv> 0x1"
abbreviation misa_C :: u32 where "misa_C \<equiv> 0x4"
abbreviation misa_E :: u32 where "misa_E \<equiv> 0x10"
abbreviation misa_F :: u32 where "misa_F \<equiv> 0x20"
abbreviation misa_I :: u32 where "misa_I \<equiv> 0x100"
abbreviation misa_M :: u32 where "misa_M \<equiv> 0x1000"
abbreviation misa_N :: u32 where "misa_N \<equiv> 0x2000"
abbreviation misa_S :: u32 where "misa_S \<equiv> 0x40000"
abbreviation misa_U :: u32 where "misa_U \<equiv> 0x100000"

definition misa_init :: u32 where
  "misa_init =
     bput (30, 2) 1 (bput (26, 4) 0 (bput (0, 26)
       (misa_I OR misa_M OR misa_A OR misa_F OR misa_C OR misa_N OR misa_U OR misa_S) 0))"

definition misa_extensions :: "csr_table \<Rightarrow> u32" where
  "misa_extensions t = bget (0, 26) (csr_misa t)"

definition has_C_extension :: "csr_table \<Rightarrow> bool" where
  "has_C_extension t \<longleftrightarrow> misa_extensions t AND misa_C \<noteq> 0"

definition has_E_base_isa :: "csr_table \<Rightarrow> bool" where
  "has_E_base_isa t \<longleftrightarrow> misa_extensions t AND misa_E \<noteq> 0"

definition select_E_base_isa :: "csr_table \<Rightarrow> csr_table" where
  "select_E_base_isa t =
     (let t1 = t\<lparr>csr_misa := bput (0, 26) (misa_extensions t AND NOT misa_I) (csr_misa t)\<rparr>
      in t1\<lparr>csr_misa := bput (0, 26) (misa_extensions t1 OR misa_E) (csr_misa t1)\<rparr>)"

definition has_user_mode_extension :: "csr_table \<Rightarrow> bool" where
  "has_user_mode_extension t \<longleftrightarrow> misa_extensions t AND misa_U \<noteq> 0"

definition has_supervisor_mode_extension :: "csr_table \<Rightarrow> bool" where
  "has_supervisor_mode_extension t \<longleftrightarrow> misa_extensions t AND misa_S \<noteq> 0"

definition get_base_address :: "u32 \<Rightarrow> u32" where
  "get_base_address tvec = push_bit 2 (bget tvec_base tvec)"

definition csr_table_init :: csr_table where
  "csr_table_init = \<lparr>
     csr_cycle = 0, csr_time = 0, csr_instret = 0, csr_mvendorid = 0, csr_marchid = 0,
     csr_mimpid = 0, csr_mhartid = 0, csr_mstatus = 0, csr_misa = misa_init, csr_medeleg = 0,
     csr_mideleg = 0, csr_mie = 0, csr_mtvec = 0, csr_mcounteren = 0, csr_mcountinhibit = 0,
     csr_mscratch = 0, csr_mepc = 0, csr_mcause = 0, csr_mtval = 0, csr_mip = 0,
     csr_pmpaddr = (\<lambda>_. 0), csr_pmpcfg = (\<lambda>_. 0), csr_sedeleg = 0, csr_sideleg = 0,
     csr_stvec = 0, csr_scounteren = 0, csr_sscratch = 0, csr_sepc = 0, csr_scause = 0,
     csr_stval = 0, csr_satp = 0, csr_utvec = 0, csr_uscratch = 0, csr_uepc = 0,
     csr_ucause = 0, csr_utval = 0, csr_fcsr = 0\<rparr>"

section \<open>The address map\<close>

text \<open>
  \<open>register_mapping\<close> holds pointers to 32-bit cells; \<open>csr_cell\<close> names the cells.  The halves of a
  64-bit counter are the two \<open>uint32_t\<close> its address is cast to.
\<close>

datatype csr_cell =
    P_cycle | P_cycleh | P_time | P_timeh | P_instret | P_instreth
  | P_mvendorid | P_marchid | P_mimpid | P_mhartid
  | P_mstatus | P_misa | P_medeleg | P_mideleg | P_mie | P_mtvec | P_mcounteren | P_mcountinhibit
  | P_mscratch | P_mepc | P_mcause | P_mtval | P_mip
  | P_pmpaddr nat | P_pmpcfg nat
  | P_sedeleg | P_sideleg | P_stvec | P_scounteren | P_sscratch | P_sepc | P_scause | P_stval
  | P_satp | P_utvec | P_uscratch | P_uepc | P_ucause | P_utval | P_fcsr

definition lo32 :: "u64 \<Rightarrow> u32" where
  "lo32 x = ucast x"

definition hi32 :: "u64 \<Rightarrow> u32" where
  "hi32 x = ucast (drop_bit 32 x)"

definition put_lo32 :: "u32 \<Rightarrow> u64 \<Rightarrow> u64" where
  "put_lo32 v x = push_bit 32 (drop_bit 32 x) OR ucast v"

definition put_hi32 :: "u32 \<Rightarrow> u64 \<Rightarrow> u64" where
  "put_hi32 v x = push_bit 32 (ucast v) OR take_bit 32 x"

fun deref :: "csr_cell \<Rightarrow> csr_table \<Rightarrow> u32" where
  "deref P_cycle t = lo32 (csr_cycle t)"
| "deref P_cycleh t = hi32 (csr_cycle t)"
| "deref P_time t = lo32 (csr_time t)"
| "deref P_timeh t = hi32 (csr_time t)"
| "deref P_instret t = lo32 (csr_instret t)"
| "deref P_instreth t = hi32 (csr_instret t)"
| "deref (P_pmpaddr i) t = csr_pmpaddr t i"
| "deref (P_pmpcfg i) t = csr_pmpcfg t i"
| "deref P_mvendorid t = csr_mvendorid t"
| "deref P_marchid t = csr_marchid t"
| "deref P_mimpid t = csr_mimpid t"
| "deref P_mhartid t = csr_mhartid t"
| "deref P_mstatus t = csr_mstatus t"
| "deref P_misa t = csr_misa t"
| "deref P_medeleg t = csr_medeleg t"
| "deref P_mideleg t = csr_mideleg t"
| "deref P_mie t = csr_mie t"
| "deref P_mtvec t = csr_mtvec t"
| "deref P_mcounteren t = csr_mcounteren t"
| "deref P_mcountinhibit t = csr_mcountinhibit t"
| "deref P_mscratch t = csr_mscratch t"
| "deref P_mepc t = csr_mepc t"
| "deref P_mcause t = csr_mcause t"
| "deref P_mtval t = csr_mtval t"
| "deref P_mip t = csr_mip t"
| "deref P_sedeleg t = csr_sedeleg t"
| "deref P_sideleg t = csr_sideleg t"
| "deref P_stvec t = csr_stvec t"
| "deref P_scounteren t = csr_scounteren t"
| "deref P_sscratch t = csr_sscratch t"
| "deref P_sepc t = csr_sepc t"
| "deref P_scause t = csr_scause t"
| "deref P_stval t = csr_stval t"
| "deref P_satp t = csr_satp t"
| "deref P_utvec t = csr_utvec t"
| "deref P_uscratch t = csr_uscratch t"
| "deref P_uepc t = csr_uepc t"
| "deref P_ucause t = csr_ucause t"
| "deref P_utval t = csr_utval t"
| "deref P_fcsr t = csr_fcsr t"

fun assign_cell :: "csr_cell \<Rightarrow> u32 \<Rightarrow> csr_table \<Rightarrow> csr_table" where
  "assign_cell P_cycle v t = t\<lparr>csr_cycle := put_lo32 v (csr_cycle t)\<rparr>"
| "assign_cell P_cycleh v t = t\<lparr>csr_cycle := put_hi32 v (csr_cycle t)\<rparr>"
| "assign_cell P_time v t = t\<lparr>csr_time := put_lo32 v (csr_time t)\<rparr>"
| "assign_cell P_timeh v t = t\<lparr>csr_time := put_hi32 v (csr_time t)\<rparr>"
| "assign_cell P_instret v t = t\<lparr>csr_instret := put_lo32 v (csr_instret t)\<rparr>"
| "assign_cell P_instreth v t = t\<lparr>csr_instret := put_hi32 v (csr_instret t)\<rparr>"
| "assign_cell (P_pmpaddr i) v t = t\<lparr>csr_pmpaddr := (csr_pmpaddr t)(i := v)\<rparr>"
| "assign_cell (P_pmpcfg i) v t = t\<lparr>csr_pmpcfg := (csr_pmpcfg t)(i := v)\<rparr>"
| "assign_cell P_mvendorid v t = t\<lparr>csr_mvendorid := v\<rparr>"
| "assign_cell P_marchid v t = t\<lparr>csr_marchid := v\<rparr>"
| "assign_cell P_mimpid v t = t\<lparr>csr_mimpid := v\<rparr>"
| "assign_cell P_mhartid v t = t\<lparr>csr_mhartid := v\<rparr>"
| "assign_cell P_mstatus v t = t\<lparr>csr_mstatus := v\<rparr>"
| "assign_cell P_misa v t = t\<lparr>csr_misa := v\<rparr>"
| "assign_cell P_medeleg v t = t\<lparr>csr_medeleg := v\<rparr>"
| "assign_cell P_mideleg v t = t\<lparr>csr_mideleg := v\<rparr>"
| "assign_cell P_mie v t = t\<lparr>csr_mie := v\<rparr>"
| "assign_cell P_mtvec v t = t\<lparr>csr_mtvec := v\<rparr>"
| "assign_cell P_mcounteren v t = t\<lparr>csr_mcounteren := v\<rparr>"
| "assign_cell P_mcountinhibit v t = t\<lparr>csr_mcountinhibit := v\<rparr>"
| "assign_cell P_mscratch v t = t\<lparr>csr_mscratch := v\<rparr>"
| "assign_cell P_mepc v t = t\<lparr>csr_mepc := v\<rparr>"
| "assign_cell P_mcause v t = t\<lparr>csr_mcause := v\<rparr>"
| "assign_cell P_mtval v t = t\<lparr>csr_mtval := v\<rparr>"
| "assign_cell P_mip v t = t\<lparr>csr_mip := v\<rparr>"
| "assign_cell P_sedeleg v t = t\<lparr>csr_sedeleg := v\<rparr>"
| "assign_cell P_sideleg v t = t\<lparr>csr_sideleg := v\<rparr>"
| "assign_cell P_stvec v t = t\<lparr>csr_stvec := v\<rparr>"
| "assign_cell P_scounteren v t = t\<lparr>csr_scounteren := v\<rparr>"
| "assign_cell P_sscratch v t = t\<lparr>csr_sscratch := v\<rparr>"
| "assign_cell P_sepc v t = t\<lparr>csr_sepc := v\<rparr>"
| "assign_cell P_scause v t = t\<lparr>csr_scause := v\<rparr>"
| "assign_cell P_stval v t = t\<lparr>csr_stval := v\<rparr>"
| "assign_cell P_satp v t = t\<lparr>csr_satp := v\<rparr>"
| "assign_cell P_utvec v t = t\<lparr>csr_utvec := v\<rparr>"
| "assign_cell P_uscratch v t = t\<lparr>csr_uscratch := v\<rparr>"
| "assign_cell P_uepc v t = t\<lparr>csr_uepc := v\<rparr>"
| "assign_cell P_ucause v t = t\<lparr>csr_ucause := v\<rparr>"
| "assign_cell P_utval v t = t\<lparr>csr_utval := v\<rparr>"
| "assign_cell P_fcsr v t = t\<lparr>csr_fcsr := v\<rparr>"

definition register_mapping :: "u32 \<Rightarrow> csr_cell option" where
  "register_mapping addr =
     (if PMPADDR0_ADDR \<le> addr \<and> addr < PMPADDR0_ADDR + 16
      then Some (P_pmpaddr (unat (addr - PMPADDR0_ADDR)))
      else if PMPCFG0_ADDR \<le> addr \<and> addr < PMPCFG0_ADDR + 4
      then Some (P_pmpcfg (unat (addr - PMPCFG0_ADDR)))
      else map_of [
        (CYCLE_ADDR, P_cycle),
        (CYCLEH_ADDR, P_cycleh),
        (TIME_ADDR, P_time),
        (TIMEH_ADDR, P_timeh),
        (INSTRET_ADDR, P_instret),
        (INSTRETH_ADDR, P_instreth),
        (MCYCLE_ADDR, P_cycle),
        (MCYCLEH_ADDR, P_cycleh),
        (MTIME_ADDR, P_time),
        (MTIMEH_ADDR, P_timeh),
        (MINSTRET_ADDR, P_instret),
        (MINSTRETH_ADDR, P_instreth),
        (MVENDORID_ADDR, P_mvendorid),
        (MARCHID_ADDR, P_marchid),
        (MIMPID_ADDR, P_mimpid),
        (MHARTID_ADDR, P_mhartid),
        (MSTATUS_ADDR, P_mstatus),
        (MISA_ADDR, P_misa),
        (MEDELEG_ADDR, P_medeleg),
        (MIDELEG_ADDR, P_mideleg),
        (MIE_ADDR, P_mie),
        (MTVEC_ADDR, P_mtvec),
        (MCOUNTEREN_ADDR, P_mcounteren),
        (MCOUNTINHIBIT_ADDR, P_mcountinhibit),
        (MSCRATCH_ADDR, P_mscratch),
        (MEPC_ADDR, P_mepc),
        (MCAUSE_ADDR, P_mcause),
        (MTVAL_ADDR, P_mtval),
        (MIP_ADDR, P_mip),
        (SEDELEG_ADDR, P_sedeleg),
        (SIDELEG_ADDR, P_sideleg),
        (STVEC_ADDR, P_stvec),
        (SCOUNTEREN_ADDR, P_scounteren),
        (SSCRATCH_ADDR, P_sscratch),
        (SEPC_ADDR, P_sepc),
        (SCAUSE_ADDR, P_scause),
        (STVAL_ADDR, P_stval),
        (SATP_ADDR, P_satp),
        (UTVEC_ADDR, P_utvec),
        (USCRATCH_ADDR, P_uscratch),
        (UEPC_ADDR, P_uepc),
        (UCAUSE_ADDR, P_ucause),
        (UTVAL_ADDR, P_utval),
        (FCSR_ADDR, P_fcsr)] addr)"

definition is_valid_csr32_addr :: "u32 \<Rightarrow> bool" where
  "is_valid_csr32_addr addr \<longleftrightarrow> register_mapping addr \<noteq> None"

text \<open>\<open>ensure\<close> aborts on an address that is not mapped: the result \<open>None\<close>.\<close>

definition default_write32 :: "u32 \<Rightarrow> u32 \<Rightarrow> csr_table \<Rightarrow> csr_table option" where
  "default_write32 addr v t =
     (case register_mapping addr of None \<Rightarrow> None | Some p \<Rightarrow> Some (assign_cell p v t))"

definition default_read32 :: "u32 \<Rightarrow> csr_table \<Rightarrow> u32 option" where
  "default_read32 addr t =
     (case register_mapping addr of None \<Rightarrow> None | Some p \<Rightarrow> Some (deref p t))"

lemma lo32_put [simp]:
  "lo32 (put_lo32 v x) = v" "lo32 (put_hi32 v x) = lo32 x"
  "hi32 (put_hi32 v x) = v" "hi32 (put_lo32 v x) = hi32 x"
  by (rule bit_word_eqI; auto simp: lo32_def hi32_def put_lo32_def put_hi32_def bit_simps
      dest: bit_imp_le_length)+

lemma deref_assign_same [simp]: "deref p (assign_cell p v t) = v"
  by (cases p) simp_all

lemma deref_assign_other: "p \<noteq> q \<Longrightarrow> deref q (assign_cell p v t) = deref q t"
  by (cases p; cases q; simp)

lemma bget_bput_same [simp]:
  "fst f + snd f \<le> 32 \<Longrightarrow> bget f (bput f v r) = take_bit (snd f) v"
  by (rule bit_word_eqI) (auto simp: bget_def bput_def bit_simps)

lemma bget_bput_other [simp]:
  "fst f + snd f \<le> fst g \<or> fst g + snd g \<le> fst f \<Longrightarrow> bget f (bput g v r) = bget f r"
  by (rule bit_word_eqI) (auto simp: bget_def bput_def bit_simps dest: bit_imp_le_length)

lemma take_bit_bget [simp]: "take_bit (snd f) (bget f r) = bget f r"
  by (simp add: bget_def)

lemma bput_bget [simp]: "bput f (bget f r) r = r"
  by (rule bit_word_eqI) (auto simp: bget_def bput_def bit_simps)

end
