(* ===== verification/Klee_Expr.thy ===== *)
theory Klee_Expr
  imports Prelude
begin

text \<open>
  KLEE's expression language as clover uses it (\<open>include/klee/Expr/Expr.h\<close>,
  \<open>lib/Expr/Expr.cpp\<close>): the constants (\<open>ConstantExpr\<close>, a width and a value), the expression
  tree, \<open>getWidth\<close>, the folding operations of \<open>ConstantExpr\<close> and the expression that reads a
  fresh symbolic array.  \<open>eval\<close> is the meaning of an expression under an assignment of bytes to
  arrays, the reference against which the expression builders are proved, and \<open>wt\<close> is the
  width discipline KLEE's expressions follow: operands of equal width, as the classes assert,
  extensions that do not narrow, and no division of truth values (a divisor that is never zero
  would be the constant 1 there, as \<open>UDivExpr_create\<close> notes).

  Sharing (\<open>ref<Expr>\<close>, hashes) is not visible to clover and not modelled; every read has an
  empty update list, since clover never extends one.
\<close>

section \<open>Kinds and expressions\<close>

datatype binkind =
    Add | Sub | Mul | UDiv | SDiv | URem | SRem
  | And | Or | Xor | Shl | LShr | AShr
  | Eq | Ne | Ult | Ule | Ugt | Uge | Slt | Sle | Sgt | Sge

datatype cexpr = CE (ce_width: width) (ce_value: int)

datatype array = Array (arr_name: string) (arr_size: nat)

datatype expr =
    ConstantExpr cexpr
  | NotOptimizedExpr expr
  | ReadExpr array expr
  | SelectExpr expr expr expr
  | ConcatExpr expr expr
  | ExtractExpr expr nat width
  | ZExtExpr expr width
  | SExtExpr expr width
  | NotExpr expr
  | BinaryExpr binkind expr expr

definition isCmpKind :: "binkind \<Rightarrow> bool" where
  "isCmpKind k \<longleftrightarrow> k \<in> {Eq, Ne, Ult, Ule, Ugt, Uge, Slt, Sle, Sgt, Sge}"

definition isDivKind :: "binkind \<Rightarrow> bool" where
  "isDivKind k \<longleftrightarrow> k \<in> {UDiv, SDiv, URem, SRem}"

definition isConstant :: "expr \<Rightarrow> bool" where
  "isConstant e = (case e of ConstantExpr _ \<Rightarrow> True | _ \<Rightarrow> False)"

fun getWidth :: "expr \<Rightarrow> width" where
  "getWidth (ConstantExpr c) = ce_width c"
| "getWidth (NotOptimizedExpr e) = getWidth e"
| "getWidth (ReadExpr a i) = 8"
| "getWidth (SelectExpr c t f) = getWidth t"
| "getWidth (ConcatExpr l r) = getWidth l + getWidth r"
| "getWidth (ExtractExpr e off w) = w"
| "getWidth (ZExtExpr e w) = w"
| "getWidth (SExtExpr e w) = w"
| "getWidth (NotExpr e) = getWidth e"
| "getWidth (BinaryExpr k l r) = (if isCmpKind k then 1 else getWidth l)"

section \<open>Constants\<close>

definition CE_alloc :: "int \<Rightarrow> width \<Rightarrow> cexpr" where
  "CE_alloc v w = CE w (take_bit w v)"

definition isZero :: "cexpr \<Rightarrow> bool" where
  "isZero c \<longleftrightarrow> ce_value c = 0"

definition isOne :: "cexpr \<Rightarrow> bool" where
  "isOne c \<longleftrightarrow> ce_value c = 1"

definition isTrue :: "cexpr \<Rightarrow> bool" where
  "isTrue c \<longleftrightarrow> ce_width c = 1 \<and> ce_value c \<noteq> 0"

definition isFalse :: "cexpr \<Rightarrow> bool" where
  "isFalse c \<longleftrightarrow> ce_width c = 1 \<and> ce_value c = 0"

definition isAllOnes :: "cexpr \<Rightarrow> bool" where
  "isAllOnes c \<longleftrightarrow> ce_value c = mask (ce_width c)"

definition CE_Concat :: "cexpr \<Rightarrow> cexpr \<Rightarrow> cexpr" where
  "CE_Concat l r =
     (let W = ce_width l + ce_width r
      in CE W (take_bit W (push_bit (ce_width r) (ce_value l)) OR ce_value r))"

definition CE_Extract :: "cexpr \<Rightarrow> nat \<Rightarrow> width \<Rightarrow> cexpr" where
  "CE_Extract c off W =
     CE_alloc (take_bit (ce_width c) (drop_bit off (sgn_of (ce_width c) (ce_value c)))) W"

definition CE_ZExt :: "cexpr \<Rightarrow> width \<Rightarrow> cexpr" where
  "CE_ZExt c W = CE_alloc (ce_value c) W"

definition CE_SExt :: "cexpr \<Rightarrow> width \<Rightarrow> cexpr" where
  "CE_SExt c W = CE_alloc (sgn_of (ce_width c) (ce_value c)) W"

definition CE_Neg :: "cexpr \<Rightarrow> cexpr" where
  "CE_Neg c = CE_alloc (- ce_value c) (ce_width c)"

definition CE_Not :: "cexpr \<Rightarrow> cexpr" where
  "CE_Not c = CE_alloc (NOT (ce_value c)) (ce_width c)"

text \<open>
  The shift amounts saturate at the width, as \<open>APInt::shl(const APInt &)\<close> and its siblings read
  them; division truncates towards zero for the signed kinds.  A zero divisor is an assertion of
  \<open>APInt\<close>; the callers in \<open>Clover_Concolic\<close> carry it as an error.
\<close>

fun ap_binop :: "binkind \<Rightarrow> width \<Rightarrow> int \<Rightarrow> int \<Rightarrow> int" where
  "ap_binop Add w a b = take_bit w (a + b)"
| "ap_binop Sub w a b = take_bit w (a - b)"
| "ap_binop Mul w a b = take_bit w (a * b)"
| "ap_binop UDiv w a b = take_bit w (a div b)"
| "ap_binop SDiv w a b =
     take_bit w (sgn (sgn_of w a) * sgn (sgn_of w b) * (\<bar>sgn_of w a\<bar> div \<bar>sgn_of w b\<bar>))"
| "ap_binop URem w a b = take_bit w (a mod b)"
| "ap_binop SRem w a b = take_bit w (sgn (sgn_of w a) * (\<bar>sgn_of w a\<bar> mod \<bar>sgn_of w b\<bar>))"
| "ap_binop And w a b = a AND b"
| "ap_binop Or w a b = a OR b"
| "ap_binop Xor w a b = a XOR b"
| "ap_binop Shl w a b = take_bit w (push_bit (nat (min (int w) b)) a)"
| "ap_binop LShr w a b = drop_bit (nat (min (int w) b)) a"
| "ap_binop AShr w a b = take_bit w (drop_bit (nat (min (int w) b)) (sgn_of w a))"
| "ap_binop Eq w a b = of_bool (a = b)"
| "ap_binop Ne w a b = of_bool (a \<noteq> b)"
| "ap_binop Ult w a b = of_bool (a < b)"
| "ap_binop Ule w a b = of_bool (a \<le> b)"
| "ap_binop Ugt w a b = of_bool (b < a)"
| "ap_binop Uge w a b = of_bool (b \<le> a)"
| "ap_binop Slt w a b = of_bool (sgn_of w a < sgn_of w b)"
| "ap_binop Sle w a b = of_bool (sgn_of w a \<le> sgn_of w b)"
| "ap_binop Sgt w a b = of_bool (sgn_of w b < sgn_of w a)"
| "ap_binop Sge w a b = of_bool (sgn_of w b \<le> sgn_of w a)"

definition CE_binop :: "binkind \<Rightarrow> cexpr \<Rightarrow> cexpr \<Rightarrow> cexpr" where
  "CE_binop k l r =
     CE (if isCmpKind k then 1 else ce_width l)
        (ap_binop k (ce_width l) (ce_value l) (ce_value r))"

section \<open>The read of a symbolic array\<close>

text \<open>
  \<open>ReadExpr::create\<close> with an empty update list on a symbolic array allocates the node, and so
  does \<open>ConcatExpr::create\<close> on reads and concatenations of reads (its two rewrites apply to
  constants and to extracts only); \<open>create4\<close> and \<open>create8\<close> nest to the right.
\<close>

definition readByte :: "array \<Rightarrow> nat \<Rightarrow> expr" where
  "readByte a i = ReadExpr a (ConstantExpr (CE_alloc (int i) 32))"

fun concatReads :: "array \<Rightarrow> nat \<Rightarrow> expr" where
  "concatReads a 0 = readByte a 0"
| "concatReads a (Suc n) = ConcatExpr (readByte a (Suc n)) (concatReads a n)"

definition createTempRead :: "array \<Rightarrow> width \<Rightarrow> expr option" where
  "createTempRead a w =
     (if w = 1 then Some (ExtractExpr (readByte a 0) 0 1)
      else if w = 8 then Some (readByte a 0)
      else if w = 16 then Some (concatReads a 1)
      else if w = 32 then Some (concatReads a 3)
      else if w = 64 then Some (concatReads a 7)
      else None)"

section \<open>Meaning and well-formedness\<close>

type_synonym assignment = "array \<Rightarrow> nat \<Rightarrow> int"

fun eval :: "assignment \<Rightarrow> expr \<Rightarrow> int" where
  "eval \<sigma> (ConstantExpr c) = ce_value c"
| "eval \<sigma> (NotOptimizedExpr e) = eval \<sigma> e"
| "eval \<sigma> (ReadExpr a i) = take_bit 8 (\<sigma> a (nat (eval \<sigma> i)))"
| "eval \<sigma> (SelectExpr c t f) = (if eval \<sigma> c \<noteq> 0 then eval \<sigma> t else eval \<sigma> f)"
| "eval \<sigma> (ConcatExpr l r) = push_bit (getWidth r) (eval \<sigma> l) OR eval \<sigma> r"
| "eval \<sigma> (ExtractExpr e off w) = take_bit w (drop_bit off (eval \<sigma> e))"
| "eval \<sigma> (ZExtExpr e w) = take_bit w (eval \<sigma> e)"
| "eval \<sigma> (SExtExpr e w) = take_bit w (sgn_of (getWidth e) (eval \<sigma> e))"
| "eval \<sigma> (NotExpr e) = take_bit (getWidth e) (NOT (eval \<sigma> e))"
| "eval \<sigma> (BinaryExpr k l r) = ap_binop k (getWidth l) (eval \<sigma> l) (eval \<sigma> r)"

definition ce_ok :: "cexpr \<Rightarrow> bool" where
  "ce_ok c \<longleftrightarrow> 0 < ce_width c \<and> fits (ce_width c) (ce_value c)"

fun wt :: "expr \<Rightarrow> bool" where
  "wt (ConstantExpr c) = ce_ok c"
| "wt (NotOptimizedExpr e) = wt e"
| "wt (ReadExpr a i) \<longleftrightarrow> wt i \<and> getWidth i = 32"
| "wt (SelectExpr c t f) = (wt c \<and> wt t \<and> wt f \<and> getWidth c = 1 \<and> getWidth t = getWidth f)"
| "wt (ConcatExpr l r) = (wt l \<and> wt r)"
| "wt (ExtractExpr e off w) = (wt e \<and> 0 < w \<and> off + w \<le> getWidth e)"
| "wt (ZExtExpr e w) = (wt e \<and> getWidth e \<le> w)"
| "wt (SExtExpr e w) = (wt e \<and> getWidth e \<le> w)"
| "wt (NotExpr e) = wt e"
| "wt (BinaryExpr k l r) =
     (wt l \<and> wt r \<and> getWidth l = getWidth r \<and> (isDivKind k \<longrightarrow> 1 < getWidth l))"

lemma ce_ok_CE [simp]: "ce_ok (CE w v) \<longleftrightarrow> 0 < w \<and> fits w v"
  by (simp add: ce_ok_def)

lemma ce_width_simps [simp, width_simps]:
  "ce_width (CE_alloc v w) = w"
  "ce_width (CE_Concat l r) = ce_width l + ce_width r"
  "ce_width (CE_Extract c off w) = w"
  "ce_width (CE_ZExt c w) = w"
  "ce_width (CE_SExt c w) = w"
  "ce_width (CE_Neg c) = ce_width c"
  "ce_width (CE_Not c) = ce_width c"
  "ce_width (CE_binop k l r) = (if isCmpKind k then 1 else ce_width l)"
  by (simp_all add: CE_alloc_def CE_Concat_def Let_def CE_Extract_def CE_ZExt_def CE_SExt_def
      CE_Neg_def CE_Not_def CE_binop_def)

lemma ce_value_alloc [simp]: "ce_value (CE_alloc v w) = take_bit w v"
  by (simp add: CE_alloc_def)

lemma ce_value_binop [simp]:
  "ce_value (CE_binop k l r) = ap_binop k (ce_width l) (ce_value l) (ce_value r)"
  by (simp add: CE_binop_def)

lemma ce_value_unops [simp]:
  "ce_value (CE_Neg c) = take_bit (ce_width c) (- ce_value c)"
  "ce_value (CE_Not c) = take_bit (ce_width c) (NOT (ce_value c))"
  "ce_value (CE_ZExt c w) = take_bit w (ce_value c)"
  "ce_value (CE_SExt c w) = take_bit w (sgn_of (ce_width c) (ce_value c))"
  by (simp_all add: CE_Neg_def CE_Not_def CE_ZExt_def CE_SExt_def)

lemma isCmpKind_simps [simp]:
  "\<not> isCmpKind Add" "\<not> isCmpKind Sub" "\<not> isCmpKind Mul" "\<not> isCmpKind UDiv"
  "\<not> isCmpKind SDiv" "\<not> isCmpKind URem" "\<not> isCmpKind SRem" "\<not> isCmpKind And"
  "\<not> isCmpKind Or" "\<not> isCmpKind Xor" "\<not> isCmpKind Shl" "\<not> isCmpKind LShr"
  "\<not> isCmpKind AShr" "isCmpKind Eq" "isCmpKind Ne" "isCmpKind Ult" "isCmpKind Ule"
  "isCmpKind Ugt" "isCmpKind Uge" "isCmpKind Slt" "isCmpKind Sle" "isCmpKind Sgt" "isCmpKind Sge"
  by (simp_all add: isCmpKind_def)

lemma isDivKind_simps [simp]:
  "\<not> isDivKind Add" "\<not> isDivKind Sub" "\<not> isDivKind Mul" "isDivKind UDiv"
  "isDivKind SDiv" "isDivKind URem" "isDivKind SRem" "\<not> isDivKind And"
  "\<not> isDivKind Or" "\<not> isDivKind Xor" "\<not> isDivKind Shl" "\<not> isDivKind LShr"
  "\<not> isDivKind AShr" "\<not> isDivKind Eq" "\<not> isDivKind Ne" "\<not> isDivKind Ult" "\<not> isDivKind Ule"
  "\<not> isDivKind Ugt" "\<not> isDivKind Uge" "\<not> isDivKind Slt" "\<not> isDivKind Sle" "\<not> isDivKind Sgt"
  "\<not> isDivKind Sge"
  by (simp_all add: isDivKind_def)

lemma ap_binop_fits:
  assumes "0 < w" and "fits w a" and "fits w b"
  shows "fits (if isCmpKind k then 1 else w) (ap_binop k w a b)"
  using assms
  by (cases k) (simp_all add: isCmpKind_def fits_and fits_or fits_xor fits_drop_bit)

lemma eval_fits: "wt e \<Longrightarrow> 0 < getWidth e \<and> fits (getWidth e) (eval \<sigma> e)"
proof (induction e)
  case (ConcatExpr l r)
  then show ?case by (simp add: fits_concat)
next
  case (BinaryExpr k l r)
  then show ?case using ap_binop_fits [of "getWidth l" "eval \<sigma> l" "eval \<sigma> r" k] by simp
next
  case (ReadExpr a i)
  then show ?case using fits_take_bit [of 8] by simp
qed (auto simp: ce_ok_def)

lemmas wt_fits = eval_fits [THEN conjunct2]
lemmas wt_width_pos = eval_fits [THEN conjunct1]

lemma wt_nonneg: "wt e \<Longrightarrow> 0 \<le> eval \<sigma> e"
  by (blast intro: fits_nonneg wt_fits)

lemma ce_ok_binop [wf_intros]:
  assumes "ce_ok a" and "ce_ok b" and "ce_width a = ce_width b"
  shows "ce_ok (CE_binop k a b)"
  using assms ap_binop_fits [of "ce_width a" "ce_value a" "ce_value b" k]
  by (auto simp: ce_ok_def)

lemma ce_ok_alloc [wf_intros]: "0 < w \<Longrightarrow> ce_ok (CE_alloc v w)"
  by (simp add: ce_ok_def)

lemma ce_ok_unops [wf_intros]:
  "ce_ok c \<Longrightarrow> ce_ok (CE_Neg c)"
  "ce_ok c \<Longrightarrow> ce_ok (CE_Not c)"
  "0 < w \<Longrightarrow> ce_ok (CE_ZExt c w)"
  "0 < w \<Longrightarrow> ce_ok (CE_SExt c w)"
  "0 < w \<Longrightarrow> ce_ok (CE_Extract c off w)"
  by (simp_all add: CE_Neg_def CE_Not_def CE_ZExt_def CE_SExt_def CE_Extract_def ce_ok_def
      fits_take_bit_le del: take_bit_take_bit)

lemma ce_ok_ext [wf_intros]:
  assumes "ce_ok c" and "ce_width c \<le> w"
  shows "ce_ok (CE_ZExt c w)" and "ce_ok (CE_SExt c w)"
  using assms by (auto simp: ce_ok_def [of c] intro!: ce_ok_unops)

lemma CE_Concat_value:
  assumes "ce_ok a" and "ce_ok b"
  shows "ce_value (CE_Concat a b) = push_bit (ce_width b) (ce_value a) OR ce_value b"
    and "ce_ok (CE_Concat a b)"
proof -
  have "take_bit (ce_width a + ce_width b) (push_bit (ce_width b) (ce_value a))
      = push_bit (ce_width b) (ce_value a)"
    using assms(1) by (simp add: ce_ok_def take_bit_push_bit fits_def)
  then show *: "ce_value (CE_Concat a b) = push_bit (ce_width b) (ce_value a) OR ce_value b"
    by (simp add: CE_Concat_def Let_def)
  show "ce_ok (CE_Concat a b)"
    using assms * by (simp add: ce_ok_def fits_concat)
qed

lemma CE_Extract_value:
  assumes "ce_ok c" and "0 < W" and "off + W \<le> ce_width c"
  shows "ce_value (CE_Extract c off W) = take_bit W (drop_bit off (ce_value c))"
proof -
  let ?w = "ce_width c" and ?v = "ce_value c"
  have "bit (take_bit W (take_bit ?w (drop_bit off (sgn_of ?w ?v)))) n
      = bit (take_bit W (drop_bit off ?v)) n" for n
  proof (cases "n < W")
    case True
    then have "off + n \<noteq> ?w - 1 \<Longrightarrow> off + n < ?w - 1" and "off + n < ?w"
      using assms(3) by linarith+
    then show ?thesis using True
      by (cases "off + n = ?w - 1")
         (simp_all add: bit_take_bit_iff bit_drop_bit_eq sgn_of_def bit_signed_take_bit_iff min_def)
  qed (simp add: bit_take_bit_iff)
  then show ?thesis
    by (simp add: CE_Extract_def bit_eq_iff)
qed

end
