(* ===== verification/Klee_ExprBuilder.thy ===== *)
theory Klee_ExprBuilder
  imports Klee_Expr
begin

text \<open>
  KLEE's expression builders (\<open>lib/Expr/ExprBuilder.cpp\<close>): the default builder that allocates,
  the constant folding builder over it and the simplifying builder over that, in the chain
  \<open>clover::Solver\<close> builds.  In each \<open>ConstantSpecializedExprBuilder\<close> the calls through
  \<open>Builder\<close> go to the builder being defined and those through \<open>Base\<close> to the one below.  The
  locale \<open>expr_builder\<close> states what a client of the interface relies on; every builder is an
  interpretation of it.
\<close>

section \<open>Casts\<close>

text \<open>\<open>dyn_cast<ConstantExpr>\<close>, and the \<open>getKind\<close> test followed by \<open>cast<BinaryExpr>\<close>.\<close>

definition dc_const :: "expr \<Rightarrow> cexpr option" where
  "dc_const e = (case e of ConstantExpr c \<Rightarrow> Some c | _ \<Rightarrow> None)"

definition dc_bin :: "binkind \<Rightarrow> expr \<Rightarrow> (expr \<times> expr) option" where
  "dc_bin k e = (case e of BinaryExpr k' l r \<Rightarrow> (if k' = k then Some (l, r) else None) | _ \<Rightarrow> None)"

definition dc_not :: "expr \<Rightarrow> expr option" where
  "dc_not e = (case e of NotExpr x \<Rightarrow> Some x | _ \<Rightarrow> None)"

lemma dc_const_simps [simp]:
  "dc_const (ConstantExpr c) = Some c"
  "dc_const (BinaryExpr k l r) = None"
  "dc_const (NotExpr e) = None"
  by (simp_all add: dc_const_def)

lemma dc_const_Some: "dc_const e = Some c \<longleftrightarrow> e = ConstantExpr c"
  by (cases e) (auto simp: dc_const_def)

lemma dc_const_isConstant: "dc_const e = None \<longleftrightarrow> \<not> isConstant e"
  by (cases e) (auto simp: dc_const_def isConstant_def)

lemma dc_bin_Some: "dc_bin k e = Some p \<longleftrightarrow> e = BinaryExpr k (fst p) (snd p)"
  by (cases e) (auto simp: dc_bin_def)

lemma dc_not_Some: "dc_not e = Some x \<longleftrightarrow> e = NotExpr x"
  by (cases e) (auto simp: dc_not_def)

lemma isConstant_iff: "isConstant e \<longleftrightarrow> (\<exists>c. e = ConstantExpr c)"
  by (cases e) (auto simp: isConstant_def)

lemmas dc_simps = dc_const_Some dc_bin_Some dc_not_Some

section \<open>The default builder\<close>

definition db_bin :: "binkind \<Rightarrow> expr \<Rightarrow> expr \<Rightarrow> expr" where
  "db_bin k l r = BinaryExpr k l r"

definition db_Not :: "expr \<Rightarrow> expr" where
  "db_Not e = NotExpr e"

definition db_Concat :: "expr \<Rightarrow> expr \<Rightarrow> expr" where
  "db_Concat l r = ConcatExpr l r"

definition db_Extract :: "expr \<Rightarrow> nat \<Rightarrow> width \<Rightarrow> expr" where
  "db_Extract e off w = ExtractExpr e off w"

definition db_ZExt :: "expr \<Rightarrow> width \<Rightarrow> expr" where
  "db_ZExt e w = ZExtExpr e w"

definition db_SExt :: "expr \<Rightarrow> width \<Rightarrow> expr" where
  "db_SExt e w = SExtExpr e w"

definition db_Select :: "expr \<Rightarrow> expr \<Rightarrow> expr \<Rightarrow> expr" where
  "db_Select c t f = SelectExpr c t f"

lemmas db_defs = db_bin_def db_Not_def db_Concat_def db_Extract_def db_ZExt_def db_SExt_def
  db_Select_def

section \<open>The constant folding builder: sums and differences\<close>

text \<open>
  \<open>add_weight\<close> counts the \<open>Add\<close>/\<open>Sub\<close> nodes and the non-constant operands of a sum; it is what
  the rewriting of sums decreases, see the termination proof below.
\<close>

fun add_weight :: "expr \<Rightarrow> nat" where
  "add_weight (ConstantExpr c) = 0"
| "add_weight (BinaryExpr k l r) = (if k = Add \<or> k = Sub then add_weight l + add_weight r + 1 else 1)"
| "add_weight _ = 1"

function
  cf_Add :: "expr \<Rightarrow> expr \<Rightarrow> expr" and
  cf_Add_CN :: "cexpr \<Rightarrow> expr \<Rightarrow> expr" and
  cf_Add_NN :: "expr \<Rightarrow> expr \<Rightarrow> expr" and
  cf_Sub :: "expr \<Rightarrow> expr \<Rightarrow> expr" and
  cf_Sub_CN :: "cexpr \<Rightarrow> expr \<Rightarrow> expr" and
  cf_Sub_NN :: "expr \<Rightarrow> expr \<Rightarrow> expr"
where
  "cf_Add l r =
     (case dc_const l of
        Some a \<Rightarrow>
          (case dc_const r of
             Some b \<Rightarrow> ConstantExpr (CE_binop Add a b)
           | None \<Rightarrow> cf_Add_CN a r)
      | None \<Rightarrow>
          (case dc_const r of
             Some b \<Rightarrow> cf_Add_CN b l
           | None \<Rightarrow> cf_Add_NN l r))"
| "cf_Add_CN a r =
     (if isZero a then r
      else case dc_bin Add r of
        Some p \<Rightarrow>
          (case dc_const (fst p) of
             Some c \<Rightarrow> cf_Add (ConstantExpr (CE_binop Add a c)) (snd p)
           | None \<Rightarrow>
               (case dc_const (snd p) of
                  Some c \<Rightarrow> cf_Add (ConstantExpr (CE_binop Add a c)) (fst p)
                | None \<Rightarrow> db_bin Add (ConstantExpr a) r))
      | None \<Rightarrow>
          (case dc_bin Sub r of
             Some p \<Rightarrow>
               (case dc_const (fst p) of
                  Some c \<Rightarrow> cf_Sub (ConstantExpr (CE_binop Add a c)) (snd p)
                | None \<Rightarrow>
                    (case dc_const (snd p) of
                       Some c \<Rightarrow> cf_Add (ConstantExpr (CE_binop Sub a c)) (fst p)
                     | None \<Rightarrow> db_bin Add (ConstantExpr a) r))
           | None \<Rightarrow> db_bin Add (ConstantExpr a) r))"
| "cf_Add_NN l r =
     (if isConstant l then db_bin Add l r \<comment> \<open>not reached: \<open>l\<close> is a \<open>NonConstantExpr\<close>\<close>
      else case dc_bin Add l of
        Some p \<Rightarrow> cf_Add (fst p) (cf_Add (snd p) r)
      | None \<Rightarrow>
          (case dc_bin Sub l of
             Some p \<Rightarrow> cf_Add (fst p) (cf_Sub r (snd p))
           | None \<Rightarrow>
               (case dc_bin Add r of
                  Some p \<Rightarrow>
                    (case dc_const (fst p) of
                       Some c \<Rightarrow> cf_Add (ConstantExpr c) (cf_Add l (snd p))
                     | None \<Rightarrow>
                         (case dc_const (snd p) of
                            Some c \<Rightarrow> cf_Add (ConstantExpr c) (cf_Add l (fst p))
                          | None \<Rightarrow> db_bin Add l r))
                | None \<Rightarrow>
                    (case dc_bin Sub r of
                       Some p \<Rightarrow>
                         (case dc_const (fst p) of
                            Some c \<Rightarrow> cf_Add (ConstantExpr c) (cf_Sub l (snd p))
                          | None \<Rightarrow>
                              (case dc_const (snd p) of
                                 Some c \<Rightarrow> cf_Add (ConstantExpr (CE_Neg c)) (cf_Add l (fst p))
                               | None \<Rightarrow> db_bin Add l r))
                     | None \<Rightarrow> db_bin Add l r))))"
| "cf_Sub l r =
     (case dc_const l of
        Some a \<Rightarrow>
          (case dc_const r of
             Some b \<Rightarrow> ConstantExpr (CE_binop Sub a b)
           | None \<Rightarrow> cf_Sub_CN a r)
      | None \<Rightarrow>
          (case dc_const r of
             Some b \<Rightarrow> cf_Add_CN (CE_Neg b) l
           | None \<Rightarrow> cf_Sub_NN l r))"
| "cf_Sub_CN a r =
     (case dc_bin Add r of
        Some p \<Rightarrow>
          (case dc_const (fst p) of
             Some c \<Rightarrow> cf_Sub (ConstantExpr (CE_binop Sub a c)) (snd p)
           | None \<Rightarrow>
               (case dc_const (snd p) of
                  Some c \<Rightarrow> cf_Sub (ConstantExpr (CE_binop Sub a c)) (fst p)
                | None \<Rightarrow> db_bin Sub (ConstantExpr a) r))
      | None \<Rightarrow>
          (case dc_bin Sub r of
             Some p \<Rightarrow>
               (case dc_const (fst p) of
                  Some c \<Rightarrow> cf_Add (ConstantExpr (CE_binop Sub a c)) (snd p)
                | None \<Rightarrow>
                    (case dc_const (snd p) of
                       Some c \<Rightarrow> cf_Sub (ConstantExpr (CE_binop Add a c)) (fst p)
                     | None \<Rightarrow> db_bin Sub (ConstantExpr a) r))
           | None \<Rightarrow> db_bin Sub (ConstantExpr a) r))"
| "cf_Sub_NN l r =
     (if isConstant l then db_bin Sub l r \<comment> \<open>not reached: \<open>l\<close> is a \<open>NonConstantExpr\<close>\<close>
      else case dc_bin Add l of
        Some p \<Rightarrow> cf_Add (fst p) (cf_Sub (snd p) r)
      | None \<Rightarrow>
          (case dc_bin Sub l of
             Some p \<Rightarrow> cf_Sub (fst p) (cf_Add (snd p) r)
           | None \<Rightarrow>
               (case dc_bin Add r of
                  Some p \<Rightarrow>
                    (case dc_const (fst p) of
                       Some c \<Rightarrow> cf_Add (ConstantExpr (CE_Neg c)) (cf_Sub l (snd p))
                     | None \<Rightarrow>
                         (case dc_const (snd p) of
                            Some c \<Rightarrow> cf_Add (ConstantExpr (CE_Neg c)) (cf_Sub l (fst p))
                          | None \<Rightarrow> db_bin Sub l r))
                | None \<Rightarrow>
                    (case dc_bin Sub r of
                       Some p \<Rightarrow>
                         (case dc_const (fst p) of
                            Some c \<Rightarrow> cf_Add (ConstantExpr (CE_Neg c)) (cf_Add l (snd p))
                          | None \<Rightarrow>
                              (case dc_const (snd p) of
                                 Some c \<Rightarrow> cf_Add (ConstantExpr c) (cf_Sub l (fst p))
                               | None \<Rightarrow> db_bin Sub l r))
                     | None \<Rightarrow> db_bin Sub l r))))"
  by pat_completeness auto

text \<open>
  The algebraic steps the two overload sets take, one rule per comment of the source:
  \<open>sums k l r e\<close> says that \<open>e\<close> is a rewriting of \<open>l\<close> \<open>k\<close> \<open>r\<close>.  Both the weight bound used for
  the termination and the soundness of the builder are rule inductions over it.
\<close>

inductive sums :: "binkind \<Rightarrow> expr \<Rightarrow> expr \<Rightarrow> expr \<Rightarrow> bool" where
  sums_base: "k = Add \<or> k = Sub \<Longrightarrow> sums k l r (BinaryExpr k l r)"
| sums_fold: "k = Add \<or> k = Sub \<Longrightarrow> dc_const l = Some a \<Longrightarrow> dc_const r = Some b \<Longrightarrow>
    sums k l r (ConstantExpr (CE_binop k a b))"
| sums_zero: "isZero a \<Longrightarrow> sums Add (ConstantExpr a) r r"
| sums_const: "dc_const l = Some a \<Longrightarrow> sums k (ConstantExpr a) r e \<Longrightarrow> sums k l r e"
| sums_comm: "dc_const r = Some b \<Longrightarrow> sums Add (ConstantExpr b) l e \<Longrightarrow> sums Add l r e"
| sums_neg: "dc_const r = Some b \<Longrightarrow> sums Add (ConstantExpr (CE_Neg b)) l e \<Longrightarrow> sums Sub l r e"
| C_p_CpX: "dc_bin Add r = Some p \<Longrightarrow> dc_const (fst p) = Some c \<Longrightarrow>
    sums Add (ConstantExpr (CE_binop Add a c)) (snd p) e \<Longrightarrow> sums Add (ConstantExpr a) r e"
| C_p_XpC: "dc_bin Add r = Some p \<Longrightarrow> dc_const (snd p) = Some c \<Longrightarrow>
    sums Add (ConstantExpr (CE_binop Add a c)) (fst p) e \<Longrightarrow> sums Add (ConstantExpr a) r e"
| C_p_CmX: "dc_bin Sub r = Some p \<Longrightarrow> dc_const (fst p) = Some c \<Longrightarrow>
    sums Sub (ConstantExpr (CE_binop Add a c)) (snd p) e \<Longrightarrow> sums Add (ConstantExpr a) r e"
| C_p_XmC: "dc_bin Sub r = Some p \<Longrightarrow> dc_const (snd p) = Some c \<Longrightarrow>
    sums Add (ConstantExpr (CE_binop Sub a c)) (fst p) e \<Longrightarrow> sums Add (ConstantExpr a) r e"
| C_m_CpX: "dc_bin Add r = Some p \<Longrightarrow> dc_const (fst p) = Some c \<Longrightarrow>
    sums Sub (ConstantExpr (CE_binop Sub a c)) (snd p) e \<Longrightarrow> sums Sub (ConstantExpr a) r e"
| C_m_XpC: "dc_bin Add r = Some p \<Longrightarrow> dc_const (snd p) = Some c \<Longrightarrow>
    sums Sub (ConstantExpr (CE_binop Sub a c)) (fst p) e \<Longrightarrow> sums Sub (ConstantExpr a) r e"
| C_m_CmX: "dc_bin Sub r = Some p \<Longrightarrow> dc_const (fst p) = Some c \<Longrightarrow>
    sums Add (ConstantExpr (CE_binop Sub a c)) (snd p) e \<Longrightarrow> sums Sub (ConstantExpr a) r e"
| C_m_XmC: "dc_bin Sub r = Some p \<Longrightarrow> dc_const (snd p) = Some c \<Longrightarrow>
    sums Sub (ConstantExpr (CE_binop Add a c)) (fst p) e \<Longrightarrow> sums Sub (ConstantExpr a) r e"
| XpY_p_Z: "dc_bin Add l = Some p \<Longrightarrow> sums Add (snd p) r m \<Longrightarrow> sums Add (fst p) m e \<Longrightarrow>
    sums Add l r e"
| XmY_p_Z: "dc_bin Sub l = Some p \<Longrightarrow> sums Sub r (snd p) m \<Longrightarrow> sums Add (fst p) m e \<Longrightarrow>
    sums Add l r e"
| X_p_CpY: "dc_bin Add r = Some p \<Longrightarrow> dc_const (fst p) = Some c \<Longrightarrow> sums Add l (snd p) m \<Longrightarrow>
    sums Add (ConstantExpr c) m e \<Longrightarrow> sums Add l r e"
| X_p_YpC: "dc_bin Add r = Some p \<Longrightarrow> dc_const (snd p) = Some c \<Longrightarrow> sums Add l (fst p) m \<Longrightarrow>
    sums Add (ConstantExpr c) m e \<Longrightarrow> sums Add l r e"
| X_p_CmY: "dc_bin Sub r = Some p \<Longrightarrow> dc_const (fst p) = Some c \<Longrightarrow> sums Sub l (snd p) m \<Longrightarrow>
    sums Add (ConstantExpr c) m e \<Longrightarrow> sums Add l r e"
| X_p_YmC: "dc_bin Sub r = Some p \<Longrightarrow> dc_const (snd p) = Some c \<Longrightarrow> sums Add l (fst p) m \<Longrightarrow>
    sums Add (ConstantExpr (CE_Neg c)) m e \<Longrightarrow> sums Add l r e"
| XpY_m_Z: "dc_bin Add l = Some p \<Longrightarrow> sums Sub (snd p) r m \<Longrightarrow> sums Add (fst p) m e \<Longrightarrow>
    sums Sub l r e"
| XmY_m_Z: "dc_bin Sub l = Some p \<Longrightarrow> sums Add (snd p) r m \<Longrightarrow> sums Sub (fst p) m e \<Longrightarrow>
    sums Sub l r e"
| X_m_CpY: "dc_bin Add r = Some p \<Longrightarrow> dc_const (fst p) = Some c \<Longrightarrow> sums Sub l (snd p) m \<Longrightarrow>
    sums Add (ConstantExpr (CE_Neg c)) m e \<Longrightarrow> sums Sub l r e"
| X_m_YpC: "dc_bin Add r = Some p \<Longrightarrow> dc_const (snd p) = Some c \<Longrightarrow> sums Sub l (fst p) m \<Longrightarrow>
    sums Add (ConstantExpr (CE_Neg c)) m e \<Longrightarrow> sums Sub l r e"
| X_m_CmY: "dc_bin Sub r = Some p \<Longrightarrow> dc_const (fst p) = Some c \<Longrightarrow> sums Add l (snd p) m \<Longrightarrow>
    sums Add (ConstantExpr (CE_Neg c)) m e \<Longrightarrow> sums Sub l r e"
| X_m_YmC: "dc_bin Sub r = Some p \<Longrightarrow> dc_const (snd p) = Some c \<Longrightarrow> sums Sub l (fst p) m \<Longrightarrow>
    sums Add (ConstantExpr c) m e \<Longrightarrow> sums Sub l r e"

abbreviation (input) cf_dom where
  "cf_dom \<equiv> cf_Add_cf_Add_CN_cf_Add_NN_cf_Sub_cf_Sub_CN_cf_Sub_NN_dom"

lemmas cf_pinduct = cf_Add_cf_Add_CN_cf_Add_NN_cf_Sub_cf_Sub_CN_cf_Sub_NN.pinduct

lemma cf_sums_dom:
  "cf_dom (Inl (Inl (l, r))) \<Longrightarrow>
     sums Add l r (cf_Add l r)"
  "cf_dom (Inl (Inr (Inl (a, r)))) \<Longrightarrow>
     sums Add (ConstantExpr a) r (cf_Add_CN a r)"
  "cf_dom (Inl (Inr (Inr (l, r)))) \<Longrightarrow>
     sums Add l r (cf_Add_NN l r)"
  "cf_dom (Inr (Inl (l, r))) \<Longrightarrow>
     sums Sub l r (cf_Sub l r)"
  "cf_dom (Inr (Inr (Inl (a, r)))) \<Longrightarrow>
     sums Sub (ConstantExpr a) r (cf_Sub_CN a r)"
  "cf_dom (Inr (Inr (Inr (l, r)))) \<Longrightarrow>
     sums Sub l r (cf_Sub_NN l r)"
proof (induction l r and a r and l r and l r and a r and l r rule: cf_pinduct)
  case (1 l r)
  show ?case unfolding cf_Add.psimps [OF "1.hyps"] db_bin_def
    by (simp split: option.split del: split_paired_All split_paired_Ex)
       (blast intro: sums_fold sums_const [OF _ "1.IH"(3)] sums_comm [OF _ "1.IH"(2)] "1.IH"(1))
next
  case (2 a r)
  show ?case unfolding cf_Add_CN.psimps [OF "2.hyps"] db_bin_def
    by (simp split: option.split del: split_paired_All split_paired_Ex)
       (blast intro: sums_base sums_zero C_p_XmC [OF _ _ "2.IH"(1)]
        C_p_CmX [OF _ _ "2.IH"(2)]
        C_p_XpC [OF _ _ "2.IH"(3)]
        C_p_CpX [OF _ _ "2.IH"(4)])
next
  case (3 l r)
  show ?case unfolding cf_Add_NN.psimps [OF "3.hyps"] db_bin_def
    by (simp split: option.split del: split_paired_All split_paired_Ex)
       (blast intro: sums_base X_p_YmC [OF _ _ "3.IH"(1) "3.IH"(2)]
        X_p_CmY [OF _ _ "3.IH"(3) "3.IH"(4)]
        X_p_YpC [OF _ _ "3.IH"(5) "3.IH"(6)]
        X_p_CpY [OF _ _ "3.IH"(7) "3.IH"(8)]
        XmY_p_Z [OF _ "3.IH"(9) "3.IH"(10)]
        XpY_p_Z [OF _ "3.IH"(11) "3.IH"(12)])
next
  case (4 l r)
  show ?case unfolding cf_Sub.psimps [OF "4.hyps"] db_bin_def
    by (simp split: option.split del: split_paired_All split_paired_Ex)
       (blast intro: sums_fold sums_const [OF _ "4.IH"(3)] sums_neg [OF _ "4.IH"(2)] "4.IH"(1))
next
  case (5 a r)
  show ?case unfolding cf_Sub_CN.psimps [OF "5.hyps"] db_bin_def
    by (simp split: option.split del: split_paired_All split_paired_Ex)
       (blast intro: sums_base C_m_XmC [OF _ _ "5.IH"(1)]
        C_m_CmX [OF _ _ "5.IH"(2)]
        C_m_XpC [OF _ _ "5.IH"(3)]
        C_m_CpX [OF _ _ "5.IH"(4)])
next
  case (6 l r)
  show ?case unfolding cf_Sub_NN.psimps [OF "6.hyps"] db_bin_def
    by (simp split: option.split del: split_paired_All split_paired_Ex)
       (blast intro: sums_base X_m_YmC [OF _ _ "6.IH"(1) "6.IH"(2)]
        X_m_CmY [OF _ _ "6.IH"(3) "6.IH"(4)]
        X_m_YpC [OF _ _ "6.IH"(5) "6.IH"(6)]
        X_m_CpY [OF _ _ "6.IH"(7) "6.IH"(8)]
        XmY_m_Z [OF _ "6.IH"(9) "6.IH"(10)]
        XpY_m_Z [OF _ "6.IH"(11) "6.IH"(12)])
qed

lemma sums_weight: "sums k l r e \<Longrightarrow> add_weight e \<le> add_weight l + add_weight r + 1"
  by (induction rule: sums.induct) (auto simp: dc_simps)

lemma add_weight_pos: "\<not> isConstant e \<Longrightarrow> 0 < add_weight e"
  by (cases e) (auto simp: isConstant_def)

lemmas cf_weight = cf_sums_dom [THEN sums_weight]

lemma cf_total: "cf_dom x"
proof (rule spec [of _ x], rule "cf_Add_cf_Add_CN_cf_Add_NN_cf_Sub_cf_Sub_CN_cf_Sub_NN.termination"
    [of "measures [case_sum (case_sum (\<lambda>(l,r). add_weight l + add_weight r)
        (case_sum (\<lambda>(a,r). add_weight r) (\<lambda>(l,r). add_weight l + add_weight r)))
        (case_sum (\<lambda>(l,r). add_weight l + add_weight r)
        (case_sum (\<lambda>(a,r). add_weight r) (\<lambda>(l,r). add_weight l + add_weight r))),
      case_sum (case_sum (\<lambda>(l,r). add_weight l) (case_sum (\<lambda>(a,r). 0) (\<lambda>(l,r). add_weight l)))
        (case_sum (\<lambda>(l,r). add_weight l) (case_sum (\<lambda>(a,r). 0) (\<lambda>(l,r). add_weight l))),
      case_sum (case_sum (\<lambda>_. 1) (\<lambda>_. 0)) (case_sum (\<lambda>_. 1) (\<lambda>_. 0))]"], goal_cases)
  case 1 show ?case by simp
qed (force simp: dc_simps dc_const_isConstant dest: cf_weight add_weight_pos)+

termination cf_Add
  by (blast intro: cf_total)

lemmas cf_rec = cf_Add.simps cf_Add_CN.simps cf_Add_NN.simps cf_Sub.simps cf_Sub_CN.simps
  cf_Sub_NN.simps
declare cf_rec [simp del]

lemma cf_sums:
  "sums Add l r (cf_Add l r)"
  "sums Add (ConstantExpr a) r (cf_Add_CN a r)"
  "sums Add l r (cf_Add_NN l r)"
  "sums Sub l r (cf_Sub l r)"
  "sums Sub (ConstantExpr a) r (cf_Sub_CN a r)"
  "sums Sub l r (cf_Sub_NN l r)"
  by (rule cf_sums_dom, rule cf_total)+

lemma sums_sound:
  assumes "sums k l r e" "wt l" "wt r" "getWidth l = w" "getWidth r = w"
  shows "wt e \<and> getWidth e = w \<and> eval \<sigma> e = ap_binop k w (eval \<sigma> l) (eval \<sigma> r)"
  using assms
proof (induction rule: sums.induct)
  case (sums_zero a r)
  then show ?case using wt_fits [of r \<sigma>] by (simp add: isZero_def take_bit_fits)
next
  case (sums_base k l r)
  then show ?case by (elim disjE) simp_all
next
  case (sums_fold k l a r b)
  then show ?case by (elim disjE) (simp_all add: dc_simps ce_ok_binop)
qed (simp_all add: dc_simps ce_ok_binop ce_ok_unops algebra_simps)

section \<open>The dispatch on constants\<close>

text \<open>
  \<open>ConstantSpecializedExprBuilder\<close>: two constants are folded, a constant and a non-constant
  operand select one of the overloads \<open>CN\<close>, \<open>NC\<close> and \<open>NN\<close> of the specialised builder.
\<close>

definition cs_bin :: "binkind \<Rightarrow> (cexpr \<Rightarrow> expr \<Rightarrow> expr) \<Rightarrow> (expr \<Rightarrow> cexpr \<Rightarrow> expr) \<Rightarrow>
    (expr \<Rightarrow> expr \<Rightarrow> expr) \<Rightarrow> expr \<Rightarrow> expr \<Rightarrow> expr" where
  "cs_bin k CN NC NN l r =
     (case dc_const l of
        Some a \<Rightarrow>
          (case dc_const r of
             Some b \<Rightarrow> ConstantExpr (CE_binop k a b)
           | None \<Rightarrow> CN a r)
      | None \<Rightarrow>
          (case dc_const r of
             Some b \<Rightarrow> NC l b
           | None \<Rightarrow> NN l r))"

definition cs_Not :: "(expr \<Rightarrow> expr) \<Rightarrow> expr \<Rightarrow> expr" where
  "cs_Not N e =
     (case dc_not e of
        Some x \<Rightarrow> x
      | None \<Rightarrow>
          (case dc_const e of
             Some c \<Rightarrow> ConstantExpr (CE_Not c)
           | None \<Rightarrow> N e))"

definition cs_Concat :: "(expr \<Rightarrow> expr \<Rightarrow> expr) \<Rightarrow> expr \<Rightarrow> expr \<Rightarrow> expr" where
  "cs_Concat B l r =
     (case dc_const l of
        Some a \<Rightarrow>
          (case dc_const r of
             Some b \<Rightarrow> ConstantExpr (CE_Concat a b)
           | None \<Rightarrow> B l r)
      | None \<Rightarrow> B l r)"

definition cs_Extract :: "(expr \<Rightarrow> nat \<Rightarrow> width \<Rightarrow> expr) \<Rightarrow> expr \<Rightarrow> nat \<Rightarrow> width \<Rightarrow> expr" where
  "cs_Extract B e off w =
     (case dc_const e of Some c \<Rightarrow> ConstantExpr (CE_Extract c off w) | None \<Rightarrow> B e off w)"

definition cs_ZExt :: "(expr \<Rightarrow> width \<Rightarrow> expr) \<Rightarrow> expr \<Rightarrow> width \<Rightarrow> expr" where
  "cs_ZExt B e w = (case dc_const e of Some c \<Rightarrow> ConstantExpr (CE_ZExt c w) | None \<Rightarrow> B e w)"

definition cs_SExt :: "(expr \<Rightarrow> width \<Rightarrow> expr) \<Rightarrow> expr \<Rightarrow> width \<Rightarrow> expr" where
  "cs_SExt B e w = (case dc_const e of Some c \<Rightarrow> ConstantExpr (CE_SExt c w) | None \<Rightarrow> B e w)"

definition cs_Select :: "(expr \<Rightarrow> expr \<Rightarrow> expr \<Rightarrow> expr) \<Rightarrow> expr \<Rightarrow> expr \<Rightarrow> expr \<Rightarrow> expr" where
  "cs_Select B c t f =
     (case dc_const c of Some ce \<Rightarrow> (if isTrue ce then t else f) | None \<Rightarrow> B c t f)"

text \<open>\<open>ChainedBuilder\<close>: what a specialised builder does not override goes to \<open>Base\<close>.\<close>

definition cs_chain :: "(binkind \<Rightarrow> expr \<Rightarrow> expr \<Rightarrow> expr) \<Rightarrow> binkind \<Rightarrow> expr \<Rightarrow> expr \<Rightarrow> expr" where
  "cs_chain B k =
     cs_bin k (\<lambda>a r. B k (ConstantExpr a) r) (\<lambda>l b. B k l (ConstantExpr b)) (B k)"

section \<open>The constant folding builder\<close>

definition cf_Mul_CN :: "cexpr \<Rightarrow> expr \<Rightarrow> expr" where
  "cf_Mul_CN a r =
     (if isZero a then ConstantExpr a
      else if isOne a then r
      else db_bin Mul (ConstantExpr a) r)"

definition cf_And_CN :: "cexpr \<Rightarrow> expr \<Rightarrow> expr" where
  "cf_And_CN a r =
     (if isZero a then ConstantExpr a
      else if isAllOnes a then r
      else db_bin And (ConstantExpr a) r)"

definition cf_Or_CN :: "cexpr \<Rightarrow> expr \<Rightarrow> expr" where
  "cf_Or_CN a r =
     (if isZero a then r
      else if isAllOnes a then ConstantExpr a
      else db_bin Or (ConstantExpr a) r)"

definition cf_Xor_CN :: "cexpr \<Rightarrow> expr \<Rightarrow> expr" where
  "cf_Xor_CN a r =
     (if isZero a then r
      else db_bin Xor (ConstantExpr a) r)"

definition cf_Eq_CN :: "cexpr \<Rightarrow> expr \<Rightarrow> expr" where
  "cf_Eq_CN a r =
     (if ce_width a = 1
      then (if isTrue a then r else db_Not r)
      else db_bin Eq (ConstantExpr a) r)"

definition cf_bin :: "binkind \<Rightarrow> expr \<Rightarrow> expr \<Rightarrow> expr" where
  "cf_bin k =
     (case k of
        Add \<Rightarrow> cf_Add
      | Sub \<Rightarrow> cf_Sub
      | Mul \<Rightarrow> cs_bin Mul cf_Mul_CN (\<lambda>l b. cf_Mul_CN b l) (db_bin Mul)
      | And \<Rightarrow> cs_bin And cf_And_CN (\<lambda>l b. cf_And_CN b l) (db_bin And)
      | Or \<Rightarrow> cs_bin Or cf_Or_CN (\<lambda>l b. cf_Or_CN b l) (db_bin Or)
      | Xor \<Rightarrow> cs_bin Xor cf_Xor_CN (\<lambda>l b. cf_Xor_CN b l) (db_bin Xor)
      | Eq \<Rightarrow> cs_bin Eq cf_Eq_CN (\<lambda>l b. cf_Eq_CN b l) (db_bin Eq)
      | _ \<Rightarrow> cs_chain db_bin k)"

definition cf_Not :: "expr \<Rightarrow> expr" where
  "cf_Not = cs_Not db_Not"

definition cf_Concat :: "expr \<Rightarrow> expr \<Rightarrow> expr" where
  "cf_Concat = cs_Concat db_Concat"

definition cf_Extract :: "expr \<Rightarrow> nat \<Rightarrow> width \<Rightarrow> expr" where
  "cf_Extract = cs_Extract db_Extract"

definition cf_ZExt :: "expr \<Rightarrow> width \<Rightarrow> expr" where
  "cf_ZExt = cs_ZExt db_ZExt"

definition cf_SExt :: "expr \<Rightarrow> width \<Rightarrow> expr" where
  "cf_SExt = cs_SExt db_SExt"

definition cf_Select :: "expr \<Rightarrow> expr \<Rightarrow> expr \<Rightarrow> expr" where
  "cf_Select = cs_Select db_Select"

section \<open>The simplifying builder\<close>

definition sb_Eq_CN :: "cexpr \<Rightarrow> expr \<Rightarrow> expr" where
  "sb_Eq_CN a r =
     (if ce_width a = 1
      then (if isTrue a then r else cf_Not r)
      else cf_bin Eq (ConstantExpr a) r)"

definition sb_Eq_NN :: "expr \<Rightarrow> expr \<Rightarrow> expr" where
  "sb_Eq_NN l r = (if l = r then ConstantExpr (CE_alloc 1 1) else cf_bin Eq l r)"

definition sb_Eq :: "expr \<Rightarrow> expr \<Rightarrow> expr" where
  "sb_Eq = cs_bin Eq sb_Eq_CN (\<lambda>l b. sb_Eq_CN b l) sb_Eq_NN"

text \<open>\<open>SimplifyingBuilder::Not\<close> behind the dispatch of \<open>ConstantSpecializedExprBuilder::Not\<close>.\<close>

fun sb_Not :: "expr \<Rightarrow> expr" where
  "sb_Not (NotExpr x) = x"
| "sb_Not (ConstantExpr c) = ConstantExpr (CE_Not c)"
| "sb_Not (BinaryExpr k l r) =
     (if k = Or then cs_chain cf_bin And (sb_Not l) (sb_Not r) else cf_Not (BinaryExpr k l r))"
| "sb_Not e = cf_Not e"

definition sb_Ne :: "expr \<Rightarrow> expr \<Rightarrow> expr" where
  "sb_Ne = (let f = \<lambda>l r. sb_Not (sb_Eq l r)
            in cs_bin Ne (\<lambda>a r. f (ConstantExpr a) r) (\<lambda>l b. f l (ConstantExpr b)) f)"

text \<open>\<open>Ugt\<close>, \<open>Uge\<close>, \<open>Sgt\<close>, \<open>Sge\<close>: fold, or build the mirrored comparison \<open>k'\<close>.\<close>

definition sb_swap :: "binkind \<Rightarrow> binkind \<Rightarrow> expr \<Rightarrow> expr \<Rightarrow> expr" where
  "sb_swap k k' =
     (let f = \<lambda>l r. cs_chain cf_bin k' r l
      in cs_bin k (\<lambda>a r. f (ConstantExpr a) r) (\<lambda>l b. f l (ConstantExpr b)) f)"

definition sb_bin :: "binkind \<Rightarrow> expr \<Rightarrow> expr \<Rightarrow> expr" where
  "sb_bin k =
     (case k of
        Eq \<Rightarrow> sb_Eq
      | Ne \<Rightarrow> sb_Ne
      | Ugt \<Rightarrow> sb_swap Ugt Ult
      | Uge \<Rightarrow> sb_swap Uge Ule
      | Sgt \<Rightarrow> sb_swap Sgt Slt
      | Sge \<Rightarrow> sb_swap Sge Sle
      | _ \<Rightarrow> cs_chain cf_bin k)"

definition sb_Concat :: "expr \<Rightarrow> expr \<Rightarrow> expr" where
  "sb_Concat = cs_Concat cf_Concat"

definition sb_Extract :: "expr \<Rightarrow> nat \<Rightarrow> width \<Rightarrow> expr" where
  "sb_Extract = cs_Extract cf_Extract"

definition sb_ZExt :: "expr \<Rightarrow> width \<Rightarrow> expr" where
  "sb_ZExt = cs_ZExt cf_ZExt"

definition sb_SExt :: "expr \<Rightarrow> width \<Rightarrow> expr" where
  "sb_SExt = cs_SExt cf_SExt"

definition sb_Select :: "expr \<Rightarrow> expr \<Rightarrow> expr \<Rightarrow> expr" where
  "sb_Select = cs_Select cf_Select"

section \<open>The interface\<close>

text \<open>\<open>impl e e'\<close>: the built expression \<open>e\<close> is well-formed and means what \<open>e'\<close> does.\<close>

definition impl :: "expr \<Rightarrow> expr \<Rightarrow> bool" where
  "impl e e' \<longleftrightarrow> wt e \<and> getWidth e = getWidth e' \<and> (\<forall>\<sigma>. eval \<sigma> e = eval \<sigma> e')"

lemma impl_refl: "wt e \<Longrightarrow> impl e e"
  by (simp add: impl_def)

lemma impl_trans: "impl e1 e2 \<Longrightarrow> impl e2 e3 \<Longrightarrow> impl e1 e3"
  by (simp add: impl_def)

locale expr_builder =
  fixes Bin :: "binkind \<Rightarrow> expr \<Rightarrow> expr \<Rightarrow> expr"
    and Not :: "expr \<Rightarrow> expr"
    and Concat :: "expr \<Rightarrow> expr \<Rightarrow> expr"
    and Extract :: "expr \<Rightarrow> nat \<Rightarrow> width \<Rightarrow> expr"
    and ZExt SExt :: "expr \<Rightarrow> width \<Rightarrow> expr"
    and Select :: "expr \<Rightarrow> expr \<Rightarrow> expr \<Rightarrow> expr"
  assumes Bin_impl: "wt (BinaryExpr k l r) \<Longrightarrow> impl (Bin k l r) (BinaryExpr k l r)"
    and Not_impl: "wt e \<Longrightarrow> impl (Not e) (NotExpr e)"
    and Concat_impl: "wt l \<Longrightarrow> wt r \<Longrightarrow> impl (Concat l r) (ConcatExpr l r)"
    and Extract_impl: "wt (ExtractExpr e off w) \<Longrightarrow> impl (Extract e off w) (ExtractExpr e off w)"
    and ZExt_impl: "wt (ZExtExpr e w) \<Longrightarrow> impl (ZExt e w) (ZExtExpr e w)"
    and SExt_impl: "wt (SExtExpr e w) \<Longrightarrow> impl (SExt e w) (SExtExpr e w)"
    and Select_impl: "wt (SelectExpr c t f) \<Longrightarrow> impl (Select c t f) (SelectExpr c t f)"

locale folding_builder = expr_builder +
  assumes Bin_const: "isConstant l \<Longrightarrow> isConstant r \<Longrightarrow> isConstant (Bin k l r)"
    and Not_const: "isConstant e \<Longrightarrow> isConstant (Not e)"
    and Concat_const: "isConstant l \<Longrightarrow> isConstant r \<Longrightarrow> isConstant (Concat l r)"
    and Extract_const: "isConstant e \<Longrightarrow> isConstant (Extract e off w)"
    and ZExt_const: "isConstant e \<Longrightarrow> isConstant (ZExt e w)"
    and SExt_const: "isConstant e \<Longrightarrow> isConstant (SExt e w)"

section \<open>Soundness of the dispatch\<close>

text \<open>
  An operand of a well-formed binary node whose overload receives a constant: the facts every
  overload's soundness starts from.
\<close>

lemma cs_bin_impl:
  assumes "wt (BinaryExpr k l r)"
    and "\<And>a. l = ConstantExpr a \<Longrightarrow> impl (CN a r) (BinaryExpr k l r)"
    and "\<And>b. r = ConstantExpr b \<Longrightarrow> impl (NC l b) (BinaryExpr k l r)"
    and "impl (NN l r) (BinaryExpr k l r)"
  shows "impl (cs_bin k CN NC NN l r) (BinaryExpr k l r)"
  using assms
  by (auto simp: cs_bin_def impl_def dc_simps intro: ce_ok_binop split: option.split)

lemma cs_chain_impl:
  assumes "wt (BinaryExpr k l r)"
    and "\<And>l r. wt (BinaryExpr k l r) \<Longrightarrow> impl (B k l r) (BinaryExpr k l r)"
  shows "impl (cs_chain B k l r) (BinaryExpr k l r)"
  unfolding cs_chain_def by (rule cs_bin_impl) (use assms in auto)

lemma fits_1: "fits (Suc 0) v \<longleftrightarrow> v = 0 \<or> v = 1"
  by (auto simp: fits_iff)

lemma Not_double:
  assumes "fits w v"
  shows "take_bit w (NOT (take_bit w (NOT v))) = v"
  using assms by (simp add: fits_bit_iff bit_eq_iff bit_take_bit_iff bit_not_iff) blast

lemma cs_Not_impl:
  assumes "wt e" and "\<And>e. wt e \<Longrightarrow> impl (N e) (NotExpr e)"
  shows "impl (cs_Not N e) (NotExpr e)"
  using assms wt_fits
  by (auto simp: cs_Not_def impl_def dc_simps Not_double ce_ok_unops split: option.split)

lemma cs_Concat_impl:
  assumes "wt l" "wt r" and "\<And>l r. wt l \<Longrightarrow> wt r \<Longrightarrow> impl (B l r) (ConcatExpr l r)"
  shows "impl (cs_Concat B l r) (ConcatExpr l r)"
  using assms by (auto simp: cs_Concat_def impl_def dc_simps CE_Concat_value split: option.split)

lemma cs_Extract_impl:
  assumes "wt (ExtractExpr e off w)"
    and "\<And>e. wt (ExtractExpr e off w) \<Longrightarrow> impl (B e off w) (ExtractExpr e off w)"
  shows "impl (cs_Extract B e off w) (ExtractExpr e off w)"
  using assms
  by (auto simp: cs_Extract_def impl_def dc_simps CE_Extract_value ce_ok_unops split: option.split)

lemma cs_ZExt_impl:
  assumes "wt (ZExtExpr e w)" and "\<And>e. wt (ZExtExpr e w) \<Longrightarrow> impl (B e w) (ZExtExpr e w)"
  shows "impl (cs_ZExt B e w) (ZExtExpr e w)"
  using assms
  by (auto simp: cs_ZExt_def impl_def dc_simps ce_ok_unops intro: ce_ok_ext split: option.split)

lemma cs_SExt_impl:
  assumes "wt (SExtExpr e w)" and "\<And>e. wt (SExtExpr e w) \<Longrightarrow> impl (B e w) (SExtExpr e w)"
  shows "impl (cs_SExt B e w) (SExtExpr e w)"
  using assms
  by (auto simp: cs_SExt_def impl_def dc_simps ce_ok_unops intro: ce_ok_ext split: option.split)

lemma cs_Select_impl:
  assumes "wt (SelectExpr c t f)"
    and "\<And>c. wt (SelectExpr c t f) \<Longrightarrow> impl (B c t f) (SelectExpr c t f)"
  shows "impl (cs_Select B c t f) (SelectExpr c t f)"
  using assms
  by (auto simp: cs_Select_def impl_def dc_simps isTrue_def split: option.split)

lemmas cs_impl = cs_Not_impl cs_Concat_impl cs_Extract_impl cs_ZExt_impl cs_SExt_impl
  cs_Select_impl

interpretation db: expr_builder db_bin db_Not db_Concat db_Extract db_ZExt db_SExt db_Select
  by unfold_locales (auto simp: db_defs intro!: impl_refl)

section \<open>Soundness of the constant folding builder\<close>

lemma and_mask_fits: "fits w v \<Longrightarrow> mask w AND v = v"
  by (simp add: fits_def take_bit_eq_mask and.commute)

lemma or_mask_fits: "fits w v \<Longrightarrow> mask w OR v = (mask w :: int)"
  by (auto simp: fits_bit_iff bit_eq_iff bit_or_iff bit_mask_iff)

lemma cf_Mul_CN_impl:
  assumes "ce_ok a" "wt r" "ce_width a = getWidth r"
  shows "impl (cf_Mul_CN a r) (BinaryExpr Mul (ConstantExpr a) r)"
  using assms wt_fits [of r]
  by (auto simp: cf_Mul_CN_def impl_def isZero_def isOne_def db_bin_def take_bit_fits)

lemma cf_And_CN_impl:
  assumes "ce_ok a" "wt r" "ce_width a = getWidth r"
  shows "impl (cf_And_CN a r) (BinaryExpr And (ConstantExpr a) r)"
  using assms wt_fits [of r]
  by (auto simp: cf_And_CN_def impl_def isZero_def isAllOnes_def db_bin_def and_mask_fits)

lemma cf_Or_CN_impl:
  assumes "ce_ok a" "wt r" "ce_width a = getWidth r"
  shows "impl (cf_Or_CN a r) (BinaryExpr Or (ConstantExpr a) r)"
  using assms wt_fits [of r]
  by (auto simp: cf_Or_CN_def impl_def isZero_def isAllOnes_def db_bin_def or_mask_fits)

lemma cf_Xor_CN_impl:
  assumes "ce_ok a" "wt r" "ce_width a = getWidth r"
  shows "impl (cf_Xor_CN a r) (BinaryExpr Xor (ConstantExpr a) r)"
  using assms by (auto simp: cf_Xor_CN_def impl_def isZero_def db_bin_def)

lemma Eq_Bool_impl:
  assumes "ce_ok a" "wt r" "getWidth r = ce_width a" "impl n (NotExpr r)" "impl e (BinaryExpr Eq (ConstantExpr a) r)"
  shows "impl (if ce_width a = 1 then (if isTrue a then r else n) else e)
          (BinaryExpr Eq (ConstantExpr a) r)"
proof (cases "ce_width a = 1")
  case True
  then have "fits 1 (ce_value a)" and "\<And>\<sigma>. fits 1 (eval \<sigma> r)"
    using assms(1-3) wt_fits [of r] by (auto simp: ce_ok_def)
  then have "ce_value a = 0 \<or> ce_value a = 1" and "\<And>\<sigma>. eval \<sigma> r = 0 \<or> eval \<sigma> r = 1"
    by (simp_all add: fits_1)
  then show ?thesis
  proof (cases "ce_value a = 1")
    case one: True
    have "eval \<sigma> r = of_bool (1 = eval \<sigma> r)" for \<sigma>
      using \<open>\<And>\<sigma>. eval \<sigma> r = 0 \<or> eval \<sigma> r = 1\<close> [of \<sigma>] by auto
    then show ?thesis using assms True one by (simp add: impl_def isTrue_def)
  next
    case False
    have "take_bit 1 (NOT (eval \<sigma> r)) = of_bool (0 = eval \<sigma> r)" for \<sigma>
      using \<open>\<And>\<sigma>. eval \<sigma> r = 0 \<or> eval \<sigma> r = 1\<close> [of \<sigma>] by auto
    then show ?thesis
      using assms True False \<open>ce_value a = 0 \<or> ce_value a = 1\<close> by (simp add: impl_def isTrue_def)
  qed
qed (use assms in simp)

lemma cf_Eq_CN_impl:
  assumes "ce_ok a" "wt r" "ce_width a = getWidth r"
  shows "impl (cf_Eq_CN a r) (BinaryExpr Eq (ConstantExpr a) r)"
  unfolding cf_Eq_CN_def
  by (rule Eq_Bool_impl) (use assms in \<open>auto simp: db_defs intro!: impl_refl\<close>)

text \<open>The commuted overload: the constant is on the right.\<close>

lemma impl_commute:
  assumes "impl e (BinaryExpr k (ConstantExpr b) l)"
    and "getWidth l = ce_width b" and "k \<in> {Add, Mul, And, Or, Xor, Eq}"
  shows "impl e (BinaryExpr k l (ConstantExpr b))"
  using assms by (auto simp: impl_def ac_simps)

lemma cs_bin_commute_impl:
  assumes "wt (BinaryExpr k l r)" and "k \<in> {Mul, And, Or, Xor, Eq}"
    and CN: "\<And>a r. ce_ok a \<Longrightarrow> wt r \<Longrightarrow> ce_width a = getWidth r \<Longrightarrow>
      impl (CN a r) (BinaryExpr k (ConstantExpr a) r)"
    and NN: "impl (NN l r) (BinaryExpr k l r)"
  shows "impl (cs_bin k CN (\<lambda>l b. CN b l) NN l r) (BinaryExpr k l r)"
proof (rule cs_bin_impl)
  fix b assume "r = ConstantExpr b"
  then show "impl (CN b l) (BinaryExpr k l r)"
    using assms(1,2) CN [of b l] by (auto intro!: impl_commute)
qed (use assms in auto)

lemma cf_Add_impl:
  assumes "wt (BinaryExpr k l r)" "sums k l r e" "k = Add \<or> k = Sub"
  shows "impl e (BinaryExpr k l r)"
proof -
  have "wt l" "wt r" "getWidth r = getWidth l" using assms(1) by simp_all
  from sums_sound [OF assms(2) this(1,2) refl this(3)] show ?thesis
    using assms(3) by (elim disjE) (simp_all add: impl_def)
qed

lemma cf_bin_impl:
  assumes "wt (BinaryExpr k l r)"
  shows "impl (cf_bin k l r) (BinaryExpr k l r)"
proof (cases "k \<in> {Mul, And, Or, Xor, Eq}")
  case True
  from True show ?thesis
    by (elim insertE emptyE) (simp_all only: cf_bin_def binkind.case,
        (rule cs_bin_commute_impl, use assms db.Bin_impl [OF assms] in
          \<open>simp_all add: cf_Mul_CN_impl cf_And_CN_impl cf_Or_CN_impl cf_Xor_CN_impl cf_Eq_CN_impl\<close>)+)
next
  case False
  then show ?thesis
    using assms cs_chain_impl [where B = db_bin, OF assms db.Bin_impl] cf_Add_impl [OF assms] cf_sums(1,4)
    by (cases k) (simp_all add: cf_bin_def)
qed

lemma isConstant_simps [simp]: "isConstant (ConstantExpr c)"
  by (simp add: isConstant_def)

lemma cs_const:
  "isConstant l \<Longrightarrow> isConstant r \<Longrightarrow> isConstant (cs_bin k CN NC NN l r)"
  "isConstant e \<Longrightarrow> isConstant (cs_Not N e)"
  "isConstant l \<Longrightarrow> isConstant r \<Longrightarrow> isConstant (cs_Concat B l r)"
  "isConstant e \<Longrightarrow> isConstant (cs_Extract X e off w)"
  "isConstant e \<Longrightarrow> isConstant (cs_ZExt Z e w)"
  "isConstant e \<Longrightarrow> isConstant (cs_SExt Z e w)"
  by (auto simp: isConstant_iff cs_bin_def cs_Not_def cs_Concat_def cs_Extract_def cs_ZExt_def
      cs_SExt_def dc_not_def)

lemma cf_Add_const:
  "isConstant l \<Longrightarrow> isConstant r \<Longrightarrow> isConstant (cf_Add l r)"
  "isConstant l \<Longrightarrow> isConstant r \<Longrightarrow> isConstant (cf_Sub l r)"
  by (auto simp: isConstant_iff cf_rec)

interpretation cf: folding_builder cf_bin cf_Not cf_Concat cf_Extract cf_ZExt cf_SExt cf_Select
proof unfold_locales
  show "isConstant (cf_bin k l r)" if "isConstant l" "isConstant r" for k l r
    using that by (cases k) (simp_all add: cf_bin_def cs_chain_def cs_const cf_Add_const)
qed (simp_all only: cf_bin_impl cf_Not_def cf_Concat_def cf_Extract_def cf_ZExt_def cf_SExt_def
      cf_Select_def cs_impl cs_const db.Not_impl db.Concat_impl db.Extract_impl db.ZExt_impl
      db.SExt_impl db.Select_impl)

section \<open>Soundness of the simplifying builder\<close>

lemma sb_Eq_CN_impl:
  assumes "ce_ok a" "wt r" "ce_width a = getWidth r"
  shows "impl (sb_Eq_CN a r) (BinaryExpr Eq (ConstantExpr a) r)"
  unfolding sb_Eq_CN_def
  by (rule Eq_Bool_impl) (use assms in \<open>auto intro!: cf.Not_impl cf.Bin_impl\<close>)

lemma sb_Eq_NN_impl:
  assumes "wt (BinaryExpr Eq l r)"
  shows "impl (sb_Eq_NN l r) (BinaryExpr Eq l r)"
  using cf.Bin_impl [OF assms] by (auto simp: sb_Eq_NN_def impl_def ce_ok_def fits_1)

lemma sb_Eq_impl: "wt (BinaryExpr Eq l r) \<Longrightarrow> impl (sb_Eq l r) (BinaryExpr Eq l r)"
  unfolding sb_Eq_def by (rule cs_bin_commute_impl) (simp_all add: sb_Eq_CN_impl sb_Eq_NN_impl)

lemma cf_chain_impl: "wt (BinaryExpr k l r) \<Longrightarrow> impl (cs_chain cf_bin k l r) (BinaryExpr k l r)"
  by (rule cs_chain_impl) (auto intro: cf.Bin_impl)

lemma de_morgan: "take_bit w (NOT a) AND take_bit w (NOT b) = take_bit w (NOT (a OR b))"
  for a b :: int
  by (auto simp: bit_eq_iff bit_take_bit_iff bit_not_iff bit_and_iff bit_or_iff)

lemma sb_Not_impl: "wt e \<Longrightarrow> impl (sb_Not e) (NotExpr e)"
proof (induction e rule: sb_Not.induct)
  case (1 x)
  then show ?case using wt_fits [of x] by (simp add: impl_def Not_double)
next
  case (2 c)
  then show ?case by (simp add: impl_def ce_ok_unops)
next
  case (3 k l r)
  show ?case
  proof (cases "k = Or")
    case True
    define w where "w = getWidth r"
    from "3.prems" have w: "getWidth l = w" "getWidth r = w" and "wt l" "wt r"
      by (simp_all add: w_def)
    from "3.IH" [OF True] this(3,4) have "impl (sb_Not l) (NotExpr l)" and "impl (sb_Not r) (NotExpr r)"
      by blast+
    then have l: "wt (sb_Not l)" "getWidth (sb_Not l) = w"
        "eval \<sigma> (sb_Not l) = take_bit w (NOT (eval \<sigma> l))"
      and r: "wt (sb_Not r)" "getWidth (sb_Not r) = w"
        "eval \<sigma> (sb_Not r) = take_bit w (NOT (eval \<sigma> r))" for \<sigma>
      unfolding impl_def by (simp_all add: w)
    then have "wt (BinaryExpr And (sb_Not l) (sb_Not r))" by simp
    from cf_chain_impl [OF this] show ?thesis
      unfolding impl_def
      by (simp only: True sb_Not.simps getWidth.simps eval.simps ap_binop.simps isCmpKind_simps
          if_True if_False simp_thms l r w de_morgan)
  next
    case False
    with cf.Not_impl [OF "3.prems"] show ?thesis by simp
  qed
qed (simp add: cf.Not_impl)+

lemma sb_Ne_impl:
  assumes "wt (BinaryExpr Ne l r)"
  shows "impl (sb_Ne l r) (BinaryExpr Ne l r)"
proof -
  have *: "impl (sb_Eq l r) (BinaryExpr Eq l r)" using assms by (simp add: sb_Eq_impl)
  then have "impl (sb_Not (sb_Eq l r)) (NotExpr (sb_Eq l r))" by (simp add: impl_def [of "sb_Eq l r"] sb_Not_impl)
  with * have "impl (sb_Not (sb_Eq l r)) (BinaryExpr Ne l r)" by (auto simp: impl_def)
  then show ?thesis unfolding sb_Ne_def Let_def by (intro cs_bin_impl assms) simp_all
qed

lemma sb_swap_impl:
  assumes "wt (BinaryExpr k l r)" and "(k, k') \<in> {(Ugt, Ult), (Uge, Ule), (Sgt, Slt), (Sge, Sle)}"
  shows "impl (sb_swap k k' l r) (BinaryExpr k l r)"
proof -
  have "impl (cs_chain cf_bin k' r l) (BinaryExpr k' r l)"
    using assms by (intro cf_chain_impl) auto
  then have "impl (cs_chain cf_bin k' r l) (BinaryExpr k l r)"
    using assms by (auto simp: impl_def)
  then show ?thesis unfolding sb_swap_def Let_def by (intro cs_bin_impl assms) simp_all
qed

interpretation sb: folding_builder sb_bin sb_Not sb_Concat sb_Extract sb_ZExt sb_SExt sb_Select
proof unfold_locales
  show "impl (sb_bin k l r) (BinaryExpr k l r)" if "wt (BinaryExpr k l r)" for k l r
    using that
    by (cases k) (simp_all add: sb_bin_def sb_Eq_impl sb_Ne_impl sb_swap_impl cf_chain_impl)
  show "isConstant (sb_bin k l r)" if "isConstant l" "isConstant r" for k l r
    using that
    by (cases k) (simp_all add: sb_bin_def sb_Eq_def sb_Ne_def sb_swap_def cs_chain_def cs_const Let_def)
  show "isConstant (sb_Not e)" if "isConstant e" for e
    using that by (auto simp: isConstant_iff)
qed (simp_all only: sb_Not_impl sb_Concat_def sb_Extract_def sb_ZExt_def sb_SExt_def
      sb_Select_def cs_impl cs_const cf.Concat_impl cf.Extract_impl cf.ZExt_impl
      cf.SExt_impl cf.Select_impl)


section \<open>Properties\<close>

text \<open>
  C12: the simplifying builder, the one clover builds every expression with, is sound: for
  operands of equal width the expression it returns for any binary kind is well-formed, has
  the width of the node the default builder would allocate and evaluates to the same value under
  every assignment of the symbolic inputs.  Division is only built on operands wider than a bit.
\<close>

theorem sb_bin_sound:
  assumes "wt l" and "wt r" and "getWidth l = getWidth r"
    and "isDivKind k \<Longrightarrow> 1 < getWidth l"
  shows "wt (sb_bin k l r) \<and>
    getWidth (sb_bin k l r) = (if isCmpKind k then 1 else getWidth l) \<and>
    eval \<sigma> (sb_bin k l r) = ap_binop k (getWidth l) (eval \<sigma> l) (eval \<sigma> r)"
  using sb.Bin_impl [of k l r] assms by (simp add: impl_def)

theorem sb_bin_sound_witness:
  "let x = ReadExpr (Array ''x'' 4) (ConstantExpr (CE 32 0));
       c = ConstantExpr (CE 8 250);
       e = sb_bin Add (BinaryExpr Add x c) c
   in e = BinaryExpr Add (ConstantExpr (CE 8 244)) x \<and>
      eval (\<lambda>_ _. 20) e = ap_binop Add 8 14 250"
proof -
  let ?x = "ReadExpr (Array ''x'' 4) (ConstantExpr (CE 32 0))"
  let ?c = "ConstantExpr (CE 8 250)"
  have "wt (BinaryExpr Add ?x ?c)" and "wt ?c" and "getWidth (BinaryExpr Add ?x ?c) = getWidth ?c"
    and "eval (\<lambda>_ _. 20) (BinaryExpr Add ?x ?c) = 14"
    by code_simp+
  moreover have "sb_bin Add (BinaryExpr Add ?x ?c) ?c = BinaryExpr Add (ConstantExpr (CE 8 244)) ?x"
    by code_simp
  ultimately show ?thesis
    using sb_bin_sound [of "BinaryExpr Add ?x ?c" ?c Add "\<lambda>_ _. 20"] by (simp add: Let_def)
qed





end
