(* ===== verification/Clover_Concolic.thy ===== *)
theory Clover_Concolic
  imports Klee_ExprBuilder
begin

text \<open>
  clover's values (\<open>intval.cpp\<close>, \<open>bitvector.cpp\<close>, \<open>concolic.cpp\<close> and the factory part of
  \<open>solver.cpp\<close>).  A \<open>ConcolicValue\<close> pairs a concrete part, always a \<open>ConstantExpr\<close>, with an
  optional symbolic part and a taint flag; every operator builds both parts with the simplifying
  builder.  \<open>cv_ok \<sigma> w v\<close> is the invariant: both parts have width \<open>w\<close> and the symbolic part
  evaluates to the concrete one under the assignment \<open>\<sigma>\<close> the run was started with.

  A \<open>shared_ptr<BitVector>\<close> is the expression it holds.  The assertions of the constructor, of
  \<open>getWidth\<close> and of \<open>getValue\<close> are the facts \<open>cv_ok_constant\<close>, \<open>cv_ok_widths\<close> and
  \<open>cv_ok_getValue\<close> below.
\<close>

section \<open>Integers and bit vectors\<close>

datatype IntValue = U8 u8 | U32 u32

definition intByteSize :: "IntValue \<Rightarrow> nat" where
  "intByteSize v = (case v of U8 _ \<Rightarrow> 1 | U32 _ \<Rightarrow> 4)"

definition intToUint :: "IntValue \<Rightarrow> int" where
  "intToUint v = (case v of U8 x \<Rightarrow> uint x | U32 x \<Rightarrow> uint x)"

definition intFromVector :: "u8 list \<Rightarrow> IntValue option" where
  "intFromVector bs =
     (case bs of
        [a] \<Rightarrow> Some (U8 a)
      | [a, b, c, d] \<Rightarrow>
          Some (U32 (ucast a OR push_bit 8 (ucast b) OR push_bit 16 (ucast c) OR push_bit 24 (ucast d)))
      | _ \<Rightarrow> None)"

definition BitVector_int :: "IntValue \<Rightarrow> expr" where
  "BitVector_int v = ConstantExpr (CE_alloc (intToUint v) (intByteSize v * 8))"

definition BitVector_array :: "array \<Rightarrow> expr option" where
  "BitVector_array a = createTempRead a (arr_size a * 8)"

text \<open>\<open>eqTrue\<close> and \<open>eqFalse\<close> allocate the node directly, past the builder.\<close>

definition eqTrue :: "expr \<Rightarrow> expr" where
  "eqTrue e = BinaryExpr Eq e (ConstantExpr (CE_alloc 1 1))"

definition eqFalse :: "expr \<Rightarrow> expr" where
  "eqFalse e = BinaryExpr Eq e (ConstantExpr (CE_alloc 0 1))"

section \<open>Concolic values\<close>

record ConcolicValue =
  concrete :: expr
  symbolic :: "expr option"
  tainted :: bool

definition mkCV :: "bool \<Rightarrow> expr \<Rightarrow> expr option \<Rightarrow> ConcolicValue" where
  "mkCV t c s = \<lparr>concrete = c, symbolic = s, tainted = t\<rparr>"

definition cv_taint :: "ConcolicValue \<Rightarrow> ConcolicValue" where
  "cv_taint v = v\<lparr>tainted := True\<rparr>"

definition cv_is_tainted :: "ConcolicValue \<Rightarrow> bool" where
  "cv_is_tainted v = tainted v"

definition cv_getWidth :: "ConcolicValue \<Rightarrow> width" where
  "cv_getWidth v = getWidth (concrete v)"

definition cv_value_or :: "ConcolicValue \<Rightarrow> expr" where
  "cv_value_or v = (case symbolic v of Some s \<Rightarrow> s | None \<Rightarrow> concrete v)"

definition BINARY_OPERATOR ::
  "(expr \<Rightarrow> expr \<Rightarrow> expr) \<Rightarrow> ConcolicValue \<Rightarrow> ConcolicValue \<Rightarrow> ConcolicValue" where
  "BINARY_OPERATOR FN v other =
     (let bvv = FN (concrete v) (concrete other);
          taint = (cv_is_tainted v \<or> cv_is_tainted other)
      in if symbolic v \<noteq> None \<or> symbolic other \<noteq> None
         then mkCV taint bvv (Some (FN (cv_value_or v) (cv_value_or other)))
         else mkCV taint bvv None)"

definition cv_eq :: "ConcolicValue \<Rightarrow> ConcolicValue \<Rightarrow> ConcolicValue" where
  "cv_eq = BINARY_OPERATOR (sb_bin Eq)"
definition cv_ne :: "ConcolicValue \<Rightarrow> ConcolicValue \<Rightarrow> ConcolicValue" where
  "cv_ne = BINARY_OPERATOR (sb_bin Ne)"
definition cv_lshl :: "ConcolicValue \<Rightarrow> ConcolicValue \<Rightarrow> ConcolicValue" where
  "cv_lshl = BINARY_OPERATOR (sb_bin Shl)"
definition cv_lshr :: "ConcolicValue \<Rightarrow> ConcolicValue \<Rightarrow> ConcolicValue" where
  "cv_lshr = BINARY_OPERATOR (sb_bin LShr)"
definition cv_ashr :: "ConcolicValue \<Rightarrow> ConcolicValue \<Rightarrow> ConcolicValue" where
  "cv_ashr = BINARY_OPERATOR (sb_bin AShr)"
definition cv_add :: "ConcolicValue \<Rightarrow> ConcolicValue \<Rightarrow> ConcolicValue" where
  "cv_add = BINARY_OPERATOR (sb_bin Add)"
definition cv_mul :: "ConcolicValue \<Rightarrow> ConcolicValue \<Rightarrow> ConcolicValue" where
  "cv_mul = BINARY_OPERATOR (sb_bin Mul)"
definition cv_udiv :: "ConcolicValue \<Rightarrow> ConcolicValue \<Rightarrow> ConcolicValue" where
  "cv_udiv = BINARY_OPERATOR (sb_bin UDiv)"
definition cv_sdiv :: "ConcolicValue \<Rightarrow> ConcolicValue \<Rightarrow> ConcolicValue" where
  "cv_sdiv = BINARY_OPERATOR (sb_bin SDiv)"
definition cv_urem :: "ConcolicValue \<Rightarrow> ConcolicValue \<Rightarrow> ConcolicValue" where
  "cv_urem = BINARY_OPERATOR (sb_bin URem)"
definition cv_srem :: "ConcolicValue \<Rightarrow> ConcolicValue \<Rightarrow> ConcolicValue" where
  "cv_srem = BINARY_OPERATOR (sb_bin SRem)"
definition cv_sub :: "ConcolicValue \<Rightarrow> ConcolicValue \<Rightarrow> ConcolicValue" where
  "cv_sub = BINARY_OPERATOR (sb_bin Sub)"
definition cv_slt :: "ConcolicValue \<Rightarrow> ConcolicValue \<Rightarrow> ConcolicValue" where
  "cv_slt = BINARY_OPERATOR (sb_bin Slt)"
definition cv_sge :: "ConcolicValue \<Rightarrow> ConcolicValue \<Rightarrow> ConcolicValue" where
  "cv_sge = BINARY_OPERATOR (sb_bin Sge)"
definition cv_ult :: "ConcolicValue \<Rightarrow> ConcolicValue \<Rightarrow> ConcolicValue" where
  "cv_ult = BINARY_OPERATOR (sb_bin Ult)"
definition cv_uge :: "ConcolicValue \<Rightarrow> ConcolicValue \<Rightarrow> ConcolicValue" where
  "cv_uge = BINARY_OPERATOR (sb_bin Uge)"
definition cv_band :: "ConcolicValue \<Rightarrow> ConcolicValue \<Rightarrow> ConcolicValue" where
  "cv_band = BINARY_OPERATOR (sb_bin And)"
definition cv_bor :: "ConcolicValue \<Rightarrow> ConcolicValue \<Rightarrow> ConcolicValue" where
  "cv_bor = BINARY_OPERATOR (sb_bin Or)"
definition cv_bxor :: "ConcolicValue \<Rightarrow> ConcolicValue \<Rightarrow> ConcolicValue" where
  "cv_bxor = BINARY_OPERATOR (sb_bin Xor)"
definition cv_concat :: "ConcolicValue \<Rightarrow> ConcolicValue \<Rightarrow> ConcolicValue" where
  "cv_concat = BINARY_OPERATOR sb_Concat"

definition cv_bnot :: "ConcolicValue \<Rightarrow> ConcolicValue" where
  "cv_bnot v =
     mkCV (cv_is_tainted v) (sb_Not (concrete v))
       (case symbolic v of Some s \<Rightarrow> Some (sb_Not s) | None \<Rightarrow> None)"

definition cv_extract :: "ConcolicValue \<Rightarrow> nat \<Rightarrow> width \<Rightarrow> ConcolicValue" where
  "cv_extract v off w =
     mkCV (cv_is_tainted v) (sb_Extract (concrete v) off w)
       (case symbolic v of Some s \<Rightarrow> Some (sb_Extract s off w) | None \<Rightarrow> None)"

definition cv_sext :: "ConcolicValue \<Rightarrow> width \<Rightarrow> ConcolicValue" where
  "cv_sext v w =
     mkCV (cv_is_tainted v) (sb_SExt (concrete v) w)
       (case symbolic v of Some s \<Rightarrow> Some (sb_SExt s w) | None \<Rightarrow> None)"

definition cv_zext :: "ConcolicValue \<Rightarrow> width \<Rightarrow> ConcolicValue" where
  "cv_zext v w =
     mkCV (cv_is_tainted v) (sb_ZExt (concrete v) w)
       (case symbolic v of Some s \<Rightarrow> Some (sb_ZExt s w) | None \<Rightarrow> None)"

lemmas cv_op_defs = cv_eq_def cv_ne_def cv_lshl_def cv_lshr_def cv_ashr_def cv_add_def cv_mul_def
  cv_udiv_def cv_sdiv_def cv_urem_def cv_srem_def cv_sub_def cv_slt_def cv_sge_def cv_ult_def
  cv_uge_def cv_band_def cv_bor_def cv_bxor_def

section \<open>The solver as a factory\<close>

text \<open>
  \<open>Solver::getValue\<close> asserts a \<open>ConstantExpr\<close> no wider than the result type (\<open>getZExtValue\<close>);
  \<open>None\<close> is the failed assertion.  In \<open>BVC\<close> an array is as long as its value, 1 or 4 bytes, so
  that \<open>createTempRead\<close> always knows the width; its result is the \<open>symbolic\<close> option itself.
\<close>

definition getValue :: "width \<Rightarrow> expr \<Rightarrow> int option" where
  "getValue T e =
     (case dc_const e of
        Some c \<Rightarrow> (if ce_width c \<le> T then Some (ce_value c) else None)
      | None \<Rightarrow> None)"

definition BVC :: "string option \<Rightarrow> IntValue \<Rightarrow> ConcolicValue" where
  "BVC name value =
     (case name of
        None \<Rightarrow> mkCV False (BitVector_int value) None
      | Some n \<Rightarrow>
          mkCV False (BitVector_int value) (BitVector_array (Array n (intByteSize value))))"

text \<open>\<open>BVC(buf, buflen)\<close>: the null result of an empty buffer is \<open>None\<close>.\<close>

definition concat_byte :: "ConcolicValue option \<Rightarrow> ConcolicValue \<Rightarrow> ConcolicValue option" where
  "concat_byte result byte =
     (case result of None \<Rightarrow> Some byte | Some r \<Rightarrow> Some (cv_concat byte r))"

definition BVC_bytes :: "u8 list \<Rightarrow> ConcolicValue option" where
  "BVC_bytes buf = foldl (\<lambda>result b. concat_byte result (BVC None (U8 b))) None buf"

definition BVCToBytes :: "ConcolicValue \<Rightarrow> nat \<Rightarrow> u8 list option" where
  "BVCToBytes value buflen =
     (let v = (if cv_getWidth value < buflen * 8 then cv_zext value (buflen * 8) else value)
      in those (map (\<lambda>i. map_option word_of_int (getValue 8 (concrete (cv_extract v (i * 8) 8))))
            [0..<buflen]))"

section \<open>The concolic invariant\<close>

definition cv_val :: "ConcolicValue \<Rightarrow> int" where
  "cv_val v = (case dc_const (concrete v) of Some c \<Rightarrow> ce_value c | None \<Rightarrow> 0)"

definition cv_ok :: "assignment \<Rightarrow> width \<Rightarrow> ConcolicValue \<Rightarrow> bool" where
  "cv_ok \<sigma> w v \<longleftrightarrow>
     isConstant (concrete v) \<and> wt (concrete v) \<and> getWidth (concrete v) = w \<and>
     (case symbolic v of
        None \<Rightarrow> True
      | Some s \<Rightarrow> wt s \<and> getWidth s = w \<and> eval \<sigma> s = cv_val v)"

lemma cv_ok_constant: "cv_ok \<sigma> w v \<Longrightarrow> isConstant (concrete v)"
  by (simp add: cv_ok_def)

lemma cv_ok_widths:
  "cv_ok \<sigma> w v \<Longrightarrow> cv_getWidth v = w \<and> (\<forall>s. symbolic v = Some s \<longrightarrow> getWidth s = cv_getWidth v)"
  by (auto simp: cv_ok_def cv_getWidth_def)

lemma isConstant_eval: "isConstant (concrete v) \<Longrightarrow> eval \<sigma> (concrete v) = cv_val v"
  by (auto simp: isConstant_iff cv_val_def)

lemma cv_ok_val_fits:
  assumes "cv_ok \<sigma> w v"
  shows "fits w (cv_val v)" and "0 < w"
  using assms wt_fits [of "concrete v" \<sigma>] wt_width_pos [of "concrete v"]
  by (auto simp: cv_ok_def isConstant_eval)

lemma cv_ok_getValue: "cv_ok \<sigma> w v \<Longrightarrow> w \<le> T \<Longrightarrow> getValue T (concrete v) = Some (cv_val v)"
  by (auto simp: cv_ok_def isConstant_iff getValue_def cv_val_def)

lemma cv_ok_value_or:
  assumes "cv_ok \<sigma> w v"
  shows "wt (cv_value_or v)" "getWidth (cv_value_or v) = w" "eval \<sigma> (cv_value_or v) = cv_val v"
  using assms isConstant_eval [of v \<sigma>]
  by (auto simp: cv_ok_def cv_value_or_def split: option.splits)

lemma mkCV_simps [simp]:
  "concrete (mkCV t c s) = c" "symbolic (mkCV t c s) = s" "tainted (mkCV t c s) = t"
  by (simp_all add: mkCV_def)

lemma mkCV_val: "cv_val (mkCV t c s) = (case dc_const c of Some c \<Rightarrow> ce_value c | None \<Rightarrow> 0)"
  by (simp add: cv_val_def)

lemma mkCV_ok:
  assumes "impl c c'" "isConstant c" "getWidth c' = w" "eval \<sigma> c' = x"
    and "\<And>e. s = Some e \<Longrightarrow> \<exists>e'. impl e e' \<and> getWidth e' = w \<and> eval \<sigma> e' = x"
  shows "cv_ok \<sigma> w (mkCV t c s) \<and> cv_val (mkCV t c s) = x"
proof -
  have "cv_val (mkCV t c s) = x"
    using assms(1,2,4) isConstant_eval [of "mkCV t c s" \<sigma>] by (simp add: impl_def)
  with assms show ?thesis by (fastforce simp: cv_ok_def impl_def split: option.split)
qed

lemma BINARY_OPERATOR_ok:
  assumes "cv_ok \<sigma> wa a" and "cv_ok \<sigma> wb b"
    and impl: "\<And>l r. wt l \<Longrightarrow> wt r \<Longrightarrow> getWidth l = wa \<Longrightarrow> getWidth r = wb \<Longrightarrow>
      impl (FN l r) (node l r) \<and> getWidth (node l r) = w \<and> eval \<sigma> (node l r) = f (eval \<sigma> l) (eval \<sigma> r)"
    and const: "\<And>l r. isConstant l \<Longrightarrow> isConstant r \<Longrightarrow> isConstant (FN l r)"
  shows "cv_ok \<sigma> w (BINARY_OPERATOR FN a b)" (is ?ok)
    and "cv_val (BINARY_OPERATOR FN a b) = f (cv_val a) (cv_val b)" (is ?val)
proof -
  note a = assms(1) [unfolded cv_ok_def] and b = assms(2) [unfolded cv_ok_def]
  have c: "impl (FN (concrete a) (concrete b)) (node (concrete a) (concrete b))"
      "isConstant (FN (concrete a) (concrete b))" "getWidth (node (concrete a) (concrete b)) = w"
      "eval \<sigma> (node (concrete a) (concrete b)) = f (cv_val a) (cv_val b)"
    using impl [of "concrete a" "concrete b"] const [of "concrete a" "concrete b"] a b
    by (simp_all add: isConstant_eval)
  have s: "\<exists>e'. impl (FN (cv_value_or a) (cv_value_or b)) e' \<and> getWidth e' = w \<and>
      eval \<sigma> e' = f (cv_val a) (cv_val b)"
    using impl [of "cv_value_or a" "cv_value_or b"] cv_ok_value_or [OF assms(1)]
      cv_ok_value_or [OF assms(2)] by auto
  have "cv_ok \<sigma> w (mkCV t (FN (concrete a) (concrete b)) z) \<and>
      cv_val (mkCV t (FN (concrete a) (concrete b)) z) = f (cv_val a) (cv_val b)"
    if "z = None \<or> z = Some (FN (cv_value_or a) (cv_value_or b))" for t z
    by (rule mkCV_ok [OF c]) (use that s in auto)
  then have "?ok \<and> ?val"
    by (simp add: BINARY_OPERATOR_def Let_def)
  then show ?ok and ?val by simp_all
qed

lemma cv_bin_ok:
  assumes "cv_ok \<sigma> w a" and "cv_ok \<sigma> w b" and "isDivKind k \<longrightarrow> 1 < w"
  shows "cv_ok \<sigma> (if isCmpKind k then 1 else w) (BINARY_OPERATOR (sb_bin k) a b)"
    and "cv_val (BINARY_OPERATOR (sb_bin k) a b) = ap_binop k w (cv_val a) (cv_val b)"
proof -
  have *: "impl (sb_bin k l r) (BinaryExpr k l r) \<and>
      getWidth (BinaryExpr k l r) = (if isCmpKind k then 1 else w) \<and>
      eval \<sigma> (BinaryExpr k l r) = ap_binop k w (eval \<sigma> l) (eval \<sigma> r)"
    if "wt l" "wt r" "getWidth l = w" "getWidth r = w" for l r
    using that assms(3) by (simp add: sb.Bin_impl)
  show "cv_ok \<sigma> (if isCmpKind k then 1 else w) (BINARY_OPERATOR (sb_bin k) a b)"
    by (rule BINARY_OPERATOR_ok(1) [OF assms(1,2), where node = "BinaryExpr k"])
      (use * in \<open>auto intro: sb.Bin_const\<close>)
  show "cv_val (BINARY_OPERATOR (sb_bin k) a b) = ap_binop k w (cv_val a) (cv_val b)"
    by (rule BINARY_OPERATOR_ok(2) [OF assms(1,2), where node = "BinaryExpr k"])
      (use * in \<open>auto intro: sb.Bin_const\<close>)
qed

lemma cv_ops_val:
  assumes "cv_ok \<sigma> w a" and "cv_ok \<sigma> w b"
  shows "cv_val (cv_add a b) = take_bit w (cv_val a + cv_val b)"
    and "cv_val (cv_sub a b) = take_bit w (cv_val a - cv_val b)"
    and "cv_val (cv_band a b) = cv_val a AND cv_val b"
    and "cv_val (cv_bor a b) = cv_val a OR cv_val b"
    and "cv_val (cv_bxor a b) = cv_val a XOR cv_val b"
    and "cv_val (cv_lshl a b) = ap_binop Shl w (cv_val a) (cv_val b)"
    and "cv_val (cv_lshr a b) = ap_binop LShr w (cv_val a) (cv_val b)"
    and "cv_val (cv_ashr a b) = ap_binop AShr w (cv_val a) (cv_val b)"
    and "cv_val (cv_eq a b) = of_bool (cv_val a = cv_val b)"
    and "cv_val (cv_ne a b) = of_bool (cv_val a \<noteq> cv_val b)"
    and "cv_val (cv_ult a b) = of_bool (cv_val a < cv_val b)"
    and "cv_val (cv_uge a b) = of_bool (cv_val b \<le> cv_val a)"
    and "cv_val (cv_slt a b) = of_bool (sgn_of w (cv_val a) < sgn_of w (cv_val b))"
    and "cv_val (cv_sge a b) = of_bool (sgn_of w (cv_val b) \<le> sgn_of w (cv_val a))"
  by (simp_all add: cv_op_defs cv_bin_ok(2) [OF assms])

lemma cv_arith_ok [inv_intros]:
  assumes "cv_ok \<sigma> w a" and "cv_ok \<sigma> w b"
  shows "cv_ok \<sigma> w (cv_add a b)" "cv_ok \<sigma> w (cv_sub a b)" "cv_ok \<sigma> w (cv_mul a b)"
    "1 < w \<Longrightarrow> cv_ok \<sigma> w (cv_udiv a b)" "1 < w \<Longrightarrow> cv_ok \<sigma> w (cv_sdiv a b)"
    "1 < w \<Longrightarrow> cv_ok \<sigma> w (cv_urem a b)" "1 < w \<Longrightarrow> cv_ok \<sigma> w (cv_srem a b)"
    "cv_ok \<sigma> w (cv_band a b)" "cv_ok \<sigma> w (cv_bor a b)" "cv_ok \<sigma> w (cv_bxor a b)"
    "cv_ok \<sigma> w (cv_lshl a b)" "cv_ok \<sigma> w (cv_lshr a b)" "cv_ok \<sigma> w (cv_ashr a b)"
  using cv_bin_ok(1) [OF assms, of Add] cv_bin_ok(1) [OF assms, of Sub]
    cv_bin_ok(1) [OF assms, of Mul] cv_bin_ok(1) [OF assms, of UDiv]
    cv_bin_ok(1) [OF assms, of SDiv] cv_bin_ok(1) [OF assms, of URem]
    cv_bin_ok(1) [OF assms, of SRem] cv_bin_ok(1) [OF assms, of And]
    cv_bin_ok(1) [OF assms, of Or] cv_bin_ok(1) [OF assms, of Xor]
    cv_bin_ok(1) [OF assms, of Shl] cv_bin_ok(1) [OF assms, of LShr]
    cv_bin_ok(1) [OF assms, of AShr]
  by (simp_all add: cv_op_defs)

lemma cv_cmp_ok [inv_intros]:
  assumes "cv_ok \<sigma> w a" and "cv_ok \<sigma> w b"
  shows "cv_ok \<sigma> 1 (cv_eq a b)" "cv_ok \<sigma> 1 (cv_ne a b)" "cv_ok \<sigma> 1 (cv_slt a b)"
    "cv_ok \<sigma> 1 (cv_sge a b)" "cv_ok \<sigma> 1 (cv_ult a b)" "cv_ok \<sigma> 1 (cv_uge a b)"
  using cv_bin_ok(1) [OF assms, of Eq] cv_bin_ok(1) [OF assms, of Ne]
    cv_bin_ok(1) [OF assms, of Slt] cv_bin_ok(1) [OF assms, of Sge]
    cv_bin_ok(1) [OF assms, of Ult] cv_bin_ok(1) [OF assms, of Uge]
  by (simp_all add: cv_op_defs)

lemma cv_concat_ok:
  assumes "cv_ok \<sigma> w a" and "cv_ok \<sigma> u b"
  shows "cv_ok \<sigma> (w + u) (cv_concat a b)"
    and "cv_val (cv_concat a b) = push_bit u (cv_val a) OR cv_val b"
proof -
  have *: "impl (sb_Concat l r) (ConcatExpr l r) \<and> getWidth (ConcatExpr l r) = w + u \<and>
      eval \<sigma> (ConcatExpr l r) = push_bit u (eval \<sigma> l) OR eval \<sigma> r"
    if "wt l" "wt r" "getWidth l = w" "getWidth r = u" for l r
    using that by (simp add: sb.Concat_impl)
  show "cv_ok \<sigma> (w + u) (cv_concat a b)"
    unfolding cv_concat_def
    by (rule BINARY_OPERATOR_ok(1) [OF assms, where node = ConcatExpr])
      (use * in \<open>auto intro: sb.Concat_const\<close>)
  show "cv_val (cv_concat a b) = push_bit u (cv_val a) OR cv_val b"
    unfolding cv_concat_def
    by (rule BINARY_OPERATOR_ok(2) [OF assms, where node = ConcatExpr])
      (use * in \<open>auto intro: sb.Concat_const\<close>)
qed

text \<open>The four unary operators have one shape.\<close>

lemma cv_unary_ok:
  assumes "cv_ok \<sigma> u v"
    and impl: "\<And>e. wt e \<Longrightarrow> getWidth e = u \<Longrightarrow>
      impl (F e) (node e) \<and> getWidth (node e) = w \<and> eval \<sigma> (node e) = f (eval \<sigma> e)"
    and const: "\<And>e. isConstant e \<Longrightarrow> isConstant (F e)"
    and op: "op = mkCV t (F (concrete v)) (case symbolic v of Some s \<Rightarrow> Some (F s) | None \<Rightarrow> None)"
  shows "cv_ok \<sigma> w op" and "cv_val op = f (cv_val v)"
proof -
  note v = assms(1) [unfolded cv_ok_def]
  have "impl (F (concrete v)) (node (concrete v))" "isConstant (F (concrete v))"
      "getWidth (node (concrete v)) = w" "eval \<sigma> (node (concrete v)) = f (cv_val v)"
    using impl [of "concrete v"] const v by (simp_all add: isConstant_eval)
  note c = mkCV_ok [OF this]
  have "cv_ok \<sigma> w op \<and> cv_val op = f (cv_val v)"
  proof (cases "symbolic v")
    case None
    then show ?thesis unfolding op by (intro c) auto
  next
    case (Some s)
    then show ?thesis using v impl [of s] unfolding op by (intro c) auto
  qed
  then show "cv_ok \<sigma> w op" and "cv_val op = f (cv_val v)" by simp_all
qed

lemma cv_bnot_ok:
  assumes "cv_ok \<sigma> w v"
  shows "cv_ok \<sigma> w (cv_bnot v)" and "cv_val (cv_bnot v) = take_bit w (NOT (cv_val v))"
  by (rule cv_unary_ok [OF assms, where node = NotExpr and F = sb_Not];
      simp add: cv_bnot_def sb.Not_impl sb.Not_const)+

lemma cv_extract_ok:
  assumes "cv_ok \<sigma> u v" and "0 < w" and "off + w \<le> u"
  shows "cv_ok \<sigma> w (cv_extract v off w)"
    and "cv_val (cv_extract v off w) = take_bit w (drop_bit off (cv_val v))"
  by (rule cv_unary_ok [OF assms(1), where node = "\<lambda>e. ExtractExpr e off w" and
        F = "\<lambda>e. sb_Extract e off w"];
      use assms in \<open>simp add: cv_extract_def sb.Extract_impl sb.Extract_const\<close>)+

lemma cv_sext_ok:
  assumes "cv_ok \<sigma> u v" and "u \<le> w"
  shows "cv_ok \<sigma> w (cv_sext v w)"
    and "cv_val (cv_sext v w) = take_bit w (sgn_of u (cv_val v))"
  by (rule cv_unary_ok [OF assms(1), where node = "\<lambda>e. SExtExpr e w" and F = "\<lambda>e. sb_SExt e w"
        and f = "\<lambda>x. take_bit w (sgn_of u x)"];
      use assms in \<open>simp add: cv_sext_def sb.SExt_impl sb.SExt_const\<close>)+

lemma cv_zext_ok:
  assumes "cv_ok \<sigma> u v" and "u \<le> w"
  shows "cv_ok \<sigma> w (cv_zext v w)"
    and "cv_val (cv_zext v w) = take_bit w (cv_val v)"
  by (rule cv_unary_ok [OF assms(1), where node = "\<lambda>e. ZExtExpr e w" and F = "\<lambda>e. sb_ZExt e w"
        and f = "take_bit w"];
      use assms in \<open>simp add: cv_zext_def sb.ZExt_impl sb.ZExt_const\<close>)+

text \<open>Widening keeps the value.\<close>

lemma cv_zext_widen:
  assumes "cv_ok \<sigma> u v" and "u < w"
  shows "cv_ok \<sigma> w (cv_zext v w)" and "cv_val (cv_zext v w) = cv_val v"
  using cv_zext_ok [OF assms(1), of w] assms(2)
    fits_mono [OF cv_ok_val_fits(1) [OF assms(1)], of w] by (simp_all add: take_bit_fits)

lemma cv_taint_simps [simp]:
  "cv_val (cv_taint v) = cv_val v" "cv_ok \<sigma> w (cv_taint v) = cv_ok \<sigma> w v"
proof -
  show "cv_val (cv_taint v) = cv_val v" by (simp add: cv_val_def cv_taint_def)
  then show "cv_ok \<sigma> w (cv_taint v) = cv_ok \<sigma> w v"
    by (simp add: cv_taint_def cv_ok_def split: option.split)
qed

section \<open>The factory keeps the invariant\<close>

text \<open>
  \<open>agrees \<sigma> n x\<close>: the assignment gives the array named \<open>n\<close> the little-endian bytes of \<open>x\<close>, as
  the assignment does that a run was started with.
\<close>

definition agrees :: "assignment \<Rightarrow> string \<Rightarrow> IntValue \<Rightarrow> bool" where
  "agrees \<sigma> n x \<longleftrightarrow> (\<forall>i < intByteSize x.
     take_bit 8 (\<sigma> (Array n (intByteSize x)) i) = take_bit 8 (drop_bit (8 * i) (intToUint x)))"

lemma intToUint_fits: "fits (intByteSize v * 8) (intToUint v)"
  by (cases v) (auto simp: intByteSize_def intToUint_def fits_def take_bit_int_eq_self_iff
      intro: order_less_le_trans [OF uint_lt2p])

lemma concatReads_wt: "wt (concatReads a n) \<and> getWidth (concatReads a n) = 8 * n + 8"
  by (induction n) (simp_all add: readByte_def ce_ok_alloc)

lemma concatReads_eval:
  assumes "\<And>i. i \<le> n \<Longrightarrow> take_bit 8 (\<sigma> a i) = take_bit 8 (drop_bit (8 * i) x)" and "n < 2 ^ 32"
  shows "eval \<sigma> (concatReads a n) = take_bit (8 * n + 8) x"
  using assms
proof (induction n)
  case (Suc n)
  have "take_bit 32 (1 + int n) = 1 + int n" using Suc.prems(2) by (simp add: take_bit_int_eq_self_iff)
  then have "eval \<sigma> (concatReads a (Suc n)) =
      push_bit (8 * n + 8) (take_bit 8 (drop_bit (8 * n + 8) x)) OR take_bit (8 * n + 8) x"
    using Suc concatReads_wt [of a n] by (simp add: readByte_def nat_add_distrib add.commute)
  then show ?case by (simp add: take_bit_glue add.commute)
qed (simp add: readByte_def)

lemma BVC_ok:
  assumes "\<forall>n. name = Some n \<longrightarrow> agrees \<sigma> n x"
  shows "cv_ok \<sigma> (intByteSize x * 8) (BVC name x)" and "cv_val (BVC name x) = intToUint x"
proof -
  show val: "cv_val (BVC name x) = intToUint x"
    using intToUint_fits [of x]
    by (simp add: BVC_def cv_val_def BitVector_int_def take_bit_fits split: option.split)
  have c: "isConstant (BitVector_int x)" "wt (BitVector_int x)"
      "getWidth (BitVector_int x) = intByteSize x * 8"
    by (cases x; simp add: BitVector_int_def intByteSize_def isConstant_def ce_ok_alloc)+
  show "cv_ok \<sigma> (intByteSize x * 8) (BVC name x)"
  proof (cases name)
    case None
    then show ?thesis using c by (simp add: BVC_def cv_ok_def)
  next
    case (Some n)
    have sym: "symbolic (BVC name x) = BitVector_array (Array n (intByteSize x))"
      "concrete (BVC name x) = BitVector_int x"
      by (simp_all add: BVC_def Some)
    define k where "k = intByteSize x - 1"
    have "BitVector_array (Array n (intByteSize x)) = Some (concatReads (Array n (intByteSize x)) k)"
      by (cases x) (simp_all add: BitVector_array_def createTempRead_def intByteSize_def k_def)
    moreover have "eval \<sigma> (concatReads (Array n (intByteSize x)) k) = take_bit (8 * k + 8) (intToUint x)"
      by (rule concatReads_eval) (use assms Some in \<open>cases x;
          auto simp: agrees_def k_def intByteSize_def less_Suc_eq_le\<close>)+
    moreover have "8 * k + 8 = intByteSize x * 8"
      by (cases x) (simp_all add: k_def intByteSize_def)
    ultimately show ?thesis
      using c val concatReads_wt [of "Array n (intByteSize x)" k] intToUint_fits [of x]
      by (simp add: cv_ok_def sym take_bit_fits)
  qed
qed


section \<open>Byte buffers\<close>

lemma BVC_byte:
  "cv_ok \<sigma> 8 (BVC None (U8 b))" "cv_val (BVC None (U8 b)) = uint b" "symbolic (BVC None (U8 b)) = None"
  using BVC_ok [of None \<sigma> "U8 b"] by (simp_all add: intByteSize_def intToUint_def BVC_def)

lemma cv_concat_concrete:
  "symbolic a = None \<Longrightarrow> symbolic b = None \<Longrightarrow> symbolic (cv_concat a b) = None"
  by (simp add: cv_concat_def BINARY_OPERATOR_def Let_def)

lemma BVC_bytes_ok:
  assumes "bs \<noteq> []"
  obtains v where "BVC_bytes bs = Some v" "cv_ok \<sigma> (8 * length bs) v" "cv_val v = le_int bs"
    "symbolic v = None"
proof -
  have "bs \<noteq> [] \<longrightarrow> (\<exists>v. BVC_bytes bs = Some v \<and> cv_ok \<sigma> (8 * length bs) v \<and> cv_val v = le_int bs \<and>
      symbolic v = None)"
  proof (induction bs rule: rev_induct)
    case (snoc b bs)
    show ?case
    proof (cases "bs = []")
      case True
      then show ?thesis using BVC_byte [where b = b] by (simp add: BVC_bytes_def concat_byte_def)
    next
      case False
      with snoc obtain v where v: "BVC_bytes bs = Some v" "cv_ok \<sigma> (8 * length bs) v"
          "cv_val v = le_int bs" "symbolic v = None" by blast
      let ?v = "cv_concat (BVC None (U8 b)) v"
      have "BVC_bytes (bs @ [b]) = Some ?v"
        using v(1) by (simp add: BVC_bytes_def concat_byte_def)
      moreover have "cv_ok \<sigma> (8 * length (bs @ [b])) ?v"
        using cv_concat_ok(1) [OF BVC_byte(1) v(2)] by simp
      moreover have "cv_val ?v = le_int (bs @ [b])"
        using cv_concat_ok(2) [OF BVC_byte(1) v(2)] fits_le_int [of bs] v(3)
        by (simp add: BVC_byte push_bit_or_add le_int_snoc power_mult add.commute del: horner_sum_append)
      ultimately show ?thesis using v(4) BVC_byte(3) cv_concat_concrete by blast
    qed
  qed simp
  with assms that show ?thesis by blast
qed

lemma BVCToBytes_ok:
  assumes "cv_ok \<sigma> w v"
  shows "BVCToBytes v n = Some (map (\<lambda>i. word_of_int (drop_bit (i * 8) (cv_val v))) [0..<n])"
proof -
  define v' where "v' = (if cv_getWidth v < n * 8 then cv_zext v (n * 8) else v)"
  define u where "u = max w (n * 8)"
  have v': "cv_ok \<sigma> u v'" "cv_val v' = cv_val v"
    using assms cv_zext_widen [OF assms, of "n * 8"]
    by (auto simp: v'_def u_def cv_ok_widths max_def)
  have "map_option word_of_int (getValue 8 (concrete (cv_extract v' (i * 8) 8)))
      = Some (word_of_int (drop_bit (i * 8) (cv_val v)) :: u8)" if "i < n" for i
  proof -
    have "i * 8 + 8 \<le> u" using that by (simp add: u_def)
    from cv_extract_ok [OF v'(1) _ this] v'(2)
    have "cv_ok \<sigma> 8 (cv_extract v' (i * 8) 8)"
      and "cv_val (cv_extract v' (i * 8) 8) = take_bit 8 (drop_bit (i * 8) (cv_val v))" by simp_all
    then show ?thesis by (simp add: cv_ok_getValue
        word_of_int_take_bit [where 'a = 8, simplified])
  qed
  then show ?thesis
    unfolding BVCToBytes_def Let_def v'_def [symmetric] by (intro those_map_Some) simp
qed

section \<open>Properties\<close>



text \<open>
  C26: the width-changing operators keep the invariant and compute concatenation, extraction,
  zero and sign extension and complement of the concrete values.
\<close>

theorem concolic_resize_sound:
  assumes "cv_ok \<sigma> w a" and "cv_ok \<sigma> u b" and "0 < n" and "off + n \<le> w" and "w \<le> m"
  shows "cv_ok \<sigma> (w + u) (cv_concat a b) \<and> cv_val (cv_concat a b) = 2 ^ u * cv_val a + cv_val b \<and>
    cv_ok \<sigma> n (cv_extract a off n) \<and> cv_val (cv_extract a off n) = take_bit n (drop_bit off (cv_val a)) \<and>
    cv_ok \<sigma> m (cv_zext a m) \<and> cv_val (cv_zext a m) = cv_val a \<and>
    cv_ok \<sigma> m (cv_sext a m) \<and> cv_val (cv_sext a m) = take_bit m (sgn_of w (cv_val a)) \<and>
    cv_ok \<sigma> w (cv_bnot a) \<and> cv_val (cv_bnot a) = take_bit w (NOT (cv_val a))"
  using cv_concat_ok [OF assms(1,2)] cv_extract_ok [OF assms(1,3,4)] cv_zext_ok [OF assms(1,5)]
    cv_sext_ok [OF assms(1,5)] cv_bnot_ok [OF assms(1)] cv_ok_val_fits(1) [OF assms(2)]
    fits_mono [OF cv_ok_val_fits(1) [OF assms(1)] assms(5)]
  by (simp add: push_bit_or_add take_bit_fits)

theorem concolic_resize_sound_witness:
  "let a = BVC (Some ''a'') (U8 200); b = BVC None (U32 1)
   in cv_val (cv_concat a b) = 2 ^ 32 * 200 + 1 \<and> cv_val (cv_extract a 3 4) = 9 \<and>
      cv_val (cv_sext a 16) = 65480"
proof -
  let ?a = "BVC (Some ''a'') (U8 200)" and ?b = "BVC None (U32 1)"
  have "cv_ok (\<lambda>_ _. 200) 8 ?a" and "cv_ok (\<lambda>_ _. 200) 32 ?b"
    and "cv_val ?a = 200" and "cv_val ?b = 1" and "take_bit 4 (drop_bit 3 (200 :: int)) = 9"
    and "take_bit 16 (sgn_of 8 200) = 65480"
    by code_simp+
  with concolic_resize_sound [of "\<lambda>_ _. 200" 8 ?a 32 ?b 4 3 16] show ?thesis
    by (simp add: Let_def)
qed

text \<open>
  C34: the conversion between byte buffers and concolic values is a round trip: reading back a
  value built from a non-empty buffer gives the buffer, and its concrete value is the
  little-endian number the buffer holds.
\<close>

theorem BVC_bytes_roundtrip:
  assumes "bs \<noteq> []"
  shows "\<exists>v. BVC_bytes bs = Some v \<and> cv_val v = le_int bs \<and> BVCToBytes v (length bs) = Some bs"
proof -
  obtain v where v: "BVC_bytes bs = Some v" "cv_ok (\<lambda>_ _. 0) (8 * length bs) v" "cv_val v = le_int bs"
    using BVC_bytes_ok [OF assms, of "\<lambda>_ _. 0"] by blast
  have "map (\<lambda>i. word_of_int (drop_bit (i * 8) (cv_val v))) [0..<length bs] = bs"
    by (rule nth_equalityI) (simp_all add: v(3) le_int_nth mult.commute [of _ 8])
  with v BVCToBytes_ok [OF v(2), of "length bs"] show ?thesis by auto
qed

theorem BVC_bytes_roundtrip_witness:
  "\<exists>v. BVC_bytes [1, 2, 3] = Some v \<and> BVCToBytes v 3 = Some [1, 2, 3]"
  using BVC_bytes_roundtrip [of "[1, 2, 3]"] by (auto simp: numeral_3_eq_3)

end
