(* ===== verification/Clover_Memory.thy ===== *)
theory Clover_Memory
  imports Clover_Concolic
begin

text \<open>
  clover's byte-addressed concolic memory (\<open>memory.cpp\<close>) and the TLM target the platform puts
  around it (\<open>symex/symbolic_memory.cpp\<close>, \<open>symbolic_extension.cpp\<close>).  \<open>mem_byte\<close> reads the
  memory as the byte array it stands for; the locale \<open>byte_memory\<close> states what a load and a
  store promise over that array and derives what its clients use.
\<close>

section \<open>Operations\<close>

type_synonym ConcolicMemory = "u32 \<rightharpoonup> ConcolicValue"

definition mem_reset :: "ConcolicMemory \<Rightarrow> ConcolicMemory" where
  "mem_reset m = Map.empty"

definition mem_load_byte :: "ConcolicMemory \<Rightarrow> u32 \<Rightarrow> ConcolicValue" where
  "mem_load_byte m read_addr =
     (case m read_addr of Some byte \<Rightarrow> byte | None \<Rightarrow> BVC None (U8 0))"

text \<open>The null pointer a load of no bytes returns is \<open>None\<close>.\<close>

definition mem_load :: "ConcolicMemory \<Rightarrow> u32 \<Rightarrow> nat \<Rightarrow> ConcolicValue option" where
  "mem_load m addr bytesize =
     foldl (\<lambda>result off. concat_byte result (mem_load_byte m (addr + of_nat off))) None [0..<bytesize]"

definition mem_load_cv :: "ConcolicMemory \<Rightarrow> ConcolicValue \<Rightarrow> nat \<Rightarrow> ConcolicValue option" where
  "mem_load_cv m addr bytesize =
     (case getValue 32 (concrete addr) of
        Some base_addr \<Rightarrow> mem_load m (word_of_int base_addr) bytesize
      | None \<Rightarrow> None)"

definition mem_store :: "ConcolicMemory \<Rightarrow> u32 \<Rightarrow> ConcolicValue \<Rightarrow> nat \<Rightarrow> ConcolicMemory" where
  "mem_store m addr value bytesize =
     (let v = (if cv_getWidth value < bytesize * 8 then cv_zext value (bytesize * 8) else value)
      in foldl (\<lambda>d off. d(addr + of_nat off \<mapsto> cv_extract v (off * 8) 8)) m [0..<bytesize])"

definition mem_store_cv :: "ConcolicMemory \<Rightarrow> ConcolicValue \<Rightarrow> ConcolicValue \<Rightarrow> nat \<Rightarrow>
    ConcolicMemory option" where
  "mem_store_cv m addr value bytesize =
     (case getValue 32 (concrete addr) of
        Some base_addr \<Rightarrow> Some (mem_store m (word_of_int base_addr) value bytesize)
      | None \<Rightarrow> None)"

section \<open>The TLM target\<close>

datatype tlm_command = TLM_READ_COMMAND | TLM_WRITE_COMMAND | TLM_IGNORE_COMMAND

datatype tlm_response =
    TLM_OK_RESPONSE | TLM_INCOMPLETE_RESPONSE | TLM_GENERIC_ERROR_RESPONSE
  | TLM_ADDRESS_ERROR_RESPONSE | TLM_COMMAND_ERROR_RESPONSE | TLM_BURST_ERROR_RESPONSE
  | TLM_BYTE_ENABLE_ERROR_RESPONSE

text \<open>
  The payload of a transaction: \<open>tlm_data\<close> is the buffer of \<open>get_data_length()\<close> bytes behind
  \<open>get_data_ptr()\<close>, \<open>tlm_ext\<close> the \<open>SymbolicExtension\<close> the payload carries, if any.
\<close>

record tlm_payload =
  tlm_cmd :: tlm_command
  tlm_addr :: u64
  tlm_data :: "u8 list"
  tlm_status :: tlm_response
  tlm_ext :: "ConcolicValue option"

record SymbolicMemory =
  sm_size :: u64
  sm_memory :: ConcolicMemory

definition sm_load_data :: "SymbolicMemory \<Rightarrow> u8 list \<Rightarrow> u64 \<Rightarrow> SymbolicMemory" where
  "sm_load_data sm src dst_addr =
     sm\<lparr>sm_memory := foldl (\<lambda>d i. mem_store d (ucast (dst_addr + of_nat i)) (BVC None (U8 (src ! i))) 1)
        (sm_memory sm) [0..<length src]\<rparr>"

definition sm_load_zero :: "SymbolicMemory \<Rightarrow> u64 \<Rightarrow> nat \<Rightarrow> SymbolicMemory" where
  "sm_load_zero sm dst_addr n =
     sm\<lparr>sm_memory := foldl (\<lambda>d i. mem_store d (ucast (dst_addr + of_nat i)) (BVC None (U8 0)) 1)
        (sm_memory sm) [0..<n]\<rparr>"

text \<open>
  \<open>None\<close> is the null value a transfer of no bytes would dereference; no initiator of the
  platform issues one.
\<close>

definition sm_read_data :: "SymbolicMemory \<Rightarrow> tlm_payload \<Rightarrow> tlm_payload option" where
  "sm_read_data sm pl =
     (case mem_load (sm_memory sm) (ucast (tlm_addr pl)) (length (tlm_data pl)) of
        None \<Rightarrow> None
      | Some d \<Rightarrow>
          (case BVCToBytes d (length (tlm_data pl)) of
             None \<Rightarrow> None
           | Some bs \<Rightarrow> Some (pl\<lparr>tlm_data := bs, tlm_ext := Some d\<rparr>)))"

definition sm_write_data :: "SymbolicMemory \<Rightarrow> tlm_payload \<Rightarrow> SymbolicMemory option" where
  "sm_write_data sm pl =
     (case (case tlm_ext pl of Some v \<Rightarrow> Some v | None \<Rightarrow> BVC_bytes (tlm_data pl)) of
        None \<Rightarrow> None
      | Some v \<Rightarrow>
          Some (sm\<lparr>sm_memory :=
            mem_store (sm_memory sm) (ucast (tlm_addr pl)) v (length (tlm_data pl))\<rparr>))"

definition sm_transport_dbg :: "SymbolicMemory \<Rightarrow> tlm_payload \<Rightarrow> (SymbolicMemory \<times> tlm_payload \<times> nat) option" where
  "sm_transport_dbg sm pl =
     (let len = length (tlm_data pl) in
      if tlm_addr pl + of_nat len > sm_size sm
      then Some (sm, pl\<lparr>tlm_status := TLM_ADDRESS_ERROR_RESPONSE\<rparr>, 0)
      else case tlm_cmd pl of
        TLM_READ_COMMAND \<Rightarrow> map_option (\<lambda>t. (sm, t, len)) (sm_read_data sm pl)
      | TLM_WRITE_COMMAND \<Rightarrow> map_option (\<lambda>m. (m, pl, len)) (sm_write_data sm pl)
      | TLM_IGNORE_COMMAND \<Rightarrow> Some (sm, pl\<lparr>tlm_status := TLM_ADDRESS_ERROR_RESPONSE\<rparr>, 0))"

text \<open>The delay is in picoseconds, the resolution of \<open>sc_time\<close>.\<close>

definition sm_transport :: "SymbolicMemory \<Rightarrow> tlm_payload \<Rightarrow> u64 \<Rightarrow> (SymbolicMemory \<times> tlm_payload \<times> u64) option" where
  "sm_transport sm pl delay =
     map_option (\<lambda>(m, t, _). (m, t, delay + 10000)) (sm_transport_dbg sm pl)"

section \<open>The interface of a byte memory\<close>

abbreviation bytes_at :: "(u32 \<Rightarrow> u8) \<Rightarrow> u32 \<Rightarrow> nat \<Rightarrow> u8 list" where
  "bytes_at f a n \<equiv> map (\<lambda>i. f (a + of_nat i)) [0..<n]"

text \<open>\<open>within a n x\<close>: the address \<open>x\<close> lies in the \<open>n\<close> bytes from \<open>a\<close>, which may wrap.\<close>

definition within :: "u32 \<Rightarrow> nat \<Rightarrow> u32 \<Rightarrow> bool" where
  "within a n x \<longleftrightarrow> unat (x - a) < n"

locale byte_memory =
  fixes inv :: "'m \<Rightarrow> bool"
    and byte :: "'m \<Rightarrow> u32 \<Rightarrow> u8"
    and load :: "'m \<Rightarrow> u32 \<Rightarrow> nat \<Rightarrow> 'v option"
    and store :: "'m \<Rightarrow> u32 \<Rightarrow> 'v \<Rightarrow> nat \<Rightarrow> 'm"
    and vok :: "width \<Rightarrow> 'v \<Rightarrow> bool"
    and val :: "'v \<Rightarrow> int"
  assumes load_bytes: "inv m \<Longrightarrow> 0 < n \<Longrightarrow>
      \<exists>v. load m a n = Some v \<and> vok (8 * n) v \<and> val v = le_int (bytes_at (byte m) a n)"
    and store_inv: "inv m \<Longrightarrow> vok w v \<Longrightarrow> inv (store m a v n)"
    and store_byte: "inv m \<Longrightarrow> vok w v \<Longrightarrow> n \<le> 2 ^ 32 \<Longrightarrow>
      byte (store m a v n) x =
        (if within a n x then word_of_int (drop_bit (8 * unat (x - a)) (val v)) else byte m x)"
begin

text \<open>A load of what was stored, and a load of bytes the store does not touch.\<close>

lemma load_store_same:
  assumes "inv m" "vok w v" "0 < n" "n \<le> 2 ^ 32"
  shows "\<exists>v'. load (store m a v n) a n = Some v' \<and> vok (8 * n) v' \<and> val v' = take_bit (8 * n) (val v)"
proof -
  have "bytes_at (byte (store m a v n)) a n = map (\<lambda>i. word_of_int (drop_bit (8 * i) (val v))) [0..<n]"
  proof (rule map_cong)
    fix i assume "i \<in> set [0..<n]"
    then have "unat (a + of_nat i - a) = i"
      using assms(4) by (simp add: unat_of_nat take_bit_nat_eq_self_iff)
    with \<open>i \<in> set [0..<n]\<close> show "byte (store m a v n) (a + of_nat i) = word_of_int (drop_bit (8 * i) (val v))"
      using assms by (simp add: store_byte [OF assms(1,2,4)] within_def)
  qed simp
  then have "le_int (bytes_at (byte (store m a v n)) a n) = take_bit (8 * n) (val v)"
    by (simp only: le_int_bytes)
  then show ?thesis
    using load_bytes [OF store_inv [OF assms(1,2)] assms(3), of a n a] by metis
qed

lemma load_store_other:
  assumes "inv m" "vok w v" "0 < k" "n \<le> 2 ^ 32"
    and "\<And>i. i < k \<Longrightarrow> \<not> within a n (b + of_nat i)"
  shows "\<exists>x y. load (store m a v n) b k = Some x \<and> load m b k = Some y \<and> val x = val y"
proof -
  have "bytes_at (byte (store m a v n)) b k = bytes_at (byte m) b k"
    using assms by (simp add: store_byte)
  with load_bytes [OF store_inv [OF assms(1,2)] assms(3), of a n b] load_bytes [OF assms(1,3), of b]
  show ?thesis by auto
qed

text \<open>Stores to disjoint ranges commute.\<close>

lemma store_commute:
  assumes "inv m" "vok w v" "vok w' v'" "n \<le> 2 ^ 32" "k \<le> 2 ^ 32"
    and "\<And>x. \<not> (within a n x \<and> within b k x)"
  shows "byte (store (store m a v n) b v' k) x = byte (store (store m b v' k) a v n) x"
proof -
  note inv = store_inv [OF assms(1,2), of a n] store_inv [OF assms(1,3), of b k]
  show ?thesis
    using assms(6) [of x]
    by (simp add: store_byte [OF inv(1) assms(3,5)] store_byte [OF inv(2) assms(2,4)]
        store_byte [OF assms(1,2,4)] store_byte [OF assms(1,3,5)])
qed

end

section \<open>The concolic memory is one\<close>

definition mem_ok :: "assignment \<Rightarrow> ConcolicMemory \<Rightarrow> bool" where
  "mem_ok \<sigma> m \<longleftrightarrow> (\<forall>a v. m a = Some v \<longrightarrow> cv_ok \<sigma> 8 v)"

definition mem_byte :: "ConcolicMemory \<Rightarrow> u32 \<Rightarrow> u8" where
  "mem_byte m a = word_of_int (cv_val (mem_load_byte m a))"

lemma mem_load_byte_ok: "mem_ok \<sigma> m \<Longrightarrow> cv_ok \<sigma> 8 (mem_load_byte m a)"
  by (simp add: mem_ok_def mem_load_byte_def BVC_byte split: option.split)

lemma mem_byte_val: "mem_ok \<sigma> m \<Longrightarrow> uint (mem_byte m a) = cv_val (mem_load_byte m a)"
  using cv_ok_val_fits(1) [OF mem_load_byte_ok, of \<sigma> m a]
  by (simp add: mem_byte_def uint_word_of_int fits_def take_bit_eq_mod)

lemma mem_load_bytes:
  assumes "mem_ok \<sigma> m"
  shows "0 < n \<longrightarrow> (\<exists>v. mem_load m a n = Some v \<and> cv_ok \<sigma> (8 * n) v \<and>
    cv_val v = le_int (bytes_at (mem_byte m) a n))"
proof (induction n)
  case (Suc n)
  let ?b = "mem_load_byte m (a + of_nat n)"
  note b = mem_load_byte_ok [OF assms, of "a + of_nat n"] mem_byte_val [OF assms, of "a + of_nat n"]
  show ?case
  proof (cases "n = 0")
    case True
    then show ?thesis using b by (simp add: mem_load_def concat_byte_def)
  next
    case False
    with Suc obtain v where v: "mem_load m a n = Some v" "cv_ok \<sigma> (8 * n) v"
        "cv_val v = le_int (bytes_at (mem_byte m) a n)" by blast
    have "mem_load m a (Suc n) = Some (cv_concat ?b v)"
      using v(1) by (simp add: mem_load_def concat_byte_def)
    moreover have "cv_val (cv_concat ?b v) = le_int (bytes_at (mem_byte m) a (Suc n))"
      using cv_concat_ok(2) [OF b(1) v(2)] fits_le_int [of "bytes_at (mem_byte m) a n"] v(3) b(2)
      by (simp add: push_bit_or_add le_int_snoc power_mult add.commute del: horner_sum_append)
    ultimately show ?thesis using cv_concat_ok(1) [OF b(1) v(2)] by (simp add: add.commute)
  qed
qed simp

lemma within_Suc:
  assumes "Suc n \<le> 2 ^ 32"
  shows "within a (Suc n) x \<longleftrightarrow> within a n x \<or> x = a + of_nat n"
proof -
  have n: "unat (of_nat n :: u32) = n"
    using assms by (simp add: unat_of_nat take_bit_nat_eq_self_iff)
  have "x = a + of_nat n \<longleftrightarrow> unat (x - a) = n"
  proof
    assume "unat (x - a) = n"
    then have "x - a = of_nat n" by (metis n word_unat_eq_iff)
    then show "x = a + of_nat n" by (simp add: algebra_simps)
  qed (simp add: n)
  then show ?thesis by (auto simp: within_def less_Suc_eq)
qed

lemma mem_store_loop:
  fixes a x :: u32
  assumes "mem_ok \<sigma> m" and "cv_ok \<sigma> u v" and "n * 8 \<le> u"
  defines "d \<equiv> \<lambda>n. foldl (\<lambda>d off. d(a + of_nat off \<mapsto> cv_extract v (off * 8) 8)) m [0..<n]"
  shows "mem_ok \<sigma> (d n) \<and> (n \<le> 2 ^ 32 \<longrightarrow> mem_byte (d n) x =
      (if within a n x then word_of_int (drop_bit (8 * unat (x - a)) (cv_val v)) else mem_byte m x))"
  using assms(3)
proof (induction n)
  case 0
  then show ?case using assms(1) by (simp add: d_def within_def)
next
  case (Suc n)
  let ?e = "cv_extract v (n * 8) 8"
  have e: "cv_ok \<sigma> 8 ?e" "cv_val ?e = take_bit 8 (drop_bit (n * 8) (cv_val v))"
    using cv_extract_ok [OF assms(2), of 8 "n * 8"] Suc.prems by simp_all
  have d: "d (Suc n) = (d n)(a + of_nat n \<mapsto> ?e)" by (simp add: d_def)
  have "mem_ok \<sigma> (d (Suc n))" using Suc e(1) by (simp add: d mem_ok_def)
  moreover have "mem_byte (d (Suc n)) x =
      (if within a (Suc n) x then word_of_int (drop_bit (8 * unat (x - a)) (cv_val v)) else mem_byte m x)"
    if "Suc n \<le> 2 ^ 32"
  proof (cases "x = a + of_nat n")
    case True
    have "unat (x - a) = n" using that True by (simp add: unat_of_nat take_bit_nat_eq_self_iff)
    then show ?thesis
      using e(2) True word_of_int_take_bit [where 'a = 8, of "drop_bit (n * 8) (cv_val v)"]
      by (simp add: d mem_byte_def mem_load_byte_def within_def mult.commute)
  next
    case False
    then have "mem_byte (d (Suc n)) x = mem_byte (d n) x"
      by (simp add: d mem_byte_def mem_load_byte_def)
    then show ?thesis using Suc that False by (simp add: within_Suc)
  qed
  ultimately show ?case by blast
qed

lemma mem_store_ok:
  assumes "mem_ok \<sigma> m" and "cv_ok \<sigma> w v"
  shows "mem_ok \<sigma> (mem_store m a v n)"
    and "n \<le> 2 ^ 32 \<Longrightarrow> mem_byte (mem_store m a v n) x =
      (if within a n x then word_of_int (drop_bit (8 * unat (x - a)) (cv_val v)) else mem_byte m x)"
proof -
  define v' where "v' = (if cv_getWidth v < n * 8 then cv_zext v (n * 8) else v)"
  have "cv_ok \<sigma> (max w (n * 8)) v'" and val: "cv_val v' = cv_val v"
    using cv_zext_widen [OF assms(2), of "n * 8"] assms(2)
    by (auto simp: v'_def cv_ok_widths max_def)
  from mem_store_loop [OF assms(1) this(1), of n a x] val
  show "mem_ok \<sigma> (mem_store m a v n)"
    and "n \<le> 2 ^ 32 \<Longrightarrow> mem_byte (mem_store m a v n) x =
      (if within a n x then word_of_int (drop_bit (8 * unat (x - a)) (cv_val v)) else mem_byte m x)"
    unfolding mem_store_def Let_def v'_def [symmetric] by simp_all
qed

interpretation cm: byte_memory "mem_ok \<sigma>" mem_byte mem_load mem_store "cv_ok \<sigma>" cv_val
  for \<sigma>
  by unfold_locales (rule mem_load_bytes [rule_format] mem_store_ok; assumption)+

section \<open>Properties\<close>

text \<open>
  C14: a store followed by a load of the same bytes returns the stored value cut to the size of
  the access, and the loaded value still satisfies the concolic invariant, so its symbolic part
  evaluates to the concrete bytes, also when the range wraps around the address space.
\<close>

theorem memory_load_store:
  assumes "mem_ok \<sigma> m" and "cv_ok \<sigma> w v" and "0 < n" and "n \<le> 2 ^ 32"
  shows "\<exists>v'. mem_load (mem_store m a v n) a n = Some v' \<and> cv_ok \<sigma> (8 * n) v' \<and>
    cv_val v' = take_bit (8 * n) (cv_val v)"
  by (rule cm.load_store_same [OF assms])

theorem memory_load_store_witness:
  "\<exists>v'. mem_load (mem_store Map.empty (- 2) (BVC (Some ''x'') (U32 305419896)) 4) (- 2) 4 = Some v' \<and>
    cv_val v' = 305419896"
proof -
  let ?s = "\<lambda>_ i. drop_bit (8 * i) (305419896 :: int)" and ?v = "BVC (Some ''x'') (U32 305419896)"
  have "mem_ok ?s Map.empty" by (simp add: mem_ok_def)
  moreover have "cv_ok ?s 32 ?v" and "cv_val ?v = 305419896" and "take_bit 32 (305419896 :: int) = 305419896"
    by code_simp+
  ultimately show ?thesis using memory_load_store [of ?s Map.empty 32 ?v 4 "- 2"] by auto
qed

text \<open>
  C21: the memory refines a plain array of bytes: a store of \<open>n\<close> bytes changes exactly those
  bytes of the array, to the little-endian bytes of the value, a load reads them back as a
  little-endian number, with zero for memory never written, and both keep the memory's invariant.
\<close>

theorem memory_refines_bytes:
  assumes "mem_ok \<sigma> m" and "cv_ok \<sigma> w v" and "0 < n" and "n \<le> 2 ^ 32"
  shows "mem_ok \<sigma> (mem_store m a v n) \<and>
    mem_byte (mem_store m a v n) =
      (\<lambda>x. if within a n x then word_of_int (drop_bit (8 * unat (x - a)) (cv_val v)) else mem_byte m x) \<and>
    (\<exists>r. mem_load m b n = Some r \<and> cv_ok \<sigma> (8 * n) r \<and> cv_val r = le_int (bytes_at (mem_byte m) b n))"
  using cm.store_inv [OF assms(1,2)] cm.store_byte [OF assms(1,2,4)] cm.load_bytes [OF assms(1,3)]
  by (simp add: fun_eq_iff)

theorem memory_refines_bytes_witness:
  "mem_byte (mem_store Map.empty 16 (BVC None (U32 258)) 2) 17 = 1"
proof -
  have "mem_ok (\<lambda>_ _. 0) Map.empty" by (simp add: mem_ok_def)
  moreover have "cv_ok (\<lambda>_ _. 0) 32 (BVC None (U32 258))" and "cv_val (BVC None (U32 258)) = 258"
    by code_simp+
  moreover have "within 16 2 17" and "drop_bit (8 * unat (17 - 16 :: u32)) (258 :: int) = 1" by code_simp+
  ultimately show ?thesis
    using memory_refines_bytes [of "\<lambda>_ _. 0" Map.empty 32 "BVC None (U32 258)" 2 16 0] by simp
qed

text \<open>
  C33: stores to disjoint ranges of addresses commute, and a load that touches none of the stored
  bytes does not see the store.
\<close>

theorem memory_disjoint:
  assumes "mem_ok \<sigma> m" and "cv_ok \<sigma> w v" and "cv_ok \<sigma> w' v'" and "n \<le> 2 ^ 32" and "k \<le> 2 ^ 32"
    and "0 < k" and "\<forall>x. \<not> (within a n x \<and> within b k x)"
  shows "mem_byte (mem_store (mem_store m a v n) b v' k) = mem_byte (mem_store (mem_store m b v' k) a v n) \<and>
    (\<exists>x y. mem_load (mem_store m a v n) b k = Some x \<and> mem_load m b k = Some y \<and> cv_val x = cv_val y)"
proof -
  have "within b k (b + of_nat i)" if "i < k" for i
    using that assms(5) by (simp add: within_def unat_of_nat take_bit_nat_eq_self_iff)
  with assms(7) have "\<not> within a n (b + of_nat i)" if "i < k" for i using that by blast
  then show ?thesis
    using cm.store_commute [OF assms(1-5)] cm.load_store_other [OF assms(1,2,6,4)] assms(7)
    by (auto simp: fun_eq_iff)
qed

theorem memory_disjoint_witness:
  "let v = BVC None (U32 7) in
   mem_byte (mem_store (mem_store Map.empty 0 v 4) 4 v 4) = mem_byte (mem_store (mem_store Map.empty 4 v 4) 0 v 4)"
proof -
  have "mem_ok (\<lambda>_ _. 0) Map.empty" by (simp add: mem_ok_def)
  moreover have "cv_ok (\<lambda>_ _. 0) 32 (BVC None (U32 7))" by code_simp
  moreover have "\<not> (within 0 4 x \<and> within 4 4 x)" for x
    unfolding within_def by (simp add: unat_sub_if_size word_size split: if_splits) 
  ultimately show ?thesis
    using memory_disjoint [of "\<lambda>_ _. 0" Map.empty 32 "BVC None (U32 7)" 32 "BVC None (U32 7)" 4 4 0 4]
    by (simp add: Let_def)
qed

text \<open>
  C31: the TLM target gives back what was written: after a write transaction inside the memory
  without a symbolic extension, a read transaction of the same range returns the written bytes
  and attaches a concolic value whose concrete part is those bytes as a little-endian number.
\<close>

theorem symbolic_memory_roundtrip:
  assumes "mem_ok \<sigma> (sm_memory sm)"
    and "tlm_cmd w = TLM_WRITE_COMMAND" and "tlm_ext w = None" and "tlm_data w \<noteq> []"
    and "length (tlm_data w) \<le> 2 ^ 32" and "tlm_addr w + of_nat (length (tlm_data w)) \<le> sm_size sm"
    and "tlm_cmd r = TLM_READ_COMMAND" and "tlm_addr r = tlm_addr w"
    and "length (tlm_data r) = length (tlm_data w)"
  shows "\<exists>sm' d. sm_transport_dbg sm w = Some (sm', w, length (tlm_data w)) \<and>
    sm_transport_dbg sm' r = Some (sm', r\<lparr>tlm_data := tlm_data w, tlm_ext := Some d\<rparr>, length (tlm_data w)) \<and>
    mem_ok \<sigma> (sm_memory sm') \<and> cv_ok \<sigma> (8 * length (tlm_data w)) d \<and> cv_val d = le_int (tlm_data w)"
proof -
  let ?n = "length (tlm_data w)" and ?a = "ucast (tlm_addr w) :: u32"
  obtain v where v: "BVC_bytes (tlm_data w) = Some v" "cv_ok \<sigma> (8 * ?n) v" "cv_val v = le_int (tlm_data w)"
    using BVC_bytes_ok [OF assms(4)] by blast
  let ?sm = "sm\<lparr>sm_memory := mem_store (sm_memory sm) ?a v ?n\<rparr>"
  have n: "0 < ?n" using assms(4) by simp
  obtain d where d: "mem_load (mem_store (sm_memory sm) ?a v ?n) ?a ?n = Some d" "cv_ok \<sigma> (8 * ?n) d"
      "cv_val d = le_int (tlm_data w)"
    using cm.load_store_same [OF assms(1) v(2) n assms(5), of ?a] v(3) fits_le_int [of "tlm_data w"]
    by (auto simp: take_bit_fits)
  have "map (\<lambda>i. word_of_int (drop_bit (i * 8) (cv_val d))) [0..<?n] = tlm_data w"
    by (rule nth_equalityI) (simp_all add: d(3) le_int_nth mult.commute [of _ 8])
  with BVCToBytes_ok [OF d(2), of ?n] have "BVCToBytes d ?n = Some (tlm_data w)" by simp
  with d(1) assms(7-9) have "sm_read_data ?sm r = Some (r\<lparr>tlm_data := tlm_data w, tlm_ext := Some d\<rparr>)"
    by (simp add: sm_read_data_def)
  moreover have "sm_write_data sm w = Some ?sm"
    using v(1) assms(3) by (simp add: sm_write_data_def)
  moreover have "mem_ok \<sigma> (sm_memory ?sm)" using mem_store_ok(1) [OF assms(1) v(2)] by simp
  ultimately show ?thesis
    using assms(2,6-9) d(2,3) by (auto simp: sm_transport_dbg_def Let_def)
qed

theorem symbolic_memory_roundtrip_witness:
  "let sm = \<lparr>sm_size = 64, sm_memory = Map.empty\<rparr>;
       w = \<lparr>tlm_cmd = TLM_WRITE_COMMAND, tlm_addr = 60, tlm_data = [1, 2, 3, 4],
            tlm_status = TLM_INCOMPLETE_RESPONSE, tlm_ext = None\<rparr>;
       r = w\<lparr>tlm_cmd := TLM_READ_COMMAND, tlm_data := [0, 0, 0, 0]\<rparr>
   in \<exists>sm' d. sm_transport_dbg sm w = Some (sm', w, 4) \<and>
      sm_transport_dbg sm' r = Some (sm', r\<lparr>tlm_data := [1, 2, 3, 4], tlm_ext := Some d\<rparr>, 4)"
proof -
  let ?sm = "\<lparr>sm_size = 64, sm_memory = Map.empty\<rparr>"
  let ?w = "\<lparr>tlm_cmd = TLM_WRITE_COMMAND, tlm_addr = 60, tlm_data = [1, 2, 3, 4],
            tlm_status = TLM_INCOMPLETE_RESPONSE, tlm_ext = None\<rparr>"
  let ?r = "?w\<lparr>tlm_cmd := TLM_READ_COMMAND, tlm_data := [0, 0, 0, 0]\<rparr>"
  have mem: "mem_ok (\<lambda>_ _. 0) (sm_memory ?sm)" by (simp add: mem_ok_def)
  have bound: "tlm_addr ?w + of_nat (length (tlm_data ?w)) \<le> sm_size ?sm" by code_simp
  have dat: "tlm_data ?w = [1, 2, 3, 4]" and len: "length [1, 2, 3, 4 :: u8] = 4" by simp_all
  have "\<exists>sm' d. sm_transport_dbg ?sm ?w = Some (sm', ?w, length (tlm_data ?w)) \<and>
      sm_transport_dbg sm' ?r =
        Some (sm', ?r\<lparr>tlm_data := tlm_data ?w, tlm_ext := Some d\<rparr>, length (tlm_data ?w)) \<and>
      mem_ok (\<lambda>_ _. 0) (sm_memory sm') \<and> cv_ok (\<lambda>_ _. 0) (8 * length (tlm_data ?w)) d \<and>
      cv_val d = le_int (tlm_data ?w)"
    by (rule symbolic_memory_roundtrip [OF mem _ _ _ _ bound]) simp_all
  then show ?thesis unfolding Let_def dat len by blast
qed



end
