(* ===== verification/Clover_Trace.thy ===== *)
theory Clover_Trace
  imports Clover_Memory
begin

text \<open>
  clover's execution tree (\<open>branch.cpp\<close>, \<open>trace.cpp\<close>) and execution context (\<open>context.cpp\<close>): the
  tree of branch conditions a program has evaluated, the search for a path not taken yet and the
  values the next run starts with.

  A \<open>Branch\<close> is a tree node; the pointer \<open>pathCondsCurrent\<close> into the tree is the list of
  directions that lead to its node from the root.  What the code calls in KLEE and in the SMT
  solver behind it is the parameter record \<open>klee\<close>, with the laws \<open>klee_ok\<close>; \<open>rand()\<close> is a
  parameter too, a step function on an arbitrary generator state.
\<close>

section \<open>Queries\<close>

text \<open>
  The constraint manager and \<open>Expr::createIsZero\<close> (\<open>None\<close>: the assertion against a constraint
  that folds to false), and \<open>Solver::getInitialValues\<close>, which looks for values under which the
  constraints hold and the expression of the query does not.
\<close>

type_synonym Query = "expr list \<times> expr"
type_synonym Assignment = "(array \<times> u8 list) list"

datatype Validity = V_True | V_False | V_Unknown

record klee =
  addConstraint :: "expr list \<Rightarrow> expr \<Rightarrow> expr list option"
  simplifyExpr :: "expr list \<Rightarrow> expr \<Rightarrow> expr"
  createIsZero :: "expr \<Rightarrow> expr"
  getInitialValues :: "Query \<Rightarrow> Assignment option"
  computeValidity :: "Query \<Rightarrow> Validity option"

definition negateExpr :: "klee \<Rightarrow> Query \<Rightarrow> Query" where
  "negateExpr k q = (fst q, createIsZero k (snd q))"

definition getAssignment :: "klee \<Rightarrow> Query \<Rightarrow> Assignment option" where
  "getAssignment k query =
     (let nq = negateExpr k query
      in case dc_const (snd nq) of
           Some ce \<Rightarrow> (if isTrue ce then None else getInitialValues k nq)
         | None \<Rightarrow> getInitialValues k nq)"

text \<open>
  \<open>klee::Solver::evaluate\<close> and \<open>Solver::eval\<close>: a constant is decided without the solver; a
  solver that fails or does not know the answer, and an expression that is no Boolean, end in
  the error named on the left.
\<close>

definition evaluate :: "klee \<Rightarrow> Query \<Rightarrow> string + Validity" where
  "evaluate k q =
     (if getWidth (snd q) \<noteq> 1 then Inl ''Invalid expression type!''
      else case dc_const (snd q) of
             Some ce \<Rightarrow> Inr (if isTrue ce then V_True else V_False)
           | None \<Rightarrow>
               (case computeValidity k q of
                  None \<Rightarrow> Inl ''solver failed to evaluate query''
                | Some v \<Rightarrow> Inr v))"

definition solver_eval :: "klee \<Rightarrow> Query \<Rightarrow> string + bool" where
  "solver_eval k q =
     (case evaluate k q of
        Inl e \<Rightarrow> Inl e
      | Inr V_True \<Rightarrow> Inr True
      | Inr V_False \<Rightarrow> Inr False
      | Inr V_Unknown \<Rightarrow> Inl ''unknown solver result'')"

section \<open>The execution tree\<close>

datatype Branch = Branch (br_bv: "expr option") (wasNegated: bool)
  (true_branch: "Branch option") (false_branch: "Branch option")

type_synonym Path = "(expr \<times> bool) list"

definition newBranch :: Branch where
  "newBranch = Branch None False None None"

definition isPlaceholder :: "Branch \<Rightarrow> bool" where
  "isPlaceholder b \<longleftrightarrow> br_bv b = None"

text \<open>
  \<open>getRandomPath\<close> returns the path it built, or \<open>None\<close> where the code returns false and leaves
  the path as it was, with the tree in which the chosen node is marked.
\<close>

fun getRandomPath :: "('r \<Rightarrow> nat \<times> 'r) \<Rightarrow> 'r \<Rightarrow> Branch \<Rightarrow> Path option \<times> Branch \<times> 'r"
  and CHECK_BRANCH :: "('r \<Rightarrow> nat \<times> 'r) \<Rightarrow> 'r \<Rightarrow> Branch option \<Rightarrow> Path option \<times> Branch option \<times> 'r"
where
  "getRandomPath rand s (Branch None neg t f) = (None, Branch None neg t f, s)"
| "getRandomPath rand s (Branch (Some e) neg t f) =
     (if \<not> neg \<and> (t = None \<or> f = None)
      then (Some [(e, t \<noteq> None)], Branch (Some e) True t f, s)
      else
        (case rand s of (random, s1) \<Rightarrow>
           if random mod 2 = 0 then
             (case CHECK_BRANCH rand s1 t of
                (Some p, t', s2) \<Rightarrow> (Some ((e, True) # p), Branch (Some e) neg t' f, s2)
              | (None, t', s2) \<Rightarrow>
                  (case CHECK_BRANCH rand s2 f of
                     (Some p, f', s3) \<Rightarrow> (Some ((e, False) # p), Branch (Some e) neg t' f', s3)
                   | (None, f', s3) \<Rightarrow> (None, Branch (Some e) neg t' f', s3)))
           else
             (case CHECK_BRANCH rand s1 f of
                (Some p, f', s2) \<Rightarrow> (Some ((e, False) # p), Branch (Some e) neg t f', s2)
              | (None, f', s2) \<Rightarrow>
                  (case CHECK_BRANCH rand s2 t of
                     (Some p, t', s3) \<Rightarrow> (Some ((e, True) # p), Branch (Some e) neg t' f', s3)
                   | (None, t', s3) \<Rightarrow> (None, Branch (Some e) neg t' f', s3)))))"
| "CHECK_BRANCH rand s None = (None, None, s)"
| "CHECK_BRANCH rand s (Some b) =
     (case getRandomPath rand s b of (p, b', s') \<Rightarrow> (p, Some b', s'))"

section \<open>The trace\<close>

record Trace =
  tr_cs :: "expr list"
  pathCondsRoot :: Branch
  pathCondsCurrent :: "bool list option"

definition newTrace :: Trace where
  "newTrace = \<lparr>tr_cs = [], pathCondsRoot = newBranch, pathCondsCurrent = None\<rparr>"

definition trace_reset :: "Trace \<Rightarrow> Trace" where
  "trace_reset t = t\<lparr>tr_cs := [], pathCondsCurrent := None\<rparr>"

definition branch_cond :: "expr \<Rightarrow> bool \<Rightarrow> expr" where
  "branch_cond bv cond = (if cond then eqTrue bv else eqFalse bv)"

text \<open>The part of \<open>add\<close> that changes the tree, at the node \<open>pathCondsCurrent\<close> points to.\<close>

definition or_new :: "Branch option \<Rightarrow> Branch option" where
  "or_new x = (case x of None \<Rightarrow> Some newBranch | Some b \<Rightarrow> Some b)"

fun branch_add :: "bool list \<Rightarrow> bool \<Rightarrow> expr \<Rightarrow> Branch \<Rightarrow> Branch" where
  "branch_add [] cond bv (Branch b n t f) =
     (let b' = (if b = None then Some bv else b)
      in if cond then Branch b' n (or_new t) f else Branch b' n t (or_new f))"
| "branch_add (d # ds) cond bv (Branch b n t f) =
     (if d then Branch b n (map_option (branch_add ds cond bv) t) f
      else Branch b n t (map_option (branch_add ds cond bv) f))"

definition trace_add :: "klee \<Rightarrow> bool \<Rightarrow> expr \<Rightarrow> Trace \<Rightarrow> Trace option" where
  "trace_add k cond bv t =
     (case addConstraint k (tr_cs t) (branch_cond bv cond) of
        None \<Rightarrow> None
      | Some cs \<Rightarrow>
          (let pos = (case pathCondsCurrent t of Some p \<Rightarrow> p | None \<Rightarrow> [])
           in Some (t\<lparr>tr_cs := cs,
                      pathCondsRoot := branch_add pos cond bv (pathCondsRoot t),
                      pathCondsCurrent := Some (pos @ [cond])\<rparr>)))"

definition getQuery :: "klee \<Rightarrow> Trace \<Rightarrow> expr \<Rightarrow> Query" where
  "getQuery k t bv = (tr_cs t, simplifyExpr k (tr_cs t) bv)"

fun newQuery :: "klee \<Rightarrow> expr list \<Rightarrow> Path \<Rightarrow> Query option" where
  "newQuery k cs [] = None"
| "newQuery k cs [(bv, cond)] =
     Some (negateExpr k (cs, simplifyExpr k cs (branch_cond bv cond)))"
| "newQuery k cs ((bv, cond) # x # path) =
     (case addConstraint k cs (branch_cond bv cond) of
        None \<Rightarrow> None
      | Some cs' \<Rightarrow> newQuery k cs' (x # path))"

section \<open>Nodes left to try\<close>

text \<open>
  The nodes \<open>getRandomPath\<close> can still choose: each call that finds a path marks one of them, which
  bounds the loop of \<open>findNewPath\<close>.
\<close>

definition halfOpen :: "Branch \<Rightarrow> bool" where
  "halfOpen b \<longleftrightarrow> br_bv b \<noteq> None \<and> (true_branch b = None \<or> false_branch b = None)"

fun open_nodes :: "Branch \<Rightarrow> nat" where
  "open_nodes (Branch bv neg t f) =
     of_bool (\<not> neg \<and> halfOpen (Branch bv neg t f)) +
     (case t of None \<Rightarrow> 0 | Some b \<Rightarrow> open_nodes b) +
     (case f of None \<Rightarrow> 0 | Some b \<Rightarrow> open_nodes b)"

fun branch_at :: "Branch \<Rightarrow> bool list \<Rightarrow> Branch option" where
  "branch_at b [] = Some b"
| "branch_at b (d # ds) =
     (case (if d then true_branch b else false_branch b) of
        None \<Rightarrow> None
      | Some c \<Rightarrow> branch_at c ds)"

text \<open>
  The shape \<open>add\<close> keeps: a placeholder is a leaf, a node with a condition has a child, and the
  condition is a well-formed truth value.
\<close>

fun branch_wf :: "Branch \<Rightarrow> bool" where
  "branch_wf (Branch bv neg t f) \<longleftrightarrow>
     (case bv of
        None \<Rightarrow> t = None \<and> f = None
      | Some e \<Rightarrow> wt e \<and> getWidth e = 1 \<and> (t \<noteq> None \<or> f \<noteq> None)) \<and>
     (case t of None \<Rightarrow> True | Some b \<Rightarrow> branch_wf b) \<and>
     (case f of None \<Rightarrow> True | Some b \<Rightarrow> branch_wf b)"

text \<open>\<open>path_in b p\<close>: \<open>p\<close> lists the conditions and directions met on the way to the node it ends at.\<close>

fun path_in :: "Branch \<Rightarrow> Path \<Rightarrow> bool" where
  "path_in b [] \<longleftrightarrow> False"
| "path_in b [(e, c)] \<longleftrightarrow> br_bv b = Some e"
| "path_in b ((e, c) # x # p) \<longleftrightarrow> br_bv b = Some e \<and>
     (case (if c then true_branch b else false_branch b) of
        None \<Rightarrow> False
      | Some b' \<Rightarrow> path_in b' (x # p))"

text \<open>
  \<open>open_path b p\<close>: moreover the node \<open>p\<close> ends at can still be chosen, and the last direction is
  the one already visited.
\<close>

fun open_path :: "Branch \<Rightarrow> Path \<Rightarrow> bool" where
  "open_path b [] \<longleftrightarrow> False"
| "open_path b [(e, c)] \<longleftrightarrow> br_bv b = Some e \<and> \<not> wasNegated b \<and> halfOpen b \<and> c = (true_branch b \<noteq> None)"
| "open_path b ((e, c) # x # p) \<longleftrightarrow> br_bv b = Some e \<and>
     (case (if c then true_branch b else false_branch b) of
        None \<Rightarrow> False
      | Some b' \<Rightarrow> open_path b' (x # p))"

lemma open_path_in: "open_path b p \<Longrightarrow> path_in b p"
  by (induction b p rule: open_path.induct) (auto split: option.splits if_splits)

lemma open_path_Cons:
  assumes "p \<noteq> []"
  shows "open_path b ((e, c) # p) \<longleftrightarrow> br_bv b = Some e \<and>
     (case (if c then true_branch b else false_branch b) of None \<Rightarrow> False | Some b' \<Rightarrow> open_path b' p)"
  using assms by (cases p) auto

lemma open_nodes_eq:
  "open_nodes b = of_bool (\<not> wasNegated b \<and> halfOpen b) +
     (case true_branch b of None \<Rightarrow> 0 | Some c \<Rightarrow> open_nodes c) +
     (case false_branch b of None \<Rightarrow> 0 | Some c \<Rightarrow> open_nodes c)"
  by (cases b) simp

lemma open_nodes_0: "open_path b p \<Longrightarrow> open_nodes b \<noteq> 0"
proof (induction b p rule: open_path.induct)
  case (2 b e c)
  then show ?case by (subst open_nodes_eq) simp
next
  case (3 b e c x p)
  then show ?case by (subst open_nodes_eq) (auto split: option.splits if_splits)
qed simp

definition flip_last :: "bool list \<Rightarrow> bool list" where
  "flip_last ds = butlast ds @ [\<not> last ds]"

lemma flip_last_simps [simp]:
  "flip_last [d] = [\<not> d]" "ds \<noteq> [] \<Longrightarrow> flip_last (d # ds) = d # flip_last ds"
  by (simp_all add: flip_last_def)

lemma path_in_nonempty: "path_in b p \<Longrightarrow> p \<noteq> []"
  by (cases p) auto

text \<open>
  What a successful search leaves: \<open>p\<close> leads to a node whose other side has not been visited,
  one node less is left to try, and apart from the mark the tree is the same.
\<close>

definition same_shape :: "Branch \<Rightarrow> Branch \<Rightarrow> bool" where
  "same_shape b b' \<longleftrightarrow>
     (\<forall>ds. map_option br_bv (branch_at b' ds) = map_option br_bv (branch_at b ds))"

definition found :: "Branch \<Rightarrow> Path \<Rightarrow> Branch \<Rightarrow> bool" where
  "found b p b' \<longleftrightarrow> open_path b p \<and> (\<forall>q. open_path b' q \<longleftrightarrow> open_path b q \<and> q \<noteq> p) \<and>
     branch_at b (flip_last (map snd p)) = None \<and>
     open_nodes b = Suc (open_nodes b') \<and> (branch_wf b \<longrightarrow> branch_wf b') \<and> same_shape b b'"

lemma same_shape_refl [simp]: "same_shape b b"
  by (simp add: same_shape_def)

lemma branch_at_Nil_shape [simp]: "same_shape b b' \<Longrightarrow> br_bv b' = br_bv b"
  unfolding same_shape_def by (drule spec [of _ "[]"]) simp

lemma same_shape_node:
  assumes "rel_option same_shape t t'" and "rel_option same_shape f f'"
  shows "same_shape (Branch e n t f) (Branch e n' t' f')"
  unfolding same_shape_def
proof
  fix ds
  show "map_option br_bv (branch_at (Branch e n' t' f') ds) =
      map_option br_bv (branch_at (Branch e n t f) ds)"
    using assms by (cases ds) (auto simp: same_shape_def option.rel_sel split: option.splits)
qed

lemma same_shape_opt_refl [simp]: "rel_option same_shape x x"
  by (cases x) simp_all

lemma path_cases [case_names Nil single Cons]:
  obtains "q = []" | e c where "q = [(e, c)]" | e c r where "q = (e, c) # r" "r \<noteq> []"
  by (cases q; cases "tl q = []") auto

lemma open_path_mark:
  assumes "t = None \<or> f = None"
  shows "open_path (Branch (Some e) True t f) q \<longleftrightarrow>
    open_path (Branch (Some e) False t f) q \<and> q \<noteq> [(e, t \<noteq> None)]"
  using assms by (cases q rule: path_cases; auto simp: halfOpen_def open_path_Cons)

lemma found_here:
  assumes "t = None \<or> f = None"
  shows "found (Branch (Some e) False t f) [(e, t \<noteq> None)] (Branch (Some e) True t f)"
  using assms
  by (auto simp: found_def halfOpen_def open_path_mark intro: same_shape_node)

lemma open_path_child:
  assumes c': "\<And>q. open_path c' q \<longleftrightarrow> open_path c q \<and> q \<noteq> p" and "p \<noteq> []"
  shows "open_path (Branch (Some e) n (Some c') f) q \<longleftrightarrow>
      open_path (Branch (Some e) n (Some c) f) q \<and> q \<noteq> (e, True) # p"
    and "open_path (Branch (Some e) n t (Some c')) q \<longleftrightarrow>
      open_path (Branch (Some e) n t (Some c)) q \<and> q \<noteq> (e, False) # p"
  using \<open>p \<noteq> []\<close>
  by (cases q rule: path_cases; auto simp: halfOpen_def open_path_Cons c' split: option.split)+

lemma found_child:
  assumes "found c p c'"
  shows "found (Branch (Some e) n (Some c) f) ((e, True) # p) (Branch (Some e) n (Some c') f)"
    and "found (Branch (Some e) n t (Some c)) ((e, False) # p) (Branch (Some e) n t (Some c'))"
proof -
  have o: "open_path c p" and oq: "\<And>q. open_path c' q \<longleftrightarrow> open_path c q \<and> q \<noteq> p"
    and u: "branch_at c (flip_last (map snd p)) = None" and n: "open_nodes c = Suc (open_nodes c')"
    and wf: "branch_wf c \<Longrightarrow> branch_wf c'" and sh: "same_shape c c'"
    using assms by (simp_all only: found_def simp_thms)
  from o have p: "p \<noteq> []" by (cases p) simp_all
  note child = open_path_child [OF oq p]
  have "branch_wf (Branch (Some e) n (Some c) f) \<longrightarrow> branch_wf (Branch (Some e) n (Some c') f)"
    and "branch_wf (Branch (Some e) n t (Some c)) \<longrightarrow> branch_wf (Branch (Some e) n t (Some c'))"
    using wf by auto
  moreover have "open_path (Branch (Some e) n (Some c) f) ((e, True) # p)"
    and "open_path (Branch (Some e) n t (Some c)) ((e, False) # p)"
    using o p by (simp_all add: open_path_Cons)
  moreover have "open_nodes (Branch (Some e) n (Some c) f) = Suc (open_nodes (Branch (Some e) n (Some c') f))"
    and "open_nodes (Branch (Some e) n t (Some c)) = Suc (open_nodes (Branch (Some e) n t (Some c')))"
    using n by (simp_all add: halfOpen_def)
  moreover have "same_shape (Branch (Some e) n (Some c) f) (Branch (Some e) n (Some c') f)"
    and "same_shape (Branch (Some e) n t (Some c)) (Branch (Some e) n t (Some c'))"
    using sh by (simp_all add: same_shape_node)
  moreover have "branch_at (Branch (Some e) n (Some c) f) (flip_last (map snd ((e, True) # p))) = None"
    and "branch_at (Branch (Some e) n t (Some c)) (flip_last (map snd ((e, False) # p))) = None"
    using u p by simp_all
  ultimately show "found (Branch (Some e) n (Some c) f) ((e, True) # p) (Branch (Some e) n (Some c') f)"
    and "found (Branch (Some e) n t (Some c)) ((e, False) # p) (Branch (Some e) n t (Some c'))"
    by (simp_all only: found_def child simp_thms)
qed

text \<open>What a search returns: a found node, or the tree unchanged because nothing is left to try.\<close>

definition searched :: "Branch \<Rightarrow> Path option \<times> Branch \<times> 'r \<Rightarrow> bool" where
  "searched b r \<longleftrightarrow>
     (case r of
        (None, b', s') \<Rightarrow> b' = b \<and> (branch_wf b \<longrightarrow> open_nodes b = 0)
      | (Some p, b', s') \<Rightarrow> found b p b')"

definition checked :: "Branch option \<Rightarrow> Path option \<times> Branch option \<times> 'r \<Rightarrow> bool" where
  "checked x r \<longleftrightarrow>
     (case r of
        (None, x', s') \<Rightarrow> x' = x \<and> (\<forall>b. x = Some b \<longrightarrow> branch_wf b \<longrightarrow> open_nodes b = 0)
      | (Some p, x', s') \<Rightarrow> (\<exists>b b'. x = Some b \<and> x' = Some b' \<and> found b p b'))"

lemma searched_tf:
  assumes "\<not> (\<not> n \<and> (t = None \<or> f = None))"
    and "checked t (p, u, s2)" and "p = None \<Longrightarrow> checked f (p', u', s3)"
  shows "searched (Branch (Some e) n t f)
     (case p of Some q \<Rightarrow> (Some ((e, True) # q), Branch (Some e) n u f, s2)
      | None \<Rightarrow> (case p' of Some q \<Rightarrow> (Some ((e, False) # q), Branch (Some e) n u u', s3)
                 | None \<Rightarrow> (None, Branch (Some e) n u u', s3)))"
  using assms found_child [where e = e and n = n]
  by (auto simp: searched_def checked_def halfOpen_def split: option.splits)

lemma searched_ft:
  assumes "\<not> (\<not> n \<and> (t = None \<or> f = None))"
    and "checked f (p, u, s2)" and "p = None \<Longrightarrow> checked t (p', u', s3)"
  shows "searched (Branch (Some e) n t f)
     (case p of Some q \<Rightarrow> (Some ((e, False) # q), Branch (Some e) n t u, s2)
      | None \<Rightarrow> (case p' of Some q \<Rightarrow> (Some ((e, True) # q), Branch (Some e) n u' u, s3)
                 | None \<Rightarrow> (None, Branch (Some e) n u' u, s3)))"
  using assms found_child [where e = e and n = n]
  by (auto simp: searched_def checked_def halfOpen_def split: option.splits)

lemma getRandomPath_searched:
  "searched b (getRandomPath rand s b)"
  "checked x (CHECK_BRANCH rand s x)"
proof (induction rand s b and rand s x rule: getRandomPath_CHECK_BRANCH.induct)
  case (1 rand s neg t f)
  then show ?case by (auto simp: halfOpen_def searched_def)
next
  case (2 rand s e neg t f)
  show ?case
  proof (cases "\<not> neg \<and> (t = None \<or> f = None)")
    case True
    then show ?thesis using found_here [of t f e] by (simp add: searched_def)
  next
    case False
    obtain random s1 where r: "rand s = (random, s1)" by (cases "rand s")
    note * = False r [symmetric]
    show ?thesis
    proof (cases "random mod 2 = 0")
      case True
      obtain p u s2 where t1: "CHECK_BRANCH rand s1 t = (p, u, s2)" using prod_cases3 by blast
      obtain p' u' s3 where f1: "CHECK_BRANCH rand s2 f = (p', u', s3)" using prod_cases3 by blast
      have "checked t (p, u, s2)" and "p = None \<Longrightarrow> checked f (p', u', s3)"
        using 2(1) [OF * True] 2(2) [OF * True t1 [symmetric] _ refl] t1 f1 by simp_all
      from searched_tf [OF False this, of e] show ?thesis
        using False True r t1 f1 by (auto split: option.splits)
    next
      case odd: False
      obtain p u s2 where f1: "CHECK_BRANCH rand s1 f = (p, u, s2)" using prod_cases3 by blast
      obtain p' u' s3 where t1: "CHECK_BRANCH rand s2 t = (p', u', s3)" using prod_cases3 by blast
      have "checked f (p, u, s2)" and "p = None \<Longrightarrow> checked t (p', u', s3)"
        using 2(3) [OF * odd] 2(4) [OF * odd f1 [symmetric] _ refl] t1 f1 by simp_all
      from searched_ft [OF False this, of e] show ?thesis
        using False odd r t1 f1 by (auto split: option.splits)
    qed
  qed
next
  case (3 rand s)
  then show ?case by (simp add: checked_def)
next
  case (4 rand s b)
  then show ?case by (auto simp: checked_def searched_def split: prod.splits option.splits)
qed

lemma getRandomPath_Some: "getRandomPath rand s b = (Some p, b', s') \<Longrightarrow> found b p b'"
  using getRandomPath_searched(1) [of b rand s] by (simp add: searched_def)

lemma getRandomPath_None:
  "getRandomPath rand s b = (None, b', s') \<Longrightarrow> b' = b \<and> (branch_wf b \<longrightarrow> open_nodes b = 0)"
  using getRandomPath_searched(1) [of b rand s] by (simp add: searched_def)

section \<open>The search for a new path\<close>

text \<open>
  The loop of \<open>findNewPath\<close>: \<open>None\<close> is the failed assertion of the constraint manager, \<open>Some
  (None, \<dots>)\<close> the exhausted tree.
\<close>

function findNewPath :: "klee \<Rightarrow> ('r \<Rightarrow> nat \<times> 'r) \<Rightarrow> 'r \<Rightarrow> Branch \<Rightarrow>
    (Assignment option \<times> Branch \<times> 'r) option" where
  "findNewPath k rand s root =
     (case getRandomPath rand s root of
        (None, root', s') \<Rightarrow> Some (None, root', s')
      | (Some path, root', s') \<Rightarrow>
          (case newQuery k [] path of
             None \<Rightarrow> None
           | Some query \<Rightarrow>
               (case getAssignment k query of
                  Some assign \<Rightarrow> Some (Some assign, root', s')
                | None \<Rightarrow> findNewPath k rand s' root')))"
  by pat_completeness auto

termination findNewPath
  by (relation "measure (\<lambda>(k, rand, s, root). open_nodes root)")
    (auto dest!: getRandomPath_Some [OF sym] simp: found_def)

declare findNewPath.simps [simp del]


section \<open>What the tree needs of the solver\<close>

definition bool_expr :: "expr \<Rightarrow> bool" where
  "bool_expr e \<longleftrightarrow> wt e \<and> getWidth e = 1"

definition sat :: "assignment \<Rightarrow> expr list \<Rightarrow> bool" where
  "sat \<sigma> cs \<longleftrightarrow> (\<forall>c \<in> set cs. eval \<sigma> c \<noteq> 0)"

text \<open>The values an \<open>Assignment\<close> gives the arrays; an array that is not bound reads as zero.\<close>

definition assign_fn :: "Assignment \<Rightarrow> assignment" where
  "assign_fn as a i =
     (case map_of as a of
        Some bs \<Rightarrow> (if i < length bs then uint (bs ! i) else 0)
      | None \<Rightarrow> 0)"

text \<open>
  A constraint is added without losing or gaining models and is refused only when no model is
  left; an expression is simplified to one that is equal under the constraints, a constant to
  itself; a solution found by the solver satisfies the constraints and falsifies the expression.
\<close>

definition klee_ok :: "klee \<Rightarrow> bool" where
  "klee_ok k \<longleftrightarrow>
     (\<forall>cs e. list_all bool_expr cs \<longrightarrow> bool_expr e \<longrightarrow>
        (case addConstraint k cs e of
           None \<Rightarrow> \<forall>\<sigma>. \<not> (sat \<sigma> cs \<and> eval \<sigma> e \<noteq> 0)
         | Some cs' \<Rightarrow> list_all bool_expr cs' \<and> (\<forall>\<sigma>. sat \<sigma> cs' \<longleftrightarrow> sat \<sigma> cs \<and> eval \<sigma> e \<noteq> 0)) \<and>
        bool_expr (simplifyExpr k cs e) \<and>
        (\<forall>\<sigma>. sat \<sigma> cs \<longrightarrow> eval \<sigma> (simplifyExpr k cs e) = eval \<sigma> e) \<and>
        bool_expr (createIsZero k e) \<and>
        (\<forall>\<sigma>. eval \<sigma> (createIsZero k e) = of_bool (eval \<sigma> e = 0)) \<and>
        (\<forall>as. getInitialValues k (cs, e) = Some as \<longrightarrow>
           sat (assign_fn as) cs \<and> eval (assign_fn as) e = 0)) \<and>
     (\<forall>cs c. simplifyExpr k cs (ConstantExpr c) = ConstantExpr c)"

text \<open>\<open>takes \<sigma> p\<close>: under \<open>\<sigma>\<close> every condition of \<open>p\<close> has the value its direction stands for.\<close>

definition takes :: "assignment \<Rightarrow> Path \<Rightarrow> bool" where
  "takes \<sigma> p \<longleftrightarrow> (\<forall>(e, c) \<in> set p. (eval \<sigma> e \<noteq> 0) = c)"

definition flips :: "assignment \<Rightarrow> Path \<Rightarrow> bool" where
  "flips \<sigma> p \<longleftrightarrow> takes \<sigma> (butlast p) \<and> (eval \<sigma> (fst (last p)) \<noteq> 0) \<noteq> snd (last p)"

lemma sat_Nil [simp]: "sat \<sigma> []"
  by (simp add: sat_def)

lemma takes_simps [simp]:
  "takes \<sigma> []" "takes \<sigma> ((e, c) # p) \<longleftrightarrow> (eval \<sigma> e \<noteq> 0) = c \<and> takes \<sigma> p"
  by (auto simp: takes_def)

lemma bool_expr_val: "bool_expr e \<Longrightarrow> eval \<sigma> e = 0 \<or> eval \<sigma> e = 1"
  using wt_fits [of e \<sigma>] by (simp add: bool_expr_def fits_1)

lemma branch_cond_bool [simp]: "bool_expr e \<Longrightarrow> bool_expr (branch_cond e c)"
  by (simp add: bool_expr_def branch_cond_def eqTrue_def eqFalse_def ce_ok_alloc)

lemma branch_cond_eval [simp]: "bool_expr e \<Longrightarrow> (eval \<sigma> (branch_cond e c) \<noteq> 0) = ((eval \<sigma> e \<noteq> 0) = c)"
  using bool_expr_val [of e \<sigma>] by (auto simp: branch_cond_def eqTrue_def eqFalse_def)

lemma klee_addD:
  assumes "klee_ok k" "list_all bool_expr cs" "bool_expr e" "addConstraint k cs e = Some cs'"
  shows "list_all bool_expr cs'" "sat \<sigma> cs' \<longleftrightarrow> sat \<sigma> cs \<and> eval \<sigma> e \<noteq> 0"
  using assms unfolding klee_ok_def by (fastforce split: option.splits)+

lemma klee_add_sat:
  assumes "klee_ok k" "list_all bool_expr cs" "bool_expr e" "sat \<sigma> cs" "eval \<sigma> e \<noteq> 0"
  shows "\<exists>cs'. addConstraint k cs e = Some cs'"
  using assms unfolding klee_ok_def by (fastforce split: option.splits)

lemma klee_exprD:
  assumes "klee_ok k" "list_all bool_expr cs" "bool_expr e"
  shows "bool_expr (simplifyExpr k cs e)" "sat \<sigma> cs \<Longrightarrow> eval \<sigma> (simplifyExpr k cs e) = eval \<sigma> e"
    "bool_expr (createIsZero k e)" "eval \<sigma> (createIsZero k e) = of_bool (eval \<sigma> e = 0)"
    "getInitialValues k (cs, e) = Some as \<Longrightarrow> sat (assign_fn as) cs \<and> eval (assign_fn as) e = 0"
  using assms unfolding klee_ok_def by blast+

lemma klee_simplify_const: "klee_ok k \<Longrightarrow> simplifyExpr k cs (ConstantExpr c) = ConstantExpr c"
  by (simp add: klee_ok_def)

text \<open>The condition of a branch is decided by its concrete part alone.\<close>

lemma solver_eval_concrete:
  assumes "klee_ok k" and "cv_ok \<sigma> 1 v"
  shows "solver_eval k (getQuery k t (concrete v)) = Inr (cv_val v \<noteq> 0)"
proof -
  obtain c where c: "concrete v = ConstantExpr c" "wt (ConstantExpr c)" "ce_width c = 1"
    using assms(2) by (auto simp: cv_ok_def isConstant_iff)
  then have "isTrue c \<longleftrightarrow> cv_val v \<noteq> 0"
    using cv_ok_val_fits(1) [OF assms(2)] by (auto simp: isTrue_def cv_val_def fits_1)
  with c show ?thesis
    by (simp add: solver_eval_def evaluate_def getQuery_def klee_simplify_const [OF assms(1)])
qed

lemma newQuery_models:
  assumes "klee_ok k" "newQuery k cs p = Some q" "list_all bool_expr cs" "\<forall>(e, c) \<in> set p. bool_expr e"
  shows "list_all bool_expr (fst q) \<and> bool_expr (snd q) \<and>
    (\<forall>\<sigma>. sat \<sigma> (fst q) \<and> eval \<sigma> (snd q) \<noteq> 0 \<longleftrightarrow> sat \<sigma> cs \<and> flips \<sigma> p)"
  using assms
proof (induction k cs p rule: newQuery.induct)
  case (2 k cs bv cond)
  let ?s = "simplifyExpr k cs (branch_cond bv cond)"
  from 2 have b: "bool_expr bv" by simp
  note * = klee_exprD [OF \<open>klee_ok k\<close> "2.prems"(3)]
  have q: "q = (cs, createIsZero k ?s)" using 2 by (simp add: negateExpr_def)
  have "bool_expr ?s" using *(1) [of "branch_cond bv cond"] b by simp
  moreover have "eval \<sigma> (createIsZero k ?s) \<noteq> 0 \<longleftrightarrow> (eval \<sigma> bv \<noteq> 0) \<noteq> cond" if "sat \<sigma> cs" for \<sigma>
    using *(2) [of "branch_cond bv cond" \<sigma>] *(4) [of ?s \<sigma>] that b \<open>bool_expr ?s\<close>
      branch_cond_eval [OF b, of \<sigma> cond] by auto
  ultimately show ?case
    using *(3) [of ?s] "2.prems"(3) by (auto simp: q flips_def)
next
  case (3 k cs bv cond x path)
  from 3 obtain cs' where cs': "addConstraint k cs (branch_cond bv cond) = Some cs'"
      "newQuery k cs' (x # path) = Some q" by (auto split: option.splits)
  from 3 have b: "bool_expr bv" by simp
  note a = klee_addD [OF \<open>klee_ok k\<close> "3.prems"(3) branch_cond_bool [OF b] cs'(1)]
  show ?case
    using "3.IH" [OF cs'(1) \<open>klee_ok k\<close> cs'(2) a(1)] 3 a(2) branch_cond_eval [OF b, of _ cond] by (auto simp: flips_def)
qed simp


lemma getAssignment_Some:
  assumes "klee_ok k" "getAssignment k q = Some as" "list_all bool_expr (fst q)" "bool_expr (snd q)"
  shows "sat (assign_fn as) (fst q) \<and> eval (assign_fn as) (snd q) \<noteq> 0"
proof -
  note * = klee_exprD [OF assms(1,3,4)]
  have "getInitialValues k (fst q, createIsZero k (snd q)) = Some as"
    using assms(2) by (auto simp: getAssignment_def negateExpr_def Let_def split: option.splits if_splits)
  then have "sat (assign_fn as) (fst q) \<and> eval (assign_fn as) (createIsZero k (snd q)) = 0"
    by (rule klee_exprD(5) [OF assms(1,3) *(3)])
  then show ?thesis using *(4) [of "assign_fn as"] by auto
qed

lemma path_in_bool: "path_in b p \<Longrightarrow> branch_wf b \<Longrightarrow> \<forall>(e, c) \<in> set p. bool_expr e"
proof (induction b p rule: path_in.induct)
  case (2 b e c)
  then show ?case by (cases b) (auto simp: bool_expr_def)
next
  case (3 b e c x p)
  then show ?case by (cases b) (auto simp: bool_expr_def split: if_splits option.splits)
qed simp

lemma found_bool: "found b p b' \<Longrightarrow> branch_wf b \<Longrightarrow> \<forall>(e, c) \<in> set p. bool_expr e"
  by (rule path_in_bool [OF open_path_in]) (auto simp: found_def)

lemma path_in_shape: "same_shape b b' \<Longrightarrow> path_in b' p \<Longrightarrow> path_in b p"
proof (induction b' p arbitrary: b rule: path_in.induct)
  case (3 b' e c x p)
  then obtain d where d: "(if c then true_branch b' else false_branch b') = Some d" "path_in d (x # p)"
    by (auto split: option.splits)
  have "map_option br_bv (branch_at b' (c # ds)) = map_option br_bv (branch_at b (c # ds))" for ds
    using "3.prems"(1) unfolding same_shape_def by blast
  then have *: "map_option br_bv (branch_at d ds) = map_option br_bv
      (case if c then true_branch b else false_branch b of None \<Rightarrow> None | Some g \<Rightarrow> branch_at g ds)" for ds
    using d(1) by simp
  from * [of "[]"] obtain g where g: "(if c then true_branch b else false_branch b) = Some g"
    by (auto split: option.splits)
  then have "same_shape g d" using * by (simp add: same_shape_def)
  with 3 d g show ?case by auto
qed auto

lemma same_shape_at: "same_shape b b' \<Longrightarrow> branch_at b' ds = None \<longleftrightarrow> branch_at b ds = None"
  unfolding same_shape_def by (drule spec [of _ ds]) (metis option.map_disc_iff)

lemma same_shape_trans: "same_shape a b \<Longrightarrow> same_shape b c \<Longrightarrow> same_shape a c"
  by (simp add: same_shape_def)

text \<open>What the whole search promises.\<close>

definition new_path :: "Branch \<Rightarrow> Assignment \<Rightarrow> bool" where
  "new_path root as \<longleftrightarrow>
     (\<exists>p. path_in root p \<and> flips (assign_fn as) p \<and> branch_at root (flip_last (map snd p)) = None)"

lemma findNewPath_Some:
  assumes "klee_ok k" "branch_wf root" "findNewPath k rand s root = Some (Some as, root', s')"
  shows "new_path root as \<and> branch_wf root' \<and> same_shape root root' \<and> open_nodes root' < open_nodes root"
  using assms
proof (induction k rand s root rule: findNewPath.induct)
  case (1 k rand s root)
  from "1.prems"(3) obtain p r1 s1 q where g: "getRandomPath rand s root = (Some p, r1, s1)"
    and q: "newQuery k [] p = Some q"
    by (subst (asm) findNewPath.simps) (auto split: prod.splits option.splits)
  note F = getRandomPath_Some [OF g]
  have f: "branch_wf r1" "same_shape root r1" "open_nodes root = Suc (open_nodes r1)" "path_in root p"
      "branch_at root (flip_last (map snd p)) = None"
    using F "1.prems"(2) open_path_in by (auto simp: found_def)
  note Q = newQuery_models [OF "1.prems"(1) q _ found_bool [OF F "1.prems"(2)], simplified]
  show ?case
  proof (cases "getAssignment k q")
    case None
    have "findNewPath k rand s1 r1 = Some (Some as, root', s')"
      using "1.prems"(3) g q None by (subst (asm) findNewPath.simps) simp
    from "1.IH" [OF g [symmetric] refl refl q None "1.prems"(1) f(1) this]
    show ?thesis using f path_in_shape [OF f(2)] same_shape_at [OF f(2)] same_shape_trans [OF f(2)]
      by (auto simp: new_path_def)
  next
    case (Some as')
    then have "as' = as" "r1 = root'" using "1.prems"(3) g q by (auto simp: findNewPath.simps)
    with getAssignment_Some [OF "1.prems"(1) Some] Q f show ?thesis
      by (auto simp: new_path_def)
  qed
qed

text \<open>\<open>refuted k p\<close>: the query for the other side of \<open>p\<close> was built, means that, and found no values.\<close>

definition refuted :: "klee \<Rightarrow> Path \<Rightarrow> bool" where
  "refuted k p \<longleftrightarrow> (\<exists>q. newQuery k [] p = Some q \<and> getAssignment k q = None \<and>
     (\<forall>\<sigma>. flips \<sigma> p \<longleftrightarrow> sat \<sigma> (fst q) \<and> eval \<sigma> (snd q) \<noteq> 0))"

lemma findNewPath_None:
  assumes "klee_ok k" "branch_wf root" "findNewPath k rand s root = Some (None, root', s')"
  shows "open_nodes root' = 0 \<and> same_shape root root' \<and> (\<forall>p. open_path root p \<longrightarrow> refuted k p)"
  using assms
proof (induction k rand s root rule: findNewPath.induct)
  case (1 k rand s root)
  show ?case
  proof (cases "getRandomPath rand s root")
    case (fields o1 r1 s1)
    show ?thesis
    proof (cases o1)
      case None
      with fields "1.prems" getRandomPath_None [of rand s root r1 s1] show ?thesis
        by (auto simp: findNewPath.simps dest: open_nodes_0)
    next
      case (Some q)
      note g = fields [unfolded Some] and F = getRandomPath_Some [OF fields [unfolded Some]]
      from "1.prems"(3) g obtain qq where qq: "newQuery k [] q = Some qq" "getAssignment k qq = None"
          "findNewPath k rand s1 r1 = Some (None, root', s')"
        by (subst (asm) findNewPath.simps) (auto split: option.splits)
      have f: "branch_wf r1" "same_shape root r1" and o: "\<And>p. open_path r1 p \<longleftrightarrow> open_path root p \<and> p \<noteq> q"
        using F "1.prems"(2) by (auto simp: found_def)
      have "refuted k q"
        using newQuery_models [OF "1.prems"(1) qq(1) _ found_bool [OF F "1.prems"(2)]] qq
        by (auto simp: refuted_def)
      with "1.IH" [OF g [symmetric] refl refl qq(1,2) "1.prems"(1) f(1) qq(3)] o show ?thesis
        using same_shape_trans [OF f(2)] by blast
    qed
  qed
qed

section \<open>Adding a branch\<close>

definition trace_ok :: "assignment \<Rightarrow> Trace \<Rightarrow> bool" where
  "trace_ok \<sigma> t \<longleftrightarrow> branch_wf (pathCondsRoot t) \<and> list_all bool_expr (tr_cs t) \<and> sat \<sigma> (tr_cs t) \<and>
     (\<forall>p. pathCondsCurrent t = Some p \<longrightarrow> branch_at (pathCondsRoot t) p \<noteq> None)"

text \<open>\<open>grown b b'\<close>: no node is lost, no condition and no mark changes.\<close>

definition grown :: "Branch \<Rightarrow> Branch \<Rightarrow> bool" where
  "grown b b' \<longleftrightarrow>
     (\<forall>ds c. branch_at b ds = Some c \<longrightarrow>
        (\<exists>c'. branch_at b' ds = Some c' \<and> wasNegated c' = wasNegated c \<and>
              (br_bv c \<noteq> None \<longrightarrow> br_bv c' = br_bv c)))"

lemma branch_wf_new [simp]: "branch_wf newBranch"
  by (simp add: newBranch_def)

lemma or_new_simps [simp]: "or_new x \<noteq> None" "or_new (Some b) = Some b" "or_new None = Some newBranch"
  by (auto simp: or_new_def split: option.split)

lemma branch_add_wf:
  assumes "bool_expr bv" "branch_wf b" "branch_at b pos \<noteq> None"
  shows "branch_wf (branch_add pos cond bv b) \<and> branch_at (branch_add pos cond bv b) (pos @ [cond]) \<noteq> None"
  using assms
proof (induction pos cond bv b rule: branch_add.induct)
  case (1 cond bv b n t f)
  then show ?case by (auto simp: bool_expr_def or_new_def split: option.splits)
next
  case (2 d ds cond bv b n t f)
  then show ?case by (auto split: option.splits if_splits)
qed

lemma branch_add_grown: "grown b (branch_add pos cond bv b)"
proof (induction pos cond bv b rule: branch_add.induct)
  case (1 cond bv b n t f)
  show ?case unfolding grown_def
  proof (intro allI impI)
    fix ds c assume "branch_at (Branch b n t f) ds = Some c"
    then show "\<exists>c'. branch_at (branch_add [] cond bv (Branch b n t f)) ds = Some c' \<and>
        wasNegated c' = wasNegated c \<and> (br_bv c \<noteq> None \<longrightarrow> br_bv c' = br_bv c)"
      by (cases ds) (auto simp: or_new_def Let_def split: option.splits if_splits)
  qed
next
  case (2 d ds cond bv b n t f)
  show ?case unfolding grown_def
  proof (intro allI impI)
    fix es c assume a: "branch_at (Branch b n t f) es = Some c"
    show "\<exists>c'. branch_at (branch_add (d # ds) cond bv (Branch b n t f)) es = Some c' \<and>
        wasNegated c' = wasNegated c \<and> (br_bv c \<noteq> None \<longrightarrow> br_bv c' = br_bv c)"
    proof (cases es)
      case Nil
      then show ?thesis using a by (cases d) auto
    next
      case (Cons e es')
      with a obtain g where g: "(if e then t else f) = Some g" "branch_at g es' = Some c"
        by (cases e) (auto split: option.splits)
      show ?thesis
      proof (cases "e = d")
        case True
        have "grown g (branch_add ds cond bv g)" using 2 True g(1) by (cases d) auto
        then show ?thesis using True g Cons by (auto simp: grown_def split: if_splits)
      qed (use g Cons in \<open>auto split: if_splits\<close>)
    qed
  qed
qed

lemma trace_add_works:
  assumes "klee_ok k" "trace_ok \<sigma> t" "bool_expr bv" "cond = (eval \<sigma> bv \<noteq> 0)"
  obtains t' where "trace_add k cond bv t = Some t'" "trace_ok \<sigma> t'"
    "\<And>\<tau>. sat \<tau> (tr_cs t') \<longleftrightarrow> sat \<tau> (tr_cs t) \<and> (eval \<tau> bv \<noteq> 0) = cond"
    "grown (pathCondsRoot t) (pathCondsRoot t')"
proof -
  let ?pos = "case pathCondsCurrent t of Some p \<Rightarrow> p | None \<Rightarrow> []"
  have t: "list_all bool_expr (tr_cs t)" "sat \<sigma> (tr_cs t)" "branch_wf (pathCondsRoot t)"
    and pos: "branch_at (pathCondsRoot t) ?pos \<noteq> None"
    using assms(2) by (auto simp: trace_ok_def split: option.split)
  note c = branch_cond_bool [OF assms(3), of cond]
  obtain cs where cs: "addConstraint k (tr_cs t) (branch_cond bv cond) = Some cs"
    using klee_add_sat [OF assms(1) t(1) c t(2)] assms(3,4) by auto
  note a = klee_addD [OF assms(1) t(1) c cs]
  note w = branch_add_wf [OF assms(3) t(3) pos, of cond]
  show ?thesis
  proof (rule that)
    show "trace_add k cond bv t = Some (t\<lparr>tr_cs := cs,
        pathCondsRoot := branch_add ?pos cond bv (pathCondsRoot t),
        pathCondsCurrent := Some (?pos @ [cond])\<rparr>)" (is "_ = Some ?t'")
      using cs by (simp add: trace_add_def Let_def)
    show "trace_ok \<sigma> ?t'" using w a t(2) assms(3,4) by (auto simp: trace_ok_def)
    show "sat \<tau> (tr_cs ?t') \<longleftrightarrow> sat \<tau> (tr_cs t) \<and> (eval \<tau> bv \<noteq> 0) = cond" for \<tau>
      using a(2) [of \<tau>] assms(3) by auto
    show "grown (pathCondsRoot t) (pathCondsRoot ?t')" by (simp add: branch_add_grown)
  qed
qed

lemma trace_reset_ok: "trace_ok \<tau> t \<Longrightarrow> trace_ok \<sigma> (trace_reset t)"
  by (simp add: trace_ok_def trace_reset_def)

lemma newTrace_ok: "trace_ok \<sigma> newTrace"
  by (simp add: trace_ok_def newTrace_def)

section \<open>The execution context\<close>

type_synonym ConcreteStore = "string \<rightharpoonup> IntValue"

text \<open>\<open>getStore\<close>; \<open>None\<close> is the assertion of \<open>intFromVector\<close> against other sizes than 1 and 4.\<close>

fun getStore_loop :: "ConcreteStore \<Rightarrow> Assignment \<Rightarrow> ConcreteStore option" where
  "getStore_loop store [] = Some store"
| "getStore_loop store ((a, value) # bs) =
     (case intFromVector value of
        None \<Rightarrow> None
      | Some v \<Rightarrow> getStore_loop (store(arr_name a \<mapsto> v)) bs)"

definition getStore :: "Assignment \<Rightarrow> ConcreteStore option" where
  "getStore as = getStore_loop Map.empty as"

record ExecutionContext =
  next_run :: ConcreteStore
  last_run :: ConcreteStore

datatype int_type = UINT8 | UINT32

definition has_type :: "int_type \<Rightarrow> IntValue \<Rightarrow> bool" where
  "has_type T v = (case v of U8 _ \<Rightarrow> T = UINT8 | U32 _ \<Rightarrow> T = UINT32)"

definition cast_rand :: "int_type \<Rightarrow> nat \<Rightarrow> IntValue" where
  "cast_rand T r = (case T of UINT8 \<Rightarrow> U8 (of_nat r) | UINT32 \<Rightarrow> U32 (of_nat r))"

definition getPrevStore :: "ExecutionContext \<Rightarrow> ConcreteStore" where
  "getPrevStore c = last_run c"

definition setupNewValues :: "ConcreteStore \<Rightarrow> ExecutionContext \<Rightarrow> ExecutionContext" where
  "setupNewValues store c = c\<lparr>next_run := next_run c ++ store, last_run := Map.empty\<rparr>"

definition setupNewValues_trace :: "klee \<Rightarrow> ('r \<Rightarrow> nat \<times> 'r) \<Rightarrow> 'r \<Rightarrow> Trace \<Rightarrow> ExecutionContext \<Rightarrow>
    (bool \<times> Trace \<times> ExecutionContext \<times> 'r) option" where
  "setupNewValues_trace k rand s t c =
     (case findNewPath k rand s (pathCondsRoot t) of
        None \<Rightarrow> None
      | Some (None, root, s') \<Rightarrow> Some (False, t\<lparr>pathCondsRoot := root\<rparr>, c, s')
      | Some (Some as, root, s') \<Rightarrow>
          (case getStore as of
             None \<Rightarrow> None
           | Some st \<Rightarrow> Some (True, t\<lparr>pathCondsRoot := root\<rparr>, setupNewValues st c, s')))"

definition findRemoveOrRandom :: "int_type \<Rightarrow> ('r \<Rightarrow> nat \<times> 'r) \<Rightarrow> string \<Rightarrow> ExecutionContext \<times> 'r \<Rightarrow>
    (IntValue \<times> ExecutionContext \<times> 'r) option" where
  "findRemoveOrRandom T rand name = (\<lambda>(c, s).
     (case next_run c name of
        Some v \<Rightarrow>
          (if has_type T v
           then Some (v, c\<lparr>next_run := (next_run c)(name := None),
                            last_run := (last_run c)(name \<mapsto> v)\<rparr>, s)
           else None)
      | None \<Rightarrow>
          (case rand s of (r, s') \<Rightarrow>
             Some (cast_rand T r,
                   c\<lparr>last_run := (last_run c)(name \<mapsto> cast_rand T r)\<rparr>, s'))))"

definition getSymbolicWord :: "('r \<Rightarrow> nat \<times> 'r) \<Rightarrow> string \<Rightarrow> ExecutionContext \<times> 'r \<Rightarrow>
    (ConcolicValue \<times> ExecutionContext \<times> 'r) option" where
  "getSymbolicWord rand name cs =
     map_option (\<lambda>(v, cs'). (BVC (Some name) v, cs')) (findRemoveOrRandom UINT32 rand name cs)"

definition getSymbolicByte :: "('r \<Rightarrow> nat \<times> 'r) \<Rightarrow> string \<Rightarrow> ExecutionContext \<times> 'r \<Rightarrow>
    (ConcolicValue \<times> ExecutionContext \<times> 'r) option" where
  "getSymbolicByte rand name cs =
     map_option (\<lambda>(v, cs'). (BVC (Some name) v, cs')) (findRemoveOrRandom UINT8 rand name cs)"

fun to_string :: "nat \<Rightarrow> string" where
  "to_string n = (if n < 10 then [char_of (48 + n)] else to_string (n div 10) @ [char_of (48 + n mod 10)])"

declare to_string.simps [simp del]

definition byte_name :: "string \<Rightarrow> nat \<Rightarrow> string" where
  "byte_name name i = name @ '':byte'' @ to_string i"

text \<open>The loop over the bytes, from byte \<open>i\<close> on; a null result is \<open>None\<close>.\<close>

fun getSymbolicBytes_loop :: "('r \<Rightarrow> nat \<times> 'r) \<Rightarrow> string \<Rightarrow> nat list \<Rightarrow> ConcolicValue option \<Rightarrow>
    ExecutionContext \<times> 'r \<Rightarrow> (ConcolicValue option \<times> ExecutionContext \<times> 'r) option" where
  "getSymbolicBytes_loop rand name [] result cs = Some (result, cs)"
| "getSymbolicBytes_loop rand name (i # is) result cs =
     (case getSymbolicByte rand (byte_name name i) cs of
        None \<Rightarrow> None
      | Some (symbyte, cs') \<Rightarrow>
          getSymbolicBytes_loop rand name is (concat_byte result symbyte) cs')"

definition getSymbolicBytes :: "('r \<Rightarrow> nat \<times> 'r) \<Rightarrow> string \<Rightarrow> nat \<Rightarrow> ExecutionContext \<times> 'r \<Rightarrow>
    (ConcolicValue option \<times> ExecutionContext \<times> 'r) option" where
  "getSymbolicBytes rand name nbytes cs = getSymbolicBytes_loop rand name [0..<nbytes] None cs"


section \<open>The values of a run\<close>

text \<open>\<open>run_store \<sigma> st\<close>: the assignment reads, at every name of the store, the value recorded there.\<close>

definition run_store :: "assignment \<Rightarrow> ConcreteStore \<Rightarrow> bool" where
  "run_store \<sigma> st \<longleftrightarrow> (\<forall>n v. st n = Some v \<longrightarrow> agrees \<sigma> n v)"

lemma findRemoveOrRandom_Some:
  assumes "findRemoveOrRandom T rand name (c, s) = Some (v, c', s')"
  shows "has_type T v" "last_run c' = (last_run c)(name \<mapsto> v)"
    "next_run c name = Some w \<Longrightarrow> v = w"
    "\<And>n. n \<noteq> name \<Longrightarrow> next_run c' n = next_run c n"
  using assms
  by (auto simp: findRemoveOrRandom_def has_type_def cast_rand_def split: option.splits if_splits
      prod.splits int_type.splits)

lemma has_type_size: "has_type T v \<Longrightarrow> intByteSize v = (case T of UINT8 \<Rightarrow> 1 | UINT32 \<Rightarrow> 4)"
  by (auto simp: has_type_def intByteSize_def split: IntValue.splits)

lemma run_storeD: "run_store \<sigma> (st(n \<mapsto> v)) \<Longrightarrow> agrees \<sigma> n v"
  by (simp add: run_store_def)

lemma getSymbolicWord_ok:
  assumes "getSymbolicWord rand name (c, s) = Some (x, c', s')" "run_store \<sigma> (last_run c')"
  shows "cv_ok \<sigma> 32 x"
proof -
  obtain v where v: "findRemoveOrRandom UINT32 rand name (c, s) = Some (v, c', s')" "x = BVC (Some name) v"
    using assms(1) by (auto simp: getSymbolicWord_def)
  note f = findRemoveOrRandom_Some [OF v(1)]
  show ?thesis
    using BVC_ok(1) [of "Some name" \<sigma> v] run_storeD [of \<sigma> "last_run c" name v] assms(2) f(1,2) v(2)
      has_type_size [OF f(1)] by simp
qed

lemma byte_of_word:
  fixes a b c d :: u8
  defines "w \<equiv> (ucast a OR push_bit 8 (ucast b) OR push_bit 16 (ucast c) OR push_bit 24 (ucast d)) :: u32"
  shows "take_bit 8 (uint w) = uint a" "take_bit 8 (drop_bit 8 (uint w)) = uint b"
    "take_bit 8 (drop_bit 16 (uint w)) = uint c" "take_bit 8 (drop_bit 24 (uint w)) = uint d"
  unfolding w_def
  by (rule bit_eqI; auto simp: bit_simps bit_uint_iff dest: bit_imp_le_length)+

lemma intFromVector_bytes:
  assumes "intFromVector bs = Some v" "i < length bs"
  shows "take_bit 8 (uint (bs ! i)) = take_bit 8 (drop_bit (8 * i) (intToUint v))"
proof -
  have u: "take_bit 8 (uint x) = uint x" for x :: u8
    using uint_lt2p [of x] by (simp add: take_bit_int_eq_self_iff)
  consider a where "bs = [a]" "v = U8 a"
    | a b c d where "bs = [a, b, c, d]"
        "v = U32 (ucast a OR push_bit 8 (ucast b) OR push_bit 16 (ucast c) OR push_bit 24 (ucast d))"
    using assms(1) by (auto simp: intFromVector_def split: list.splits)
  then show ?thesis
  proof cases
    case 2
    then have "i = 0 \<or> i = 1 \<or> i = 2 \<or> i = 3" using assms(2) by auto
    then show ?thesis using 2 byte_of_word [of a b c d] u by (auto simp: intToUint_def)
  qed (use assms(2) in \<open>simp add: intToUint_def\<close>)
qed

lemma intFromVector_le_int:
  assumes "intFromVector bs = Some v"
  shows "intToUint v = le_int bs" and "length bs = intByteSize v"
proof -
  show l: "length bs = intByteSize v"
    using assms by (auto simp: intFromVector_def intByteSize_def split: list.splits)
  have "word_of_int (drop_bit (8 * i) (intToUint v)) = bs ! i" if "i < length bs" for i
  proof -
    have "(word_of_int (uint (bs ! i)) :: u8) = word_of_int (drop_bit (8 * i) (intToUint v))"
      using intFromVector_bytes [OF assms that] word_of_int_take_bit [where 'a = 8, of "uint (bs ! i)"]
        word_of_int_take_bit [where 'a = 8, of "drop_bit (8 * i) (intToUint v)"] by simp
    then show ?thesis by simp
  qed
  then have "map (\<lambda>i. word_of_int (drop_bit (8 * i) (intToUint v))) [0..<length bs] = bs"
    by (intro nth_equalityI) simp_all
  with le_int_bytes [of "intToUint v" "length bs"] intToUint_fits [of v] l
  show "intToUint v = le_int bs" by (simp add: take_bit_fits mult.commute)
qed

lemma intFromVector_agrees:
  assumes "intFromVector bs = Some v" "map_of as (Array n (length bs)) = Some bs"
  shows "agrees (assign_fn as) n v"
proof -
  have "take_bit 8 (uint (bs ! i)) = take_bit 8 (drop_bit (8 * i) (intToUint v))" if "i < length bs" for i
    using assms(1) that by (rule intFromVector_bytes)
  then show "agrees (assign_fn as) n v"
    using assms(2) intFromVector_le_int(2) [OF assms(1)] by (simp add: agrees_def assign_fn_def)
qed


lemma getStore_loop_other:
  "getStore_loop st as = Some st' \<Longrightarrow> n \<notin> (arr_name \<circ> fst) ` set as \<Longrightarrow> st' n = st n"
  by (induction st as rule: getStore_loop.induct) (auto split: option.splits)

lemma getStore_loop_lookup:
  assumes "getStore_loop st as = Some st'" "distinct (map (arr_name \<circ> fst) as)" "(a, bs) \<in> set as"
  shows "st' (arr_name a) = intFromVector bs \<and> intFromVector bs \<noteq> None"
  using assms
proof (induction st as rule: getStore_loop.induct)
  case (2 store b bytes xs)
  then obtain v where v: "intFromVector bytes = Some v" "getStore_loop (store(arr_name b \<mapsto> v)) xs = Some st'"
    by (auto split: option.splits)
  show ?case
  proof (cases "(a, bs) = (b, bytes)")
    case True
    with getStore_loop_other [OF v(2), of "arr_name b"] 2 v show ?thesis by (auto simp: image_comp)
  next
    case False
    then have "(a, bs) \<in> set xs" "distinct (map (arr_name \<circ> fst) xs)" using "2.prems"(2,3)
      by (auto simp: comp_def)
    from "2.IH" [OF v(1,2) this(2,1)] show ?thesis .
  qed
qed simp

section \<open>A solver that tries candidates\<close>

text \<open>
  An instance of the interface to evaluate the definitions with: constraints are kept as they are
  and a query is answered by the first of a fixed list of candidates that solves it.
\<close>

definition candidate_klee :: "Assignment list \<Rightarrow> klee" where
  "candidate_klee cands = \<lparr>
     addConstraint = (\<lambda>cs e. Some (cs @ [e])),
     simplifyExpr = (\<lambda>cs e. e),
     createIsZero = (\<lambda>e. BinaryExpr Eq (ConstantExpr (CE 1 0)) e),
     getInitialValues = (\<lambda>(cs, e). find (\<lambda>as. list_all (\<lambda>c. eval (assign_fn as) c \<noteq> 0) cs \<and>
       eval (assign_fn as) e = 0) cands),
     computeValidity = (\<lambda>_. None)\<rparr>"

lemma candidate_klee_ok: "klee_ok (candidate_klee cands)"
  unfolding klee_ok_def
  by (auto simp: candidate_klee_def bool_expr_def sat_def find_Some_iff list_all_iff fits_1)

section \<open>Properties\<close>

text \<open>
  C6: the values the search for a new path returns really drive the program somewhere new: they
  satisfy every condition on the way to a node of the execution tree in the direction recorded
  there, give the condition at that node the other value, and that side of the node has never been
  visited.  The tree keeps its shape, and one node less is left to try.
\<close>

theorem findNewPath_sound:
  assumes "klee_ok k" and "branch_wf root" and "findNewPath k rand s root = Some (Some as, root', s')"
  shows "(\<exists>p. path_in root p \<and> takes (assign_fn as) (butlast p) \<and>
        (eval (assign_fn as) (fst (last p)) \<noteq> 0) \<noteq> snd (last p) \<and>
        branch_at root (flip_last (map snd p)) = None) \<and>
    branch_wf root' \<and> same_shape root root' \<and> open_nodes root' < open_nodes root"
  using findNewPath_Some [OF assms] by (auto simp: new_path_def flips_def)

theorem findNewPath_sound_witness:
  "let x = ReadExpr (Array ''x'' 1) (ConstantExpr (CE 32 0));
       e = BinaryExpr Eq (ConstantExpr (CE 8 5)) x;
       root = Branch (Some e) False None (Some newBranch);
       as = [(Array ''x'' 1, [5])]
   in findNewPath (candidate_klee [[], as]) (\<lambda>n. (n, n + 1)) 0 root =
        Some (Some as, Branch (Some e) True None (Some newBranch), 0) \<and>
      (\<exists>p. path_in root p \<and> branch_at root (flip_last (map snd p)) = None)"
proof -
  let ?e = "BinaryExpr Eq (ConstantExpr (CE 8 5)) (ReadExpr (Array ''x'' 1) (ConstantExpr (CE 32 0)))"
  let ?root = "Branch (Some ?e) False None (Some newBranch)"
  let ?as = "[(Array ''x'' 1, [5 :: u8])]"
  have "branch_wf ?root"
    and *: "findNewPath (candidate_klee [[], ?as]) (\<lambda>n. (n, n + 1)) 0 ?root =
        Some (Some ?as, Branch (Some ?e) True None (Some newBranch), 0)"
    by code_simp+
  from findNewPath_sound [OF candidate_klee_ok this] * show ?thesis by (auto simp: Let_def)
qed

text \<open>
  C19: the search terminates on every tree (\<open>findNewPath\<close> is total), and when it reports that
  all branches are exhausted, no node is left to try and for every node that was, the solver has
  been asked for exactly the inputs that take its other side and has found none.
\<close>

theorem findNewPath_exhausts:
  assumes "klee_ok k" and "branch_wf root" and "findNewPath k rand s root = Some (None, root', s')"
  shows "open_nodes root' = 0 \<and> same_shape root root' \<and>
    (\<forall>p. open_path root p \<longrightarrow>
      (\<exists>q. newQuery k [] p = Some q \<and> getAssignment k q = None \<and>
        (\<forall>\<sigma>. flips \<sigma> p \<longleftrightarrow> sat \<sigma> (fst q) \<and> eval \<sigma> (snd q) \<noteq> 0)))"
  using findNewPath_None [OF assms] unfolding refuted_def by blast

theorem findNewPath_exhausts_witness:
  "let x = ReadExpr (Array ''x'' 1) (ConstantExpr (CE 32 0));
       e = BinaryExpr Ne x x;
       root = Branch (Some e) False None (Some newBranch);
       k = candidate_klee [[], [(Array ''x'' 1, [5])]]
   in open_path root [(e, False)] \<and>
      findNewPath k (\<lambda>n. (n, n + 1)) 0 root = Some (None, Branch (Some e) True None (Some newBranch), 1) \<and>
      (\<exists>q. newQuery k [] [(e, False)] = Some q \<and> getAssignment k q = None)"
proof -
  let ?x = "ReadExpr (Array ''x'' 1) (ConstantExpr (CE 32 0))"
  let ?e = "BinaryExpr Ne ?x ?x"
  let ?root = "Branch (Some ?e) False None (Some newBranch)"
  let ?k = "candidate_klee [[], [(Array ''x'' 1, [5])]]"
  have "branch_wf ?root"
    and *: "findNewPath ?k (\<lambda>n. (n, n + 1)) 0 ?root =
        Some (None, Branch (Some ?e) True None (Some newBranch), 1)"
    and o: "open_path ?root [(?e, False)]"
    by code_simp+
  from findNewPath_exhausts [OF candidate_klee_ok this(1,2)] * o show ?thesis
    unfolding Let_def by blast
qed

text \<open>
  C18: recording a branch keeps the trace's invariant.  When the condition has, under the run's
  inputs, the value the program branched on, the assertion of the constraint manager does not
  fire, the models of the path constraints become exactly those inputs that also take this branch,
  and the tree only grows: no node, condition or mark of an earlier run is lost.
\<close>

theorem trace_add_correct:
  assumes "klee_ok k" and "trace_ok \<sigma> t" and "bool_expr bv"
  shows "\<exists>t'. trace_add k (eval \<sigma> bv \<noteq> 0) bv t = Some t' \<and> trace_ok \<sigma> t' \<and>
    (\<forall>\<tau>. sat \<tau> (tr_cs t') \<longleftrightarrow> sat \<tau> (tr_cs t) \<and> (eval \<tau> bv \<noteq> 0) = (eval \<sigma> bv \<noteq> 0)) \<and>
    grown (pathCondsRoot t) (pathCondsRoot t')"
proof -
  obtain t' where "trace_add k (eval \<sigma> bv \<noteq> 0) bv t = Some t'" "trace_ok \<sigma> t'"
    "\<And>\<tau>. sat \<tau> (tr_cs t') \<longleftrightarrow> sat \<tau> (tr_cs t) \<and> (eval \<tau> bv \<noteq> 0) = (eval \<sigma> bv \<noteq> 0)"
    "grown (pathCondsRoot t) (pathCondsRoot t')"
    using trace_add_works [OF assms refl] by metis
  then show ?thesis by blast
qed

theorem trace_add_correct_witness:
  "let e = BinaryExpr Eq (ConstantExpr (CE 8 5)) (ReadExpr (Array ''x'' 1) (ConstantExpr (CE 32 0)))
   in \<exists>t'. trace_add (candidate_klee []) (eval (\<lambda>_ _. 5) e \<noteq> 0) e newTrace = Some t' \<and>
        trace_ok (\<lambda>_ _. 5) t' \<and> eval (\<lambda>_ _. 5) e = 1"
proof -
  let ?e = "BinaryExpr Eq (ConstantExpr (CE 8 5)) (ReadExpr (Array ''x'' 1) (ConstantExpr (CE 32 0)))"
  have "bool_expr ?e" "eval (\<lambda>_ _. 5) ?e = 1" by code_simp+
  with trace_add_correct [OF candidate_klee_ok newTrace_ok, of ?e "[]" "\<lambda>_ _. 5"] show ?thesis
    unfolding Let_def by blast
qed



end
