(* ===== verification/RV_ISS.thy ===== *)
theory RV_ISS
  imports RV_Coverage RV_CSR Clover_Trace
begin

text \<open>
  The instruction set simulator (\<open>core/rv32/iss.h\<close>, \<open>iss.cpp\<close>): the register file, the execution
  of an instruction, access to the control and status registers, traps and interrupts, the
  counters and the loop that runs the core.

  The state is the record \<open>ISS\<close>.  What the core calls outside of itself is the record \<open>ISS_env\<close>:
  the memory interface, the core-local interruptor, the system call emulation, the debug
  information behind the coverage, the solver and the SystemC kernel.  Operations of these parts
  may change the state of the \<open>platform\<close> and raise or clear interrupts of the core; while the core
  waits or synchronises with SystemC, the interrupt lines change by a list of events.
\<close>

section \<open>State\<close>

datatype CoreExecStatus = Runnable | HitBreakpoint | Terminated

record 'p ISS =
  regs :: "ConcolicValue list"
  pc :: u32
  last_pc :: u32
  shall_exit :: bool
  ignore_wfi :: bool
  csrs :: csr_table
  prv :: PrivilegeLevel
  lr_sc_counter :: int
  total_num_instr :: u64
  coverage :: "Coverage option"
  instr :: u32
  op :: Mapping
  status :: CoreExecStatus
  breakpoints :: "u32 set"
  debug_mode :: bool
  cycle_counter :: u64
  tracer :: Trace
  ctx :: ExecutionContext
  platform :: 'p

datatype irq_event =
    Trigger_external PrivilegeLevel
  | Clear_external PrivilegeLevel
  | Timer_irq bool
  | Software_irq bool

record 'p ISS_env =
  solver :: klee
  get_sources :: "u64 \<Rightarrow> error + SourceInfo list"
  load_instr :: "u32 \<Rightarrow> ('p ISS, u32) M"
  load_word :: "ConcolicValue \<Rightarrow> ('p ISS, ConcolicValue) M"
  load_half :: "ConcolicValue \<Rightarrow> ('p ISS, ConcolicValue) M"
  load_byte :: "ConcolicValue \<Rightarrow> ('p ISS, ConcolicValue) M"
  load_uhalf :: "ConcolicValue \<Rightarrow> ('p ISS, ConcolicValue) M"
  load_ubyte :: "ConcolicValue \<Rightarrow> ('p ISS, ConcolicValue) M"
  store_word :: "ConcolicValue \<Rightarrow> ConcolicValue \<Rightarrow> ('p ISS, unit) M"
  store_half :: "ConcolicValue \<Rightarrow> ConcolicValue \<Rightarrow> ('p ISS, unit) M"
  store_byte :: "ConcolicValue \<Rightarrow> ConcolicValue \<Rightarrow> ('p ISS, unit) M"
  symbolic_store_data :: "ConcolicValue \<Rightarrow> ConcolicValue \<Rightarrow> nat \<Rightarrow> ('p ISS, unit) M"
  update_and_get_mtime :: "'p \<Rightarrow> u64 \<times> 'p \<times> irq_event list"
  execute_syscall :: "('p ISS, unit) M option"
  qk_inc :: "u64 \<Rightarrow> 'p \<Rightarrow> 'p"
  need_sync :: "'p \<Rightarrow> bool"
  qk_sync :: "'p \<Rightarrow> 'p \<times> irq_event list"
  wait_event :: "'p \<Rightarrow> ('p \<times> irq_event list) option"
  env_rand :: "'p \<Rightarrow> nat \<times> 'p"

section \<open>The register file\<close>

abbreviation (input) zero :: u32 where "zero \<equiv> 0"
abbreviation (input) sp :: u32 where "sp \<equiv> 2"
abbreviation (input) a5 :: u32 where "a5 \<equiv> 15"
abbreviation (input) a7 :: u32 where "a7 \<equiv> 17"

definition BVC32 :: "u32 \<Rightarrow> ConcolicValue" where
  "BVC32 x = BVC None (U32 x)"

definition newRegFile :: "ConcolicValue list" where
  "newRegFile = replicate 32 (BVC32 0)"

definition reg :: "u32 \<Rightarrow> 'p ISS \<Rightarrow> ConcolicValue" where
  "reg i s = regs s ! unat i"

definition regs_write :: "u32 \<Rightarrow> ConcolicValue \<Rightarrow> ('p ISS, unit) M" where
  "regs_write index v =
     seqM (assertM (index \<le> 31) ''index <= x31'')
       (modify (\<lambda>s.
          if cv_getWidth v < 32 then s\<lparr>regs := (regs s)[unat index := cv_zext v 32]\<rparr>
          else if cv_getWidth v = 32 then s\<lparr>regs := (regs s)[unat index := v]\<rparr>
          else s))"

definition regs_read :: "u32 \<Rightarrow> ('p ISS, ConcolicValue) M" where
  "regs_read index = (if index > 31 then throw OutOfRange else gets (reg index))"

definition regs_shamt :: "u32 \<Rightarrow> 'p ISS \<Rightarrow> ConcolicValue" where
  "regs_shamt index s = cv_zext (cv_extract (reg index s) 0 5) 32"

definition getValue32 :: "ConcolicValue \<Rightarrow> ('s, u32) M" where
  "getValue32 v = of_option (AssertionFailed ''getValue only works on constants'')
     (map_option word_of_int (getValue 32 (concrete v)))"

section \<open>Helpers of the core\<close>

definition raise_trap :: "u32 \<Rightarrow> u64 \<Rightarrow> ('s, 'a) M" where
  "raise_trap exc mtval = throw (SimulationTrap exc mtval)"

definition RAISE_ILLEGAL_INSTRUCTION :: "('p ISS, 'a) M" where
  "RAISE_ILLEGAL_INSTRUCTION = withS (\<lambda>s. raise_trap EXC_ILLEGAL_INSTR (ucast (instr s)))"

definition REQUIRE_ISA :: "u32 \<Rightarrow> ('p ISS, unit) M" where
  "REQUIRE_ISA X =
     bindM (gets (\<lambda>s. csr_misa (csrs s) AND X = 0)) (\<lambda>missing. whenM missing RAISE_ILLEGAL_INSTRUCTION)"

definition m_mode :: "'p ISS \<Rightarrow> bool" where "m_mode s \<longleftrightarrow> prv s = MachineMode"
definition s_mode :: "'p ISS \<Rightarrow> bool" where "s_mode s \<longleftrightarrow> prv s = SupervisorMode"
definition u_mode :: "'p ISS \<Rightarrow> bool" where "u_mode s \<longleftrightarrow> prv s = UserMode"

definition release_lr_sc_reservation :: "'p ISS \<Rightarrow> 'p ISS" where
  "release_lr_sc_reservation s = s\<lparr>lr_sc_counter := 0\<rparr>"

definition pc_alignment_mask :: "csr_table \<Rightarrow> u32" where
  "pc_alignment_mask t = (if has_C_extension t then NOT 1 else NOT 3)"

definition trap_check_pc_alignment :: "('p ISS, unit) M" where
  "trap_check_pc_alignment =
     bindM (gets (\<lambda>s. pc s AND 1 = 0)) (\<lambda>even.
     seqM (assertM even ''not possible due to immediate formats and jump execution'')
       (withS (\<lambda>s. whenM (pc s AND 3 \<noteq> 0 \<and> \<not> has_C_extension (csrs s))
               (raise_trap EXC_INSTR_ADDR_MISALIGNED (ucast (pc s))))))"

definition trap_check_addr_alignment :: "nat \<Rightarrow> bool \<Rightarrow> ConcolicValue \<Rightarrow> ('p ISS, unit) M" where
  "trap_check_addr_alignment alignment isLoad addr =
     bindM (getValue32 addr) (\<lambda>caddr.
       whenM (unat caddr mod alignment \<noteq> 0)
         (raise_trap (if isLoad then EXC_LOAD_ADDR_MISALIGNED else EXC_STORE_AMO_ADDR_MISALIGNED) (ucast caddr)))"

text \<open>\<open>Solver::eval\<close> throws a \<open>logic_error\<close> for an unknown result and a
  \<open>runtime_error\<close> for a failed query; a query that is no Boolean fails an assertion of KLEE.\<close>

definition solver_exception :: "string \<Rightarrow> error" where
  "solver_exception m =
     (if m = ''unknown solver result'' then LogicError m
      else if m = ''Invalid expression type!'' then AssertionFailed m
      else RuntimeError m)"

definition iss_eval :: "'p ISS_env \<Rightarrow> ConcolicValue \<Rightarrow> ('p ISS, bool) M" where
  "iss_eval E res =
     bindM (gets (\<lambda>s. solver_eval (solver E) (getQuery (solver E) (tracer s) (concrete res)))) (\<lambda>r.
       case r of Inr b \<Rightarrow> ret b | Inl m \<Rightarrow> throw (solver_exception m))"

definition track_and_trace_branch :: "'p ISS_env \<Rightarrow> bool \<Rightarrow> ConcolicValue \<Rightarrow> ('p ISS, unit) M" where
  "track_and_trace_branch E cond res =
     (case symbolic res of
        None \<Rightarrow> ret ()
      | Some e \<Rightarrow>
          bindM (gets (\<lambda>s. trace_add (solver E) cond e (tracer s))) (\<lambda>t.
          bindM (of_option (AssertionFailed ''attempt to add invalid (false) constraint'') t) (\<lambda>t'.
          modify (\<lambda>s. s\<lparr>tracer := t'\<rparr>))))"

text \<open>The operands of an instruction.\<close>

abbreviation RD :: "'p ISS \<Rightarrow> u32" where "RD s \<equiv> rd (instr s)"
abbreviation RS1 :: "'p ISS \<Rightarrow> ConcolicValue" where "RS1 s \<equiv> reg (rs1 (instr s)) s"
abbreviation RS2 :: "'p ISS \<Rightarrow> ConcolicValue" where "RS2 s \<equiv> reg (rs2 (instr s)) s"

definition I_IMM :: "'p ISS \<Rightarrow> ConcolicValue" where "I_IMM s = cv_sext (BVC32 (I_imm (instr s))) 32"
definition S_IMM :: "'p ISS \<Rightarrow> ConcolicValue" where "S_IMM s = cv_sext (BVC32 (S_imm (instr s))) 32"
definition U_IMM :: "'p ISS \<Rightarrow> ConcolicValue" where "U_IMM s = BVC32 (U_imm (instr s))"
definition SHAMT :: "'p ISS \<Rightarrow> ConcolicValue" where "SHAMT s = BVC32 (shamt (instr s))"

section \<open>Interrupt lines\<close>

definition upd_csrs :: "(csr_table \<Rightarrow> csr_table) \<Rightarrow> 'p ISS \<Rightarrow> 'p ISS" where
  "upd_csrs f s = s\<lparr>csrs := f (csrs s)\<rparr>"

definition put_mip :: "bitfield \<Rightarrow> bool \<Rightarrow> 'p ISS \<Rightarrow> 'p ISS" where
  "put_mip f b = upd_csrs (\<lambda>t. t\<lparr>csr_mip := bput f (of_bool b) (csr_mip t)\<rparr>)"

definition external_interrupt :: "bool \<Rightarrow> PrivilegeLevel \<Rightarrow> 'p ISS \<Rightarrow> 'p ISS" where
  "external_interrupt b level =
     switch level [(UserMode, put_mip ueip b), (SupervisorMode, put_mip seip b), (MachineMode, put_mip meip b)] id"

definition trigger_external_interrupt :: "PrivilegeLevel \<Rightarrow> 'p ISS \<Rightarrow> 'p ISS" where
  "trigger_external_interrupt level = external_interrupt True level"

definition clear_external_interrupt :: "PrivilegeLevel \<Rightarrow> 'p ISS \<Rightarrow> 'p ISS" where
  "clear_external_interrupt level = external_interrupt False level"

definition trigger_timer_interrupt :: "bool \<Rightarrow> 'p ISS \<Rightarrow> 'p ISS" where
  "trigger_timer_interrupt b = put_mip mtip b"

definition trigger_software_interrupt :: "bool \<Rightarrow> 'p ISS \<Rightarrow> 'p ISS" where
  "trigger_software_interrupt b = put_mip msip b"

fun deliver :: "irq_event \<Rightarrow> 'p ISS \<Rightarrow> 'p ISS" where
  "deliver (Trigger_external level) = trigger_external_interrupt level"
| "deliver (Clear_external level) = clear_external_interrupt level"
| "deliver (Timer_irq b) = trigger_timer_interrupt b"
| "deliver (Software_irq b) = trigger_software_interrupt b"

text \<open>The other SystemC processes have run: the platform has changed and the events arrived.\<close>

definition resume :: "'p \<times> irq_event list \<Rightarrow> 'p ISS \<Rightarrow> 'p ISS" where
  "resume r s = fold deliver (snd r) (s\<lparr>platform := fst r\<rparr>)"

section \<open>Control and status registers\<close>

text \<open>A cycle is 10 ns, 10000 units of the SystemC time resolution of 1 ps.\<close>

definition compute_and_get_current_cycles :: "('p ISS, u64) M" where
  "compute_and_get_current_cycles = withS (\<lambda>s.
     seqM (assertM (cycle_counter s mod 10000 = 0) ''cycle_counter % cycle_time == SC_ZERO_TIME'')
       (ret (cycle_counter s div 10000)))"

definition is_invalid_csr_access :: "u32 \<Rightarrow> bool \<Rightarrow> ('p ISS, bool) M" where
  "is_invalid_csr_access csr_addr is_write =
     seqM (whenM (csr_addr = FFLAGS_ADDR \<or> csr_addr = FRM_ADDR \<or> csr_addr = FCSR_ADDR) (REQUIRE_ISA misa_F))
       (gets (\<lambda>s.
          let csr_prv = drop_bit 8 (0x300 AND csr_addr);
              csr_readonly = (drop_bit 10 (0xC00 AND csr_addr) = 3);
              s_invalid = (csr_prv = SupervisorMode \<and> \<not> has_supervisor_mode_extension (csrs s));
              u_invalid = (csr_prv = UserMode \<and> \<not> has_user_mode_extension (csrs s))
          in (is_write \<and> csr_readonly) \<or> prv s < csr_prv \<or> s_invalid \<or> u_invalid))"

definition is_bitset :: "u32 \<Rightarrow> u32 \<Rightarrow> bool" where
  "is_bitset r bitpos \<longleftrightarrow> r AND push_bit (unat bitpos) 1 \<noteq> 0"

definition validate_csr_counter_read_access_rights :: "u32 \<Rightarrow> ('p ISS, unit) M" where
  "validate_csr_counter_read_access_rights addr = withS (\<lambda>s.
     if (0xC00 \<le> addr \<and> addr \<le> 0xC1F) \<or> (0xC80 \<le> addr \<and> addr \<le> 0xC9F)
     then let cnt = addr AND 0x1F in
       seqM (whenM (s_mode s \<and> \<not> is_bitset (csr_mcounteren (csrs s)) cnt) RAISE_ILLEGAL_INSTRUCTION)
         (whenM (u_mode s \<and> (\<not> is_bitset (csr_mcounteren (csrs s)) cnt \<or> \<not> is_bitset (csr_scounteren (csrs s)) cnt))
            RAISE_ILLEGAL_INSTRUCTION)
     else ret ())"

definition read_time :: "'p ISS_env \<Rightarrow> (u64 \<Rightarrow> u32) \<Rightarrow> ('p ISS, u32) M" where
  "read_time E part =
     (\<lambda>s. case update_and_get_mtime E (platform s) of
            (mtime, r) \<Rightarrow> Ok (part mtime) (upd_csrs (\<lambda>t. t\<lparr>csr_time := mtime\<rparr>) (resume r s)))"

definition read_cycle :: "(u64 \<Rightarrow> u32) \<Rightarrow> ('p ISS, u32) M" where
  "read_cycle part =
     bindM compute_and_get_current_cycles (\<lambda>n.
     seqM (modify (upd_csrs (\<lambda>t. t\<lparr>csr_cycle := n\<rparr>))) (ret (part n)))"

abbreviation read_csr :: "(csr_table \<Rightarrow> u32) \<Rightarrow> ('p ISS, u32) M" where
  "read_csr f \<equiv> gets (\<lambda>s. f (csrs s))"

definition default_get :: "u32 \<Rightarrow> ('p ISS, u32) M" where
  "default_get addr =
     (if \<not> is_valid_csr32_addr addr then RAISE_ILLEGAL_INSTRUCTION
      else bindM (gets (\<lambda>s. default_read32 addr (csrs s))) (of_option (AssertionFailed ''validate address before calling this function'')))"

definition satp_check :: "('p ISS, unit) M" where
  "satp_check = withS (\<lambda>s. whenM (bget tvm (csr_mstatus (csrs s)) \<noteq> 0) RAISE_ILLEGAL_INSTRUCTION)"

definition get_csr_value :: "'p ISS_env \<Rightarrow> u32 \<Rightarrow> ('p ISS, u32) M" where
  "get_csr_value E addr =
     seqM (validate_csr_counter_read_access_rights addr)
       (if addr = TIME_ADDR \<or> addr = MTIME_ADDR then read_time E lo32
        else if addr = TIMEH_ADDR \<or> addr = MTIMEH_ADDR then read_time E hi32
        else if any_hpmcounter addr then ret 0
        else switch addr [
          (MCYCLE_ADDR, read_cycle lo32),
          (MCYCLEH_ADDR, read_cycle hi32),
          (MINSTRET_ADDR, read_csr (\<lambda>t. lo32 (csr_instret t))),
          (MINSTRETH_ADDR, read_csr (\<lambda>t. hi32 (csr_instret t))),
          (MSTATUS_ADDR, read_csr (\<lambda>t. csr_mstatus t AND MSTATUS_MASK)),
          (SSTATUS_ADDR, read_csr (\<lambda>t. csr_mstatus t AND SSTATUS_MASK)),
          (USTATUS_ADDR, read_csr (\<lambda>t. csr_mstatus t AND USTATUS_MASK)),
          (MIP_ADDR, read_csr (\<lambda>t. csr_mip t AND MIP_READ_MASK)),
          (SIP_ADDR, read_csr (\<lambda>t. csr_mip t AND SIP_MASK)),
          (UIP_ADDR, read_csr (\<lambda>t. csr_mip t AND UIP_MASK)),
          (MIE_ADDR, read_csr (\<lambda>t. csr_mie t AND MIE_MASK)),
          (SIE_ADDR, read_csr (\<lambda>t. csr_mie t AND SIE_MASK)),
          (UIE_ADDR, read_csr (\<lambda>t. csr_mie t AND UIE_MASK)),
          (SATP_ADDR, seqM satp_check (default_get addr)),
          (FCSR_ADDR, read_csr (\<lambda>t. csr_fcsr t AND FCSR_MASK)),
          (FFLAGS_ADDR, read_csr (\<lambda>t. bget fflags (csr_fcsr t))),
          (FRM_ADDR, read_csr (\<lambda>t. bget frm (csr_fcsr t))),
          (TSELECT_ADDR, ret 1),
          (TDATA1_ADDR, ret 0), (TDATA2_ADDR, ret 0), (TDATA3_ADDR, ret 0), (DCSR_ADDR, ret 0),
          (DPC_ADDR, ret 0), (DSCRATCH0_ADDR, ret 0), (DSCRATCH1_ADDR, ret 0)]
          (default_get addr))"

definition masked :: "u32 \<Rightarrow> u32 \<Rightarrow> u32 \<Rightarrow> u32" where
  "masked m v r = (r AND NOT m) OR (v AND m)"

abbreviation write_csr :: "(csr_table \<Rightarrow> csr_table) \<Rightarrow> ('p ISS, unit) M" where
  "write_csr f \<equiv> modify (upd_csrs f)"

definition default_set :: "u32 \<Rightarrow> u32 \<Rightarrow> ('p ISS, unit) M" where
  "default_set addr v =
     (if \<not> is_valid_csr32_addr addr then RAISE_ILLEGAL_INSTRUCTION
      else bindM (gets (\<lambda>s. default_write32 addr v (csrs s))) (\<lambda>t.
           bindM (of_option (AssertionFailed ''validate address before calling this function'') t) (\<lambda>t'.
           modify (\<lambda>s. s\<lparr>csrs := t'\<rparr>))))"

definition set_csr_value :: "u32 \<Rightarrow> u32 \<Rightarrow> ('p ISS, unit) M" where
  "set_csr_value addr v =
     (if addr = MISA_ADDR \<or> any_hpmcounter addr then ret ()
      else switch addr [
        (SATP_ADDR, seqM satp_check (write_csr (\<lambda>t. t\<lparr>csr_satp := masked SATP_MASK v (csr_satp t)\<rparr>))),
        (MTVEC_ADDR, write_csr (\<lambda>t. t\<lparr>csr_mtvec := masked MTVEC_MASK v (csr_mtvec t)\<rparr>)),
        (STVEC_ADDR, write_csr (\<lambda>t. t\<lparr>csr_stvec := masked MTVEC_MASK v (csr_stvec t)\<rparr>)),
        (UTVEC_ADDR, write_csr (\<lambda>t. t\<lparr>csr_utvec := masked MTVEC_MASK v (csr_utvec t)\<rparr>)),
        (MEPC_ADDR, write_csr (\<lambda>t. t\<lparr>csr_mepc := masked (pc_alignment_mask t) v (csr_mepc t)\<rparr>)),
        (SEPC_ADDR, write_csr (\<lambda>t. t\<lparr>csr_sepc := masked (pc_alignment_mask t) v (csr_sepc t)\<rparr>)),
        (UEPC_ADDR, write_csr (\<lambda>t. t\<lparr>csr_uepc := masked (pc_alignment_mask t) v (csr_uepc t)\<rparr>)),
        (MSTATUS_ADDR, write_csr (\<lambda>t. t\<lparr>csr_mstatus := masked MSTATUS_MASK v (csr_mstatus t)\<rparr>)),
        (SSTATUS_ADDR, write_csr (\<lambda>t. t\<lparr>csr_mstatus := masked SSTATUS_MASK v (csr_mstatus t)\<rparr>)),
        (USTATUS_ADDR, write_csr (\<lambda>t. t\<lparr>csr_mstatus := masked USTATUS_MASK v (csr_mstatus t)\<rparr>)),
        (MIP_ADDR, write_csr (\<lambda>t. t\<lparr>csr_mip := masked MIP_WRITE_MASK v (csr_mip t)\<rparr>)),
        (SIP_ADDR, write_csr (\<lambda>t. t\<lparr>csr_mip := masked SIP_MASK v (csr_mip t)\<rparr>)),
        (UIP_ADDR, write_csr (\<lambda>t. t\<lparr>csr_mip := masked UIP_MASK v (csr_mip t)\<rparr>)),
        (MIE_ADDR, write_csr (\<lambda>t. t\<lparr>csr_mie := masked MIE_MASK v (csr_mie t)\<rparr>)),
        (SIE_ADDR, write_csr (\<lambda>t. t\<lparr>csr_mie := masked SIE_MASK v (csr_mie t)\<rparr>)),
        (UIE_ADDR, write_csr (\<lambda>t. t\<lparr>csr_mie := masked UIE_MASK v (csr_mie t)\<rparr>)),
        (MIDELEG_ADDR, write_csr (\<lambda>t. t\<lparr>csr_mideleg := masked MIDELEG_MASK v (csr_mideleg t)\<rparr>)),
        (MEDELEG_ADDR, write_csr (\<lambda>t. t\<lparr>csr_medeleg := masked MEDELEG_MASK v (csr_medeleg t)\<rparr>)),
        (SIDELEG_ADDR, write_csr (\<lambda>t. t\<lparr>csr_sideleg := masked SIDELEG_MASK v (csr_sideleg t)\<rparr>)),
        (SEDELEG_ADDR, write_csr (\<lambda>t. t\<lparr>csr_sedeleg := masked SEDELEG_MASK v (csr_sedeleg t)\<rparr>)),
        (MCOUNTEREN_ADDR, write_csr (\<lambda>t. t\<lparr>csr_mcounteren := masked MCOUNTEREN_MASK v (csr_mcounteren t)\<rparr>)),
        (SCOUNTEREN_ADDR, write_csr (\<lambda>t. t\<lparr>csr_scounteren := masked MCOUNTEREN_MASK v (csr_scounteren t)\<rparr>)),
        (MCOUNTINHIBIT_ADDR, write_csr (\<lambda>t. t\<lparr>csr_mcountinhibit := masked MCOUNTINHIBIT_MASK v (csr_mcountinhibit t)\<rparr>)),
        (FCSR_ADDR, write_csr (\<lambda>t. t\<lparr>csr_fcsr := masked FCSR_MASK v (csr_fcsr t)\<rparr>)),
        (FFLAGS_ADDR, write_csr (\<lambda>t. t\<lparr>csr_fcsr := bput fflags v (csr_fcsr t)\<rparr>)),
        (FRM_ADDR, write_csr (\<lambda>t. t\<lparr>csr_fcsr := bput frm v (csr_fcsr t)\<rparr>)),
        (TSELECT_ADDR, ret ()), (TDATA1_ADDR, ret ()), (TDATA2_ADDR, ret ()), (TDATA3_ADDR, ret ()),
        (DCSR_ADDR, ret ()), (DPC_ADDR, ret ()), (DSCRATCH0_ADDR, ret ()), (DSCRATCH1_ADDR, ret ())]
        (default_set addr v))"

section \<open>Traps and interrupts\<close>

definition put_mstatus :: "bitfield \<Rightarrow> u32 \<Rightarrow> csr_table \<Rightarrow> csr_table" where
  "put_mstatus f v t = t\<lparr>csr_mstatus := bput f v (csr_mstatus t)\<rparr>"

definition get_mstatus :: "bitfield \<Rightarrow> csr_table \<Rightarrow> u32" where
  "get_mstatus f t = bget f (csr_mstatus t)"

definition unknown_privilege_level :: "PrivilegeLevel \<Rightarrow> error" where
  "unknown_privilege_level l = RuntimeError (''unknown privilege level '' @ to_string (unat l))"

definition return_from_trap_handler :: "PrivilegeLevel \<Rightarrow> ('p ISS, unit) M" where
  "return_from_trap_handler return_mode =
     switch return_mode [
       (MachineMode, modify (\<lambda>s.
          let t = csrs s;
              t1 = put_mstatus mie (get_mstatus mpie t) t;
              t2 = put_mstatus mpie 1 t1;
              t3 = put_mstatus mpp (if has_user_mode_extension t then UserMode else MachineMode) t2
          in s\<lparr>prv := get_mstatus mpp t, pc := csr_mepc t, csrs := t3\<rparr>)),
       (SupervisorMode, modify (\<lambda>s.
          let t = csrs s;
              t1 = put_mstatus sie (get_mstatus spie t) t;
              t2 = put_mstatus spie 1 t1;
              t3 = put_mstatus spp (if has_user_mode_extension t then UserMode else SupervisorMode) t2
          in s\<lparr>prv := get_mstatus spp t, pc := csr_sepc t, csrs := t3\<rparr>)),
       (UserMode, modify (\<lambda>s.
          let t = csrs s;
              t1 = put_mstatus uie (get_mstatus upie t) t;
              t2 = put_mstatus upie 1 t1
          in s\<lparr>prv := UserMode, pc := csr_uepc t, csrs := t2\<rparr>))]
       (throw (unknown_privilege_level return_mode))"

definition put_cause :: "u32 \<Rightarrow> u32 \<Rightarrow> u32 \<Rightarrow> u32" where
  "put_cause irq code r = bput exception_code code (bput cause_interrupt irq r)"

text \<open>\<open>boost::lexical_cast\<close> of the 64-bit \<open>mtval\<close> to 32 bits throws when the value does not fit.\<close>

definition lexical_cast32 :: "u64 \<Rightarrow> ('s, u32) M" where
  "lexical_cast32 v = (if v < 2 ^ 32 then ret (ucast v) else throw BadLexicalCast)"

definition prepare_trap :: "u32 \<Rightarrow> u64 \<Rightarrow> ('p ISS, PrivilegeLevel) M" where
  "prepare_trap reason mtval =
     seqM (modify (\<lambda>s. s\<lparr>pc := last_pc s\<rparr>))
     (withS (\<lambda>s.
       let exc_bit = push_bit (unat reason) (1 :: u32) in
       if prv s = MachineMode \<or> exc_bit AND csr_medeleg (csrs s) = 0 then
         seqM (modify (upd_csrs (\<lambda>t. t\<lparr>csr_mcause := put_cause 0 reason (csr_mcause t)\<rparr>)))
           (bindM (lexical_cast32 mtval) (\<lambda>v.
              seqM (modify (upd_csrs (\<lambda>t. t\<lparr>csr_mtval := v\<rparr>))) (ret MachineMode)))
       else if prv s = SupervisorMode \<or> exc_bit AND csr_sedeleg (csrs s) = 0 then
         seqM (modify (upd_csrs (\<lambda>t. t\<lparr>csr_scause := put_cause 0 reason (csr_scause t)\<rparr>)))
           (bindM (lexical_cast32 mtval) (\<lambda>v.
              seqM (modify (upd_csrs (\<lambda>t. t\<lparr>csr_stval := v\<rparr>))) (ret SupervisorMode)))
       else
         seqM (assertM (prv s = UserMode \<and> exc_bit AND csr_medeleg (csrs s) \<noteq> 0 \<and> exc_bit AND csr_sedeleg (csrs s) \<noteq> 0)
             ''prv == UserMode'')
           (seqM (modify (upd_csrs (\<lambda>t. t\<lparr>csr_ucause := put_cause 0 reason (csr_ucause t)\<rparr>)))
             (bindM (lexical_cast32 mtval) (\<lambda>v.
                seqM (modify (upd_csrs (\<lambda>t. t\<lparr>csr_utval := v\<rparr>))) (ret UserMode))))))"

record PendingInterrupts =
  target_mode :: PrivilegeLevel
  pending :: u32

definition irq_cause :: "u32 \<Rightarrow> u32 option" where
  "irq_cause x =
     (if bget meip x \<noteq> 0 then Some EXC_M_EXTERNAL_INTERRUPT
      else if bget msip x \<noteq> 0 then Some EXC_M_SOFTWARE_INTERRUPT
      else if bget mtip x \<noteq> 0 then Some EXC_M_TIMER_INTERRUPT
      else if bget seip x \<noteq> 0 then Some EXC_S_EXTERNAL_INTERRUPT
      else if bget ssip x \<noteq> 0 then Some EXC_S_SOFTWARE_INTERRUPT
      else if bget stip x \<noteq> 0 then Some EXC_S_TIMER_INTERRUPT
      else if bget ueip x \<noteq> 0 then Some EXC_U_EXTERNAL_INTERRUPT
      else if bget usip x \<noteq> 0 then Some EXC_U_SOFTWARE_INTERRUPT
      else if bget utip x \<noteq> 0 then Some EXC_U_TIMER_INTERRUPT
      else None)"

definition prepare_interrupt :: "PendingInterrupts \<Rightarrow> ('p ISS, unit) M" where
  "prepare_interrupt e =
     bindM (of_option (RuntimeError ''some pending interrupt must be available here'') (irq_cause (pending e))) (\<lambda>exc.
     switch (target_mode e) [
       (MachineMode, write_csr (\<lambda>t. t\<lparr>csr_mcause := put_cause 1 exc (csr_mcause t)\<rparr>)),
       (SupervisorMode, write_csr (\<lambda>t. t\<lparr>csr_scause := put_cause 1 exc (csr_scause t)\<rparr>)),
       (UserMode, write_csr (\<lambda>t. t\<lparr>csr_ucause := put_cause 1 exc (csr_ucause t)\<rparr>))]
       (throw (unknown_privilege_level (target_mode e))))"

definition compute_pending_interrupts :: "'p ISS \<Rightarrow> PendingInterrupts" where
  "compute_pending_interrupts s =
     (let t = csrs s;
          p = csr_mie t AND csr_mip t;
          m_pending = p AND NOT (csr_mideleg t);
          q = p AND csr_mideleg t;
          s_pending = q AND NOT (csr_sideleg t);
          u_pending = q AND csr_sideleg t
      in if p = 0 then \<lparr>target_mode = NoneMode, pending = 0\<rparr>
         else if m_pending \<noteq> 0 \<and> (prv s < MachineMode \<or> prv s = MachineMode \<and> get_mstatus mie t \<noteq> 0)
         then \<lparr>target_mode = MachineMode, pending = m_pending\<rparr>
         else if s_pending \<noteq> 0 \<and> (prv s < SupervisorMode \<or> prv s = SupervisorMode \<and> get_mstatus sie t \<noteq> 0)
         then \<lparr>target_mode = SupervisorMode, pending = s_pending\<rparr>
         else if u_pending \<noteq> 0 \<and> (prv s = UserMode \<and> get_mstatus uie t \<noteq> 0)
         then \<lparr>target_mode = UserMode, pending = u_pending\<rparr>
         else \<lparr>target_mode = NoneMode, pending = 0\<rparr>)"

definition has_local_pending_enabled_interrupts :: "'p ISS \<Rightarrow> bool" where
  "has_local_pending_enabled_interrupts s \<longleftrightarrow> csr_mie (csrs s) AND csr_mip (csrs s) \<noteq> 0"

text \<open>The address of the handler: vectored mode adds four times the cause of an interrupt.\<close>

definition trap_vector :: "u32 \<Rightarrow> u32 \<Rightarrow> u32" where
  "trap_vector tvec cause =
     (if bget cause_interrupt cause \<noteq> 0 \<and> bget tvec_mode tvec = 1
      then get_base_address tvec + 4 * bget exception_code cause
      else get_base_address tvec)"

definition switch_to_trap_handler :: "PrivilegeLevel \<Rightarrow> ('p ISS, unit) M" where
  "switch_to_trap_handler target =
     seqM (modify release_lr_sc_reservation)
     (bindM (gets prv) (\<lambda>pp.
      seqM (modify (\<lambda>s. s\<lparr>prv := target\<rparr>))
      (switch target [
        (MachineMode, modify (\<lambda>s.
           let t = (csrs s)\<lparr>csr_mepc := pc s\<rparr>;
               t1 = put_mstatus mpie (get_mstatus mie t) t;
               t2 = put_mstatus mie 0 t1;
               t3 = put_mstatus mpp pp t2
           in s\<lparr>csrs := t3, pc := trap_vector (csr_mtvec t) (csr_mcause t)\<rparr>)),
        (SupervisorMode,
           bindM (gets prv) (\<lambda>p.
           seqM (assertM (p = SupervisorMode \<or> p = UserMode) ''prv == SupervisorMode || prv == UserMode'')
           (modify (\<lambda>s.
           let t = (csrs s)\<lparr>csr_sepc := pc s\<rparr>;
               t1 = put_mstatus spie (get_mstatus sie t) t;
               t2 = put_mstatus sie 0 t1;
               t3 = put_mstatus spp pp t2
           in s\<lparr>csrs := t3, pc := trap_vector (csr_stvec t) (csr_scause t)\<rparr>)))),
        (UserMode,
           bindM (gets prv) (\<lambda>p.
           seqM (assertM (p = UserMode) ''prv == UserMode'')
           (modify (\<lambda>s.
           let t = (csrs s)\<lparr>csr_uepc := pc s\<rparr>;
               t1 = put_mstatus upie (get_mstatus uie t) t;
               t2 = put_mstatus uie 0 t1
           in s\<lparr>csrs := t2, pc := trap_vector (csr_utvec t) (csr_ucause t)\<rparr>))))]
        (throw (unknown_privilege_level target)))))"

section \<open>Instructions\<close>

text \<open>
  One equation per opcode of the \<open>switch\<close> in \<open>exec_step\<close>.  The result is the flag
  \<open>initial_concretization\<close>, which the loads from a symbolic address set.
\<close>

definition write_rd :: "('p ISS \<Rightarrow> ConcolicValue) \<Rightarrow> ('p ISS, bool) M" where
  "write_rd f = withS (\<lambda>s. seqM (regs_write (RD s) (f s)) (ret False))"

definition jump :: "('p ISS \<Rightarrow> u32) \<Rightarrow> ('p ISS, unit) M" where
  "jump target = seqM (modify (\<lambda>s. s\<lparr>pc := target s\<rparr>)) trap_check_pc_alignment"

definition branch :: "'p ISS_env \<Rightarrow> (ConcolicValue \<Rightarrow> ConcolicValue \<Rightarrow> ConcolicValue) \<Rightarrow> ('p ISS, bool) M" where
  "branch E f =
     bindM (gets (\<lambda>s. f (RS1 s) (RS2 s))) (\<lambda>res.
     bindM (iss_eval E res) (\<lambda>cond.
     seqM (whenM cond (jump (\<lambda>s. last_pc s + B_imm (instr s))))
     (seqM (track_and_trace_branch E cond res) (ret False))))"

definition exec_load :: "nat \<Rightarrow> (ConcolicValue \<Rightarrow> ('p ISS, ConcolicValue) M) \<Rightarrow> ('p ISS, bool) M" where
  "exec_load alignment load =
     bindM (gets (\<lambda>s. cv_add (RS1 s) (I_IMM s))) (\<lambda>addr.
     seqM (whenM (alignment \<noteq> 1) (trap_check_addr_alignment alignment True addr))
     (bindM (load addr) (\<lambda>v.
      bindM (gets RD) (\<lambda>d.
      seqM (regs_write d v)
      (if symbolic addr \<noteq> None
       then seqM (modify (\<lambda>s. s\<lparr>regs := (regs s)[unat d := cv_taint (regs s ! unat d)]\<rparr>)) (ret True)
       else ret False)))))"

definition exec_store ::
  "nat \<Rightarrow> (ConcolicValue \<Rightarrow> ConcolicValue \<Rightarrow> ('p ISS, unit) M) \<Rightarrow> ('p ISS, bool) M" where
  "exec_store alignment store =
     bindM (gets (\<lambda>s. cv_add (RS1 s) (S_IMM s))) (\<lambda>addr.
     seqM (whenM (alignment \<noteq> 1) (trap_check_addr_alignment alignment False addr))
     (seqM (withS (\<lambda>s. store addr (RS2 s))) (ret False)))"

definition exec_ecall :: "'p ISS_env \<Rightarrow> ('p ISS, unit) M" where
  "exec_ecall E = withS (\<lambda>s.
     bindM (case execute_syscall E of
              None \<Rightarrow> ret None
            | Some sys \<Rightarrow> bindM (getValue32 (reg a7 s)) (\<lambda>n. ret (if n \<noteq> 0 then Some sys else None))) (\<lambda>call.
     case call of
       Some sys \<Rightarrow> sys
     | None \<Rightarrow>
         switch (prv s) [
           (MachineMode, raise_trap EXC_ECALL_M_MODE (ucast (last_pc s))),
           (SupervisorMode, raise_trap EXC_ECALL_S_MODE (ucast (last_pc s))),
           (UserMode, raise_trap EXC_ECALL_U_MODE (ucast (last_pc s)))]
           (throw (unknown_privilege_level (prv s)))))"

primrec exec_rv32i :: "'p ISS_env \<Rightarrow> rv32i \<Rightarrow> ('p ISS, bool) M" where
  "exec_rv32i E LUI = write_rd U_IMM"
| "exec_rv32i E AUIPC = write_rd (\<lambda>s. cv_add (BVC32 (last_pc s)) (U_IMM s))"
| "exec_rv32i E JAL =
     bindM (gets (\<lambda>s. BVC32 (pc s))) (\<lambda>link.
     seqM (jump (\<lambda>s. last_pc s + J_imm (instr s))) (write_rd (\<lambda>_. link)))"
| "exec_rv32i E JALR =
     bindM (gets (\<lambda>s. BVC32 (pc s))) (\<lambda>link.
     bindM (withS (\<lambda>s. getValue32 (RS1 s))) (\<lambda>r.
     seqM (jump (\<lambda>s. (r + I_imm (instr s)) AND NOT 1)) (write_rd (\<lambda>_. link))))"
| "exec_rv32i E BEQ = branch E cv_eq"
| "exec_rv32i E BNE = branch E cv_ne"
| "exec_rv32i E BLT = branch E cv_slt"
| "exec_rv32i E BGE = branch E cv_sge"
| "exec_rv32i E BLTU = branch E cv_ult"
| "exec_rv32i E BGEU = branch E cv_uge"
| "exec_rv32i E LB = exec_load 1 (load_byte E)"
| "exec_rv32i E LH = exec_load 2 (load_half E)"
| "exec_rv32i E LW = exec_load 4 (load_word E)"
| "exec_rv32i E LBU = exec_load 1 (load_ubyte E)"
| "exec_rv32i E LHU = exec_load 2 (load_uhalf E)"
| "exec_rv32i E SB = exec_store 1 (store_byte E)"
| "exec_rv32i E SH = exec_store 2 (store_half E)"
| "exec_rv32i E SW = exec_store 4 (store_word E)"
| "exec_rv32i E ADDI = write_rd (\<lambda>s. cv_add (RS1 s) (I_IMM s))"
| "exec_rv32i E SLTI = write_rd (\<lambda>s. cv_slt (RS1 s) (I_IMM s))"
| "exec_rv32i E SLTIU = write_rd (\<lambda>s. cv_ult (RS1 s) (I_IMM s))"
| "exec_rv32i E XORI = write_rd (\<lambda>s. cv_bxor (RS1 s) (I_IMM s))"
| "exec_rv32i E ORI = write_rd (\<lambda>s. cv_bor (RS1 s) (I_IMM s))"
| "exec_rv32i E ANDI = write_rd (\<lambda>s. cv_band (RS1 s) (I_IMM s))"
| "exec_rv32i E SLLI = write_rd (\<lambda>s. cv_lshl (RS1 s) (SHAMT s))"
| "exec_rv32i E SRLI = write_rd (\<lambda>s. cv_lshr (RS1 s) (SHAMT s))"
| "exec_rv32i E SRAI = write_rd (\<lambda>s. cv_ashr (RS1 s) (SHAMT s))"
| "exec_rv32i E ADD = write_rd (\<lambda>s. cv_add (RS1 s) (RS2 s))"
| "exec_rv32i E SUB = write_rd (\<lambda>s. cv_sub (RS1 s) (RS2 s))"
| "exec_rv32i E SLL = write_rd (\<lambda>s. cv_lshl (RS1 s) (regs_shamt (rs2 (instr s)) s))"
| "exec_rv32i E SLT = write_rd (\<lambda>s. cv_slt (RS1 s) (RS2 s))"
| "exec_rv32i E SLTU = write_rd (\<lambda>s. cv_ult (RS1 s) (RS2 s))"
| "exec_rv32i E XOR_R = write_rd (\<lambda>s. cv_bxor (RS1 s) (RS2 s))"
| "exec_rv32i E SRL = write_rd (\<lambda>s. cv_lshr (RS1 s) (regs_shamt (rs2 (instr s)) s))"
| "exec_rv32i E SRA = write_rd (\<lambda>s. cv_ashr (RS1 s) (regs_shamt (rs2 (instr s)) s))"
| "exec_rv32i E OR_R = write_rd (\<lambda>s. cv_bor (RS1 s) (RS2 s))"
| "exec_rv32i E AND_R = write_rd (\<lambda>s. cv_band (RS1 s) (RS2 s))"
| "exec_rv32i E FENCE = ret False"
| "exec_rv32i E ECALL = seqM (exec_ecall E) (ret False)"
| "exec_rv32i E EBREAK = seqM (modify (\<lambda>s. s\<lparr>status := HitBreakpoint\<rparr>)) (ret False)"

text \<open>
  The CSR instructions: \<open>csr_access\<close> is the guard, \<open>csr_write_rd\<close> the write of the old value unless
  the destination is \<open>x0\<close>.
\<close>

definition csr_access :: "bool \<Rightarrow> ('p ISS, unit) M \<Rightarrow> ('p ISS, bool) M" where
  "csr_access is_write body =
     bindM (withS (\<lambda>s. is_invalid_csr_access (csr (instr s)) is_write)) (\<lambda>invalid.
     if invalid then RAISE_ILLEGAL_INSTRUCTION else seqM body (ret False))"

definition csr_write_rd :: "u32 \<Rightarrow> ('p ISS, unit) M" where
  "csr_write_rd v = withS (\<lambda>s. whenM (RD s \<noteq> zero) (regs_write (RD s) (BVC32 v)))"

definition csr_swap :: "'p ISS_env \<Rightarrow> ('p ISS \<Rightarrow> ('p ISS, u32) M) \<Rightarrow> ('p ISS, bool) M" where
  "csr_swap E operand =
     csr_access True (withS (\<lambda>s.
       seqM (whenM (RD s \<noteq> zero) (bindM (get_csr_value E (csr (instr s))) csr_write_rd))
         (bindM (operand s) (set_csr_value (csr (instr s))))))"

definition csr_modify ::
  "'p ISS_env \<Rightarrow> bool \<Rightarrow> ('p ISS \<Rightarrow> ('p ISS, u32) M) \<Rightarrow> (u32 \<Rightarrow> u32 \<Rightarrow> u32) \<Rightarrow> ('p ISS, bool) M" where
  "csr_modify E is_write operand f =
     csr_access is_write (withS (\<lambda>s.
       bindM (get_csr_value E (csr (instr s))) (\<lambda>csr_val.
       seqM (csr_write_rd csr_val)
         (whenM is_write (bindM (operand s) (\<lambda>x. set_csr_value (csr (instr s)) (f csr_val x)))))))"

primrec exec_zicsr :: "'p ISS_env \<Rightarrow> zicsr \<Rightarrow> ('p ISS, bool) M" where
  "exec_zicsr E CSRRW = csr_swap E (\<lambda>s. getValue32 (RS1 s))"
| "exec_zicsr E CSRRS =
     withS (\<lambda>s. csr_modify E (rs1 (instr s) \<noteq> zero) (\<lambda>s. getValue32 (RS1 s)) (OR))"
| "exec_zicsr E CSRRC =
     withS (\<lambda>s. csr_modify E (rs1 (instr s) \<noteq> zero) (\<lambda>s. getValue32 (RS1 s)) (\<lambda>v x. v AND NOT x))"
| "exec_zicsr E CSRRWI = csr_swap E (\<lambda>s. ret (zimm (instr s)))"
| "exec_zicsr E CSRRSI = withS (\<lambda>s. csr_modify E (zimm (instr s) \<noteq> 0) (\<lambda>s. ret (zimm (instr s))) (OR))"
| "exec_zicsr E CSRRCI =
     withS (\<lambda>s. csr_modify E (zimm (instr s) \<noteq> 0) (\<lambda>s. ret (zimm (instr s))) (\<lambda>v x. v AND NOT x))"

definition exec_wfi :: "'p ISS_env \<Rightarrow> ('p ISS, unit) M" where
  "exec_wfi E =
     seqM (modify release_lr_sc_reservation)
     (withS (\<lambda>s.
       seqM (whenM (s_mode s \<and> get_mstatus tw (csrs s) \<noteq> 0) RAISE_ILLEGAL_INSTRUCTION)
       (seqM (whenM (u_mode s \<and> has_supervisor_mode_extension (csrs s)) RAISE_ILLEGAL_INSTRUCTION)
         (whenM (\<not> ignore_wfi s \<and> \<not> has_local_pending_enabled_interrupts s)
           (bindM (of_option Suspended (wait_event E (platform s))) (\<lambda>r. modify (resume r)))))))"

definition unknown_opcode :: error where
  "unknown_opcode = RuntimeError ''unknown opcode''"

definition exec_op :: "'p ISS_env \<Rightarrow> Mapping \<Rightarrow> ('p ISS, bool) M" where
  "exec_op E m =
     (case m of
        UNDEF \<Rightarrow> RAISE_ILLEGAL_INSTRUCTION
      | M_I i \<Rightarrow> exec_rv32i E i
      | M_Zifencei _ \<Rightarrow> ret False
      | M_Zicsr i \<Rightarrow> exec_zicsr E i
      | M_Priv WFI \<Rightarrow> seqM (exec_wfi E) (ret False)
      | M_Priv MRET \<Rightarrow> seqM (return_from_trap_handler MachineMode) (ret False)
      | _ \<Rightarrow> throw unknown_opcode)"

section \<open>A step of the core\<close>

definition fetch_decode :: "'p ISS_env \<Rightarrow> ('p ISS, unit) M" where
  "fetch_decode E =
     seqM (bindM (catchM (withS (\<lambda>s. load_instr E (pc s)))
                   (\<lambda>e. if is_trap e then seqM (modify (\<lambda>s. s\<lparr>op := UNDEF, instr := 0\<rparr>)) (throw e) else throw e))
             (\<lambda>mem_word. modify (\<lambda>s. s\<lparr>instr := mem_word\<rparr>)))
     (bindM (gets instr) (\<lambda>i.
       if is_compressed i then
         bindM (of_option (RuntimeError ''compressed instruction expected, but uncompressed found'')
                  (decode_and_expand_compressed i RV32)) (\<lambda>(i', m).
         seqM (modify (\<lambda>s. s\<lparr>instr := i', op := m, pc := pc s + 2\<rparr>))
           (whenM (m \<noteq> UNDEF) (REQUIRE_ISA misa_C)))
       else modify (\<lambda>s. s\<lparr>op := decode_normal RV32 i, pc := pc s + 4\<rparr>)))"

text \<open>The register operands the coverage looks at, by the format of the instruction.\<close>

definition coverage_operands :: "Mapping \<Rightarrow> u32 \<Rightarrow> ('s, u32 list) M" where
  "coverage_operands m i =
     (case getType m of
        Type_B \<Rightarrow> ret [rs1 i, rs2 i]
      | Type_S \<Rightarrow> ret [rs1 i, rs2 i]
      | Type_R \<Rightarrow> ret [rs1 i, rs2 i]
      | Type_I \<Rightarrow> ret [rs1 i]
      | Type_R4 \<Rightarrow> throw (ThrownString ''Opcode::Type::R4 not supported yet'')
      | _ \<Rightarrow> ret [])"

definition coverage_flags :: "('p ISS, bool \<times> bool) M" where
  "coverage_flags = withS (\<lambda>s.
     if coverage s = None then ret (False, False)
     else bindM (coverage_operands (op s) (instr s)) (\<lambda>rops.
       ret (list_ex (\<lambda>r. cv_is_tainted (reg r s)) rops, list_ex (\<lambda>r. symbolic (reg r s) \<noteq> None) rops)))"

definition exec_cover :: "'p ISS_env \<Rightarrow> bool \<Rightarrow> bool \<Rightarrow> bool \<Rightarrow> ('p ISS, unit) M" where
  "exec_cover E tnt symb init = (\<lambda>s.
     case coverage s of
       None \<Rightarrow> Throw NullPointer s
     | Some cov \<Rightarrow>
         (case cover (get_sources E) (ucast (last_pc s)) tnt symb init cov of
            Ok _ cov' \<Rightarrow> Ok () (s\<lparr>coverage := Some cov'\<rparr>)
          | Throw e cov' \<Rightarrow> Throw e (s\<lparr>coverage := Some cov'\<rparr>)))"

definition exec_step :: "'p ISS_env \<Rightarrow> ('p ISS, unit) M" where
  "exec_step E =
     bindM (gets (\<lambda>s. pc s AND NOT (pc_alignment_mask (csrs s)) = 0)) (\<lambda>aligned.
     seqM (assertM aligned ''misaligned instruction'')
     (seqM (fetch_decode E)
     (bindM coverage_flags (\<lambda>(tnt, symb).
      bindM (withS (\<lambda>s. exec_op E (op s))) (\<lambda>init.
      exec_cover E tnt symb init)))))"

definition instr_cycles :: "Mapping \<Rightarrow> u64" where
  "instr_cycles m =
     (if m \<in> {M_I LB, M_I LBU, M_I LH, M_I LHU, M_I LW, M_I SB, M_I SH, M_I SW} then 4 * 10000
      else if m \<in> {M_M MUL, M_M MULH, M_M MULHU, M_M MULHSU, M_M DIV, M_M DIVU, M_M REM, M_M REMU}
      then 8 * 10000
      else 10000)"

definition performance_and_sync_update :: "'p ISS_env \<Rightarrow> Mapping \<Rightarrow> ('p ISS, unit) M" where
  "performance_and_sync_update E executed_op =
     seqM (modify (\<lambda>s. s\<lparr>total_num_instr := total_num_instr s + 1\<rparr>))
     (seqM (modify (\<lambda>s. if bget counter_IR (csr_mcountinhibit (csrs s)) = 0
                         then upd_csrs (\<lambda>t. t\<lparr>csr_instret := csr_instret t + 1\<rparr>) s else s))
     (seqM (withS (\<lambda>s. whenM (lr_sc_counter s \<noteq> 0)
              (seqM (modify (\<lambda>s. s\<lparr>lr_sc_counter := lr_sc_counter s - 1\<rparr>))
                (withS (\<lambda>s. seqM (assertM (lr_sc_counter s \<ge> 0) ''lr_sc_counter >= 0'')
                  (whenM (lr_sc_counter s = 0) (modify release_lr_sc_reservation)))))))
     (seqM (modify (\<lambda>s. if bget counter_CY (csr_mcountinhibit (csrs s)) = 0
                         then s\<lparr>cycle_counter := cycle_counter s + instr_cycles executed_op\<rparr> else s))
     (seqM (modify (\<lambda>s. s\<lparr>platform := qk_inc E (instr_cycles executed_op) (platform s)\<rparr>))
       (withS (\<lambda>s. whenM (need_sync E (platform s) \<and> lr_sc_counter s = 0)
              (modify (resume (qk_sync E (platform s))))))))))"

definition take_interrupt :: "('p ISS, unit) M" where
  "take_interrupt = withS (\<lambda>s.
     let x = compute_pending_interrupts s
     in whenM (target_mode x \<noteq> NoneMode)
          (seqM (prepare_interrupt x) (switch_to_trap_handler (target_mode x))))"

definition handle_trap :: "error \<Rightarrow> ('p ISS, unit) M" where
  "handle_trap e =
     (case e of
        SimulationTrap reason mtval \<Rightarrow> bindM (prepare_trap reason mtval) switch_to_trap_handler
      | _ \<Rightarrow> throw e)"

definition run_step :: "'p ISS_env \<Rightarrow> ('p ISS, unit) M" where
  "run_step E =
     bindM (bindM (regs_read 0) getValue32) (\<lambda>z.
     seqM (assertM (z = 0) ''regs.read(0) == 0'')
     (withS (\<lambda>s.
       if debug_mode s \<and> pc s \<in> breakpoints s then modify (\<lambda>s. s\<lparr>status := HitBreakpoint\<rparr>)
       else
         seqM (modify (\<lambda>s. s\<lparr>last_pc := pc s\<rparr>))
         (seqM (catchM (seqM (exec_step E) take_interrupt) handle_trap)
         (seqM (regs_write zero (BVC32 0))
         (seqM (modify (\<lambda>s. if shall_exit s then s\<lparr>status := Terminated\<rparr> else s))
           (withS (\<lambda>s. performance_and_sync_update E (op s)))))))))"

text \<open>\<open>run\<close> repeats the step while the core is runnable; \<open>None\<close> is a program that never stops.\<close>

partial_function (option) run :: "'p ISS_env \<Rightarrow> 'p ISS \<Rightarrow> (unit, 'p ISS) outcome option" where
  "run E s =
     (case run_step E s of
        Throw e s' \<Rightarrow> Some (Throw e s')
      | Ok _ s' \<Rightarrow>
          (if status s' = Runnable then run E s'
           else Some (Ok () (resume (qk_sync E (platform s')) s'))))"

declare run.simps [code]

section \<open>Construction and the interfaces to the loader, the debugger and the system calls\<close>

definition newISS :: "u32 \<Rightarrow> bool \<Rightarrow> 'p \<Rightarrow> Trace \<Rightarrow> ExecutionContext \<Rightarrow> 'p ISS" where
  "newISS hart_id use_E_base_isa p tr c =
     (let t = csr_table_init\<lparr>csr_mhartid := hart_id\<rparr>
      in \<lparr>regs = newRegFile, pc = 0, last_pc = 0, shall_exit = False, ignore_wfi = False,
          csrs = (if use_E_base_isa then select_E_base_isa t else t), prv = MachineMode,
          lr_sc_counter = 0, total_num_instr = 0, coverage = None, instr = 0, op = UNDEF,
          status = Runnable, breakpoints = {}, debug_mode = False, cycle_counter = 0, tracer = tr,
          ctx = c, platform = p\<rparr>)"

definition iss_init :: "u32 \<Rightarrow> u32 \<Rightarrow> ('p ISS, unit) M" where
  "iss_init entrypoint stack =
     seqM (regs_write sp (BVC32 stack)) (modify (\<lambda>s. s\<lparr>pc := entrypoint\<rparr>))"

definition sys_exit :: "'p ISS \<Rightarrow> 'p ISS" where
  "sys_exit s = s\<lparr>shall_exit := True\<rparr>"

definition get_syscall_register_index :: "'p ISS \<Rightarrow> u32" where
  "get_syscall_register_index s = (if has_E_base_isa (csrs s) then a5 else a7)"

definition read_register :: "u32 \<Rightarrow> ('p ISS, u64) M" where
  "read_register idx = bindM (bindM (regs_read idx) getValue32) (\<lambda>v. ret (ucast v))"

definition write_register :: "u32 \<Rightarrow> u64 \<Rightarrow> ('p ISS, unit) M" where
  "write_register idx v =
     seqM (assertM (v < 2 ^ 32) ''value <= UINT32_MAX'') (regs_write idx (BVC32 (ucast v)))"

definition get_progam_counter :: "'p ISS \<Rightarrow> u64" where
  "get_progam_counter s = ucast (pc s)"

definition block_on_wfi :: "bool \<Rightarrow> 'p ISS \<Rightarrow> 'p ISS" where
  "block_on_wfi block s = s\<lparr>ignore_wfi := \<not> block\<rparr>"

definition set_status :: "CoreExecStatus \<Rightarrow> 'p ISS \<Rightarrow> 'p ISS" where
  "set_status st s = s\<lparr>status := st\<rparr>"

definition enable_debug :: "'p ISS \<Rightarrow> 'p ISS" where
  "enable_debug s = s\<lparr>debug_mode := True\<rparr>"

definition insert_breakpoint :: "u64 \<Rightarrow> 'p ISS \<Rightarrow> 'p ISS" where
  "insert_breakpoint addr s = s\<lparr>breakpoints := insert (ucast addr) (breakpoints s)\<rparr>"

definition remove_breakpoint :: "u64 \<Rightarrow> 'p ISS \<Rightarrow> 'p ISS" where
  "remove_breakpoint addr s = s\<lparr>breakpoints := breakpoints s - {ucast addr}\<rparr>"

definition get_hart_id :: "'p ISS \<Rightarrow> u64" where
  "get_hart_id s = ucast (csr_mhartid (csrs s))"

definition get_registers :: "'p ISS \<Rightarrow> u64 list option" where
  "get_registers s =
     those (map (\<lambda>v. map_option (\<lambda>x. ucast (word_of_int x :: u32)) (getValue 32 (concrete v))) (regs s))"

text \<open>\<open>make_symbolic\<close> of a register and of memory, used by the system calls of the symbolic execution.\<close>

definition make_symbolic_reg :: "'p ISS_env \<Rightarrow> u32 \<Rightarrow> ('p ISS, unit) M" where
  "make_symbolic_reg E index = (\<lambda>s.
     case getSymbolicWord (env_rand E) (''x'' @ to_string (unat index)) (ctx s, platform s) of
       None \<Rightarrow> Throw (RuntimeError ''bad_variant_access'') s
     | Some (v, c, p) \<Rightarrow> regs_write index v (s\<lparr>ctx := c, platform := p\<rparr>))"

definition make_symbolic_mem :: "'p ISS_env \<Rightarrow> u32 \<Rightarrow> nat \<Rightarrow> ('p ISS, unit) M" where
  "make_symbolic_mem E addr n = (\<lambda>s.
     case getSymbolicBytes (env_rand E) (''memory<'' @ to_string (unat addr) @ ''>'') n (ctx s, platform s) of
       None \<Rightarrow> Throw (RuntimeError ''bad_variant_access'') s
     | Some (v, c, p) \<Rightarrow>
         bindM (of_option NullPointer v) (\<lambda>x. symbolic_store_data E (BVC32 addr) x n)
           (s\<lparr>ctx := c, platform := p\<rparr>))"

end
