(* ===== verification/RV_ISS_Inv.thy ===== *)
theory RV_ISS_Inv
  imports RV_ISS
begin

text \<open>
  The invariant of the core and the contract of its environment.  \<open>core_inv\<close> holds throughout a
  step; \<open>iss_inv\<close> adds what holds between two steps.  The locale \<open>iss_environment\<close> states what
  the core relies on: the memory interface, the system calls and the SystemC kernel change no more
  of the core than its interrupt lines, and what is loaded is a well-formed concolic value.
\<close>

section \<open>The invariant\<close>

definition aligned :: "csr_table \<Rightarrow> u32 \<Rightarrow> bool" where
  "aligned t a \<longleftrightarrow> a AND NOT (pc_alignment_mask t) = 0"

definition csr_inv :: "csr_table \<Rightarrow> bool" where
  "csr_inv t \<longleftrightarrow> csr_mie t AND NOT MIE_MASK = 0 \<and>
     aligned t (csr_mepc t) \<and> aligned t (csr_sepc t) \<and> aligned t (csr_uepc t)"

definition regs_ok :: "assignment \<Rightarrow> ConcolicValue list \<Rightarrow> bool" where
  "regs_ok \<sigma> rs \<longleftrightarrow> length rs = 32 \<and> (\<forall>v \<in> set rs. cv_ok \<sigma> 32 v)"

definition core_inv :: "('p \<Rightarrow> bool) \<Rightarrow> assignment \<Rightarrow> 'p ISS \<Rightarrow> bool" where
  "core_inv plat \<sigma> s \<longleftrightarrow> regs_ok \<sigma> (regs s) \<and> trace_ok \<sigma> (tracer s) \<and> csr_inv (csrs s) \<and>
     aligned (csrs s) (last_pc s) \<and> plat (platform s) \<and> lr_sc_counter s \<ge> 0"

definition iss_inv :: "('p \<Rightarrow> bool) \<Rightarrow> assignment \<Rightarrow> 'p ISS \<Rightarrow> bool" where
  "iss_inv plat \<sigma> s \<longleftrightarrow> regs_ok \<sigma> (regs s) \<and> trace_ok \<sigma> (tracer s) \<and> csr_inv (csrs s) \<and>
     aligned (csrs s) (pc s) \<and> plat (platform s) \<and> cv_val (regs s ! 0) = 0 \<and> lr_sc_counter s \<ge> 0"

text \<open>What a call into the environment may change.\<close>

definition frame :: "'p ISS \<Rightarrow> 'p ISS \<Rightarrow> bool" where
  "frame s s' \<longleftrightarrow> s' = s\<lparr>csrs := (csrs s)\<lparr>csr_mip := csr_mip (csrs s')\<rparr>, platform := platform s'\<rparr>"

text \<open>
  The errors the environment may report: traps, exceptions, and the failed assertions of the memory
  interface, the MMU, the interruptor and the system calls that software or the length of the
  simulation can provoke.
\<close>

definition env_assertions :: "string set" where
  "env_assertions = {''local_delay >= quantum_keeper.get_local_time()'', ''mode == 0 || mode == 1'',
     ''mem != nullptr'', ''tzp == 0'', ''ans >= 0'', ''value <= UINT32_MAX'', ''false'', ''local_addr + len <= mem.size()'',
     ''addr % 4 == 0'', ''trans.get_data_length() == 4'', ''core not registered in syscall handler''}"

definition env_error :: "error \<Rightarrow> bool" where
  "env_error e \<longleftrightarrow> (\<forall>m. e = AssertionFailed m \<longrightarrow> m \<in> env_assertions)"

lemma env_error_simps [simp]:
  "env_error (SimulationTrap r v)" "env_error (RuntimeError m)" "env_error OutOfRange"
  "env_error BadLexicalCast" "env_error (ThrownString m)" "env_error NullPointer" "env_error Suspended"
  "env_error (LogicError m)" "env_error (AssertionFailed m) \<longleftrightarrow> m \<in> env_assertions"
  by (simp_all add: env_error_def)

lemma frame_refl [simp]: "frame s s"
  by (simp add: frame_def)

lemma frameD:
  assumes "frame s s'"
  shows "regs s' = regs s" "pc s' = pc s" "last_pc s' = last_pc s" "tracer s' = tracer s"
    "instr s' = instr s" "op s' = op s" "prv s' = prv s" "coverage s' = coverage s"
    "csrs s' = (csrs s)\<lparr>csr_mip := csr_mip (csrs s')\<rparr>" "lr_sc_counter s' = lr_sc_counter s"
    "status s' = status s" "cycle_counter s' = cycle_counter s" "total_num_instr s' = total_num_instr s"
    "debug_mode s' = debug_mode s" "breakpoints s' = breakpoints s" "shall_exit s' = shall_exit s"
    "ignore_wfi s' = ignore_wfi s" "ctx s' = ctx s"
  by (subst assms [unfolded frame_def], simp)+

lemma frame_iff: "frame s s' \<longleftrightarrow> (\<exists>x p. s' = s\<lparr>csrs := (csrs s)\<lparr>csr_mip := x\<rparr>, platform := p\<rparr>)"
  by (auto simp: frame_def)

lemma frame_trans: "frame a b \<Longrightarrow> frame b c \<Longrightarrow> frame a c"
  unfolding frame_iff by force

lemma alignment_mask_mip [simp]: "pc_alignment_mask (t\<lparr>csr_mip := x\<rparr>) = pc_alignment_mask t"
  by (simp add: pc_alignment_mask_def has_C_extension_def misa_extensions_def)

lemma aligned_mip [simp]: "aligned (t\<lparr>csr_mip := x\<rparr>) a = aligned t a"
  by (simp add: aligned_def)

lemma csr_inv_mip [simp]: "csr_inv (t\<lparr>csr_mip := x\<rparr>) = csr_inv t"
  by (simp add: csr_inv_def)

lemma core_inv_frame: "core_inv plat \<sigma> s \<Longrightarrow> frame s s' \<Longrightarrow> plat (platform s') \<Longrightarrow> core_inv plat \<sigma> s'"
  unfolding core_inv_def using frameD [of s s'] by (metis aligned_mip csr_inv_mip)

lemma deliver_frame: "frame s (deliver ev s)" "platform (deliver ev s) = platform s"
  by (cases ev; auto simp: frame_def put_mip_def upd_csrs_def switch_def external_interrupt_def
      trigger_external_interrupt_def clear_external_interrupt_def trigger_timer_interrupt_def
      trigger_software_interrupt_def)+

lemma fold_deliver_frame: "frame s (fold deliver es s) \<and> platform (fold deliver es s) = platform s"
proof (induction es arbitrary: s)
  case (Cons e es)
  then show ?case using deliver_frame [where s = s and ev = e] frame_trans [of s "deliver e s"] by fastforce
qed simp

lemma resume_frame: "frame s (resume r s)" "platform (resume r s) = fst r"
proof -
  have "frame s (s\<lparr>platform := fst r\<rparr>)" by (simp add: frame_def)
  then show "frame s (resume r s)"
    using fold_deliver_frame frame_trans unfolding resume_def by blast
  show "platform (resume r s) = fst r"
    using fold_deliver_frame [of "s\<lparr>platform := fst r\<rparr>" "snd r"] by (simp add: resume_def)
qed

section \<open>The contract of the environment\<close>

locale iss_environment =
  fixes E :: "'p ISS_env" and plat :: "'p \<Rightarrow> bool" and \<sigma> :: assignment
  assumes klee: "klee_ok (solver E)"
    and fetch: "core_inv plat \<sigma> s \<Longrightarrow>
      wp (load_instr E a) (\<lambda>_ s'. frame s s' \<and> plat (platform s')) (\<lambda>e s'. frame s s' \<and> plat (platform s') \<and> env_error e) s"
    and load: "core_inv plat \<sigma> s \<Longrightarrow> cv_ok \<sigma> 32 addr \<Longrightarrow>
      ld \<in> {load_word E, load_half E, load_byte E, load_uhalf E, load_ubyte E} \<Longrightarrow>
      wp (ld addr) (\<lambda>v s'. cv_ok \<sigma> 32 v \<and> frame s s' \<and> plat (platform s'))
        (\<lambda>e s'. frame s s' \<and> plat (platform s') \<and> env_error e) s"
    and store: "core_inv plat \<sigma> s \<Longrightarrow> cv_ok \<sigma> 32 addr \<Longrightarrow> cv_ok \<sigma> 32 v \<Longrightarrow>
      st \<in> {store_word E, store_half E, store_byte E} \<Longrightarrow>
      wp (st addr v) (\<lambda>_ s'. frame s s' \<and> plat (platform s'))
        (\<lambda>e s'. frame s s' \<and> plat (platform s') \<and> env_error e) s"
    and syscall: "execute_syscall E = Some m \<Longrightarrow> core_inv plat \<sigma> s \<Longrightarrow>
      wp m (\<lambda>_ s'. core_inv plat \<sigma> s' \<and> pc s' = pc s \<and> csr_misa (csrs s') = csr_misa (csrs s))
        (\<lambda>e s'. core_inv plat \<sigma> s' \<and> env_error e) s"
    and sources: "get_sources E ia = Inl e \<Longrightarrow> env_error e \<and> \<not> is_trap e"
    and mtime: "plat p \<Longrightarrow> plat (fst (snd (update_and_get_mtime E p)))"
    and kernel: "plat p \<Longrightarrow> plat (qk_inc E d p)" "plat p \<Longrightarrow> plat (fst (qk_sync E p))"
      "plat p \<Longrightarrow> wait_event E p = Some r \<Longrightarrow> plat (fst r)"

section \<open>The register file\<close>

lemma BVC32_ok [simp, intro]: "cv_ok \<sigma> 32 (BVC32 x)"
  using BVC_ok(1) [of None \<sigma> "U32 x"] by (simp add: BVC32_def intByteSize_def)

lemma BVC32_val [simp]: "cv_val (BVC32 x) = uint x"
  using BVC_ok(2) [of None "\<lambda>_ _. 0" "U32 x"] by (simp add: BVC32_def intToUint_def)

lemma regs_ok_nth: "regs_ok \<sigma> rs \<Longrightarrow> i < 32 \<Longrightarrow> cv_ok \<sigma> 32 (rs ! i)"
  by (simp add: regs_ok_def)

lemma reg_fields:
  "rd i = take_bit 5 (drop_bit 7 i)" "rs1 i = take_bit 5 (drop_bit 15 i)" "rs2 i = take_bit 5 (drop_bit 20 i)"
  by (simp_all add: rd_def rs1_def rs2_def BIT_RANGE_def signed_drop_bit_and take_bit_eq_mask mask_eq_exp_minus_1)

lemma reg_index: "unat (rd i) < 32" "unat (rs1 i) < 32" "unat (rs2 i) < 32" "rd i \<le> 31"
proof -
  have *: "unat (take_bit 5 x) < 32" for x :: u32
    using take_bit_nat_less_exp [of 5 "unat x"] by (simp add: unsigned_take_bit_eq)
  then show "unat (rd i) < 32" "unat (rs1 i) < 32" "unat (rs2 i) < 32" by (simp_all add: reg_fields)
  then show "rd i \<le> 31" by (simp add: word_le_nat_alt)
qed

lemma reg_ok:
  "core_inv plat \<sigma> s \<Longrightarrow> cv_ok \<sigma> 32 (reg (rs1 i) s)" "core_inv plat \<sigma> s \<Longrightarrow> cv_ok \<sigma> 32 (reg (rs2 i) s)"
  using reg_index by (simp_all add: core_inv_def reg_def regs_ok_nth)

lemma regs_write_wp:
  assumes "u \<le> 32" and "cv_ok \<sigma> u v" and "i \<le> 31" and "regs_ok \<sigma> (regs s)"
  shows "wp (regs_write i v) (\<lambda>_ s'. \<exists>v'. cv_ok \<sigma> 32 v' \<and> cv_val v' = cv_val v \<and>
      s' = s\<lparr>regs := (regs s)[unat i := v']\<rparr>) (\<lambda>_ _. False) s"
  using assms cv_zext_widen [OF assms(2), of 32]
  by (auto simp: regs_write_def wp_simps cv_ok_widths [OF assms(2)])

lemma regs_ok_update: "regs_ok \<sigma> rs \<Longrightarrow> cv_ok \<sigma> 32 v \<Longrightarrow> regs_ok \<sigma> (rs[i := v])"
  by (auto simp: regs_ok_def dest: set_update_subset_insert [THEN subsetD])

lemma core_inv_write: "core_inv plat \<sigma> s \<Longrightarrow> cv_ok \<sigma> 32 v \<Longrightarrow> core_inv plat \<sigma> (s\<lparr>regs := (regs s)[i := v]\<rparr>)"
  by (simp add: core_inv_def regs_ok_update)

lemma getValue32_wp:
  "cv_ok \<sigma> 32 v \<Longrightarrow> wp (getValue32 v) Q X s = Q (word_of_int (cv_val v)) s"
  by (simp add: getValue32_def wp_simps cv_ok_getValue)

lemma imm_ok [simp, intro]:
  "cv_ok \<sigma> 32 (I_IMM s)" "cv_ok \<sigma> 32 (S_IMM s)" "cv_ok \<sigma> 32 (U_IMM s)" "cv_ok \<sigma> 32 (SHAMT s)"
  by (simp_all add: I_IMM_def S_IMM_def U_IMM_def SHAMT_def cv_sext_ok(1) [OF BVC32_ok])

lemma shamt_ok: "cv_ok \<sigma> 32 (reg r s) \<Longrightarrow> cv_ok \<sigma> 32 (regs_shamt r s)"
  unfolding regs_shamt_def by (rule cv_zext_ok(1) [OF cv_extract_ok(1)], assumption) simp_all

section \<open>Control and status registers\<close>

lemma pc_alignment_mask_cong: "csr_misa t' = csr_misa t \<Longrightarrow> pc_alignment_mask t' = pc_alignment_mask t"
  by (simp add: pc_alignment_mask_def has_C_extension_def misa_extensions_def)

lemmas align_defs = aligned_def pc_alignment_mask_def has_C_extension_def misa_extensions_def

lemma aligned_cong: "csr_misa t' = csr_misa t \<Longrightarrow> aligned t' a = aligned t a"
  by (simp add: align_defs)

lemma csr_inv_cong:
  "csr_misa t' = csr_misa t \<Longrightarrow> csr_mie t' = csr_mie t \<Longrightarrow> csr_mepc t' = csr_mepc t \<Longrightarrow>
    csr_sepc t' = csr_sepc t \<Longrightarrow> csr_uepc t' = csr_uepc t \<Longrightarrow> csr_inv t' = csr_inv t"
  by (simp add: csr_inv_def align_defs)

text \<open>\<open>csr_step s s'\<close>: only the table has changed, the implemented extensions and the invariant are kept.\<close>

definition csr_step :: "'p ISS \<Rightarrow> 'p ISS \<Rightarrow> bool" where
  "csr_step s s' \<longleftrightarrow> s' = s\<lparr>csrs := csrs s'\<rparr> \<and> csr_misa (csrs s') = csr_misa (csrs s) \<and>
     (csr_inv (csrs s) \<longrightarrow> csr_inv (csrs s'))"

lemma csr_step_refl [simp]: "csr_step s s"
  by (simp add: csr_step_def)

lemma csr_step_upd:
  "csr_misa (f (csrs s)) = csr_misa (csrs s) \<Longrightarrow> (csr_inv (csrs s) \<Longrightarrow> csr_inv (f (csrs s))) \<Longrightarrow>
    csr_step s (upd_csrs f s)"
  by (simp add: csr_step_def upd_csrs_def)

lemma csr_stepD:
  assumes "csr_step s s'"
  shows "regs s' = regs s" "pc s' = pc s" "last_pc s' = last_pc s" "tracer s' = tracer s"
    "instr s' = instr s" "op s' = op s" "prv s' = prv s" "coverage s' = coverage s" "platform s' = platform s"
    "lr_sc_counter s' = lr_sc_counter s" "csr_misa (csrs s') = csr_misa (csrs s)"
proof -
  have *: "s' = s\<lparr>csrs := csrs s'\<rparr>" and "csr_misa (csrs s') = csr_misa (csrs s)"
    using assms by (simp_all add: csr_step_def)
  then show "csr_misa (csrs s') = csr_misa (csrs s)" by simp
  show "regs s' = regs s" "pc s' = pc s" "last_pc s' = last_pc s" "tracer s' = tracer s"
    "instr s' = instr s" "op s' = op s" "prv s' = prv s" "coverage s' = coverage s" "platform s' = platform s"
    "lr_sc_counter s' = lr_sc_counter s"
    by (subst *, simp)+
qed

lemma csr_step_inv: "csr_step s s' \<Longrightarrow> csr_inv (csrs s) \<Longrightarrow> csr_inv (csrs s')"
  by (simp add: csr_step_def)

lemma core_inv_csr_step: "core_inv plat \<sigma> s \<Longrightarrow> csr_step s s' \<Longrightarrow> core_inv plat \<sigma> s'"
  using csr_stepD [of s s'] aligned_cong [of "csrs s'" "csrs s" "last_pc s"] csr_step_inv [of s s']
  unfolding core_inv_def by simp

lemma masked_subset:
  fixes m M r v :: u32
  assumes "r AND NOT M = 0" and "m AND NOT M = 0"
  shows "masked m v r AND NOT M = 0"
proof -
  have "masked m v r AND NOT M = ((r AND NOT M) AND NOT m) OR (v AND (m AND NOT M))"
    by (rule bit_word_eqI) (auto simp: masked_def bit_simps)
  then show ?thesis by (simp add: assms)
qed

lemma masked_aligned: "aligned t r \<Longrightarrow> aligned t (masked (pc_alignment_mask t) v r)"
  unfolding aligned_def by (rule masked_subset) simp_all

lemma wp_switch:
  assumes "\<And>k m. (k, m) \<in> set cs \<Longrightarrow> x = k \<Longrightarrow> wp m Q X s"
    and "x \<notin> fst ` set cs \<Longrightarrow> wp d Q X s"
  shows "wp (switch x cs d) Q X s"
proof (cases "map_of cs x")
  case None
  then show ?thesis using assms(2) by (simp add: switch_def map_of_eq_None_iff [THEN iffD1])
next
  case (Some m)
  then show ?thesis using assms(1) [OF map_of_SomeD [OF Some]] by (simp add: switch_def)
qed

lemma wp_ifI: "(b \<Longrightarrow> wp m Q X s) \<Longrightarrow> (\<not> b \<Longrightarrow> wp n Q X s) \<Longrightarrow> wp (if b then m else n) Q X s"
  by simp

lemma raise_trap_wp [wp_simps]: "wp (raise_trap r v) Q X = X (SimulationTrap r v)"
  by (simp add: raise_trap_def wp_simps)

lemma RAISE_wp [wp_simps]:
  "wp RAISE_ILLEGAL_INSTRUCTION Q X = (\<lambda>s. X (SimulationTrap EXC_ILLEGAL_INSTR (ucast (instr s))) s)"
  by (simp add: RAISE_ILLEGAL_INSTRUCTION_def wp_simps)

lemma register_mapping_special:
  "register_mapping addr = Some P_mie \<Longrightarrow> addr = MIE_ADDR" "register_mapping addr = Some P_misa \<Longrightarrow> addr = MISA_ADDR"
  "register_mapping addr = Some P_mepc \<Longrightarrow> addr = MEPC_ADDR" "register_mapping addr = Some P_sepc \<Longrightarrow> addr = SEPC_ADDR"
  "register_mapping addr = Some P_uepc \<Longrightarrow> addr = UEPC_ADDR"
  by (auto simp: register_mapping_def split: if_splits)

lemma assign_cell_inv:
  assumes "p \<notin> {P_mie, P_misa, P_mepc, P_sepc, P_uepc}"
  shows "csr_misa (assign_cell p v t) = csr_misa t \<and> csr_inv (assign_cell p v t) = csr_inv t"
  using assms by (cases p) (simp_all add: csr_inv_def align_defs)

lemma default_set_wp:
  assumes "addr \<notin> {MIE_ADDR, MISA_ADDR, MEPC_ADDR, SEPC_ADDR, UEPC_ADDR}"
  shows "wp (default_set addr v) (\<lambda>_ s'. csr_step s s') (\<lambda>e s'. is_trap e \<and> s' = s) s"
proof (cases "register_mapping addr")
  case (Some p)
  then have "p \<notin> {P_mie, P_misa, P_mepc, P_sepc, P_uepc}"
    using assms register_mapping_special by blast
  with Some show ?thesis
    by (simp add: default_set_def wp_simps is_valid_csr32_addr_def default_write32_def csr_step_def
        assign_cell_inv)
qed (simp add: default_set_def wp_simps is_valid_csr32_addr_def)

lemma csr_inv_masked:
  assumes "csr_inv t"
  shows "m AND NOT MIE_MASK = 0 \<Longrightarrow> csr_inv (t\<lparr>csr_mie := masked m v (csr_mie t)\<rparr>)"
    and "csr_inv (t\<lparr>csr_mepc := masked (pc_alignment_mask t) v (csr_mepc t)\<rparr>)"
    and "csr_inv (t\<lparr>csr_sepc := masked (pc_alignment_mask t) v (csr_sepc t)\<rparr>)"
    and "csr_inv (t\<lparr>csr_uepc := masked (pc_alignment_mask t) v (csr_uepc t)\<rparr>)"
proof -
  show "csr_inv (t\<lparr>csr_mie := masked m v (csr_mie t)\<rparr>)" if "m AND NOT MIE_MASK = 0"
    using assms masked_subset [OF _ that, of "csr_mie t" v] by (simp add: csr_inv_def align_defs)
  show "csr_inv (t\<lparr>csr_mepc := masked (pc_alignment_mask t) v (csr_mepc t)\<rparr>)"
    using assms masked_aligned [of t "csr_mepc t" v] by (simp add: csr_inv_def align_defs)
  show "csr_inv (t\<lparr>csr_sepc := masked (pc_alignment_mask t) v (csr_sepc t)\<rparr>)"
    using assms masked_aligned [of t "csr_sepc t" v] by (simp add: csr_inv_def align_defs)
  show "csr_inv (t\<lparr>csr_uepc := masked (pc_alignment_mask t) v (csr_uepc t)\<rparr>)"
    using assms masked_aligned [of t "csr_uepc t" v] by (simp add: csr_inv_def align_defs)
qed

text \<open>Registers that the invariant does not mention.\<close>

lemma csr_inv_other [simp]:
  "csr_inv (t\<lparr>csr_mstatus := x\<rparr>) = csr_inv t" "csr_inv (t\<lparr>csr_satp := x\<rparr>) = csr_inv t"
  "csr_inv (t\<lparr>csr_mtvec := x\<rparr>) = csr_inv t" "csr_inv (t\<lparr>csr_stvec := x\<rparr>) = csr_inv t"
  "csr_inv (t\<lparr>csr_utvec := x\<rparr>) = csr_inv t" "csr_inv (t\<lparr>csr_mideleg := x\<rparr>) = csr_inv t"
  "csr_inv (t\<lparr>csr_medeleg := x\<rparr>) = csr_inv t" "csr_inv (t\<lparr>csr_sideleg := x\<rparr>) = csr_inv t"
  "csr_inv (t\<lparr>csr_sedeleg := x\<rparr>) = csr_inv t" "csr_inv (t\<lparr>csr_mcounteren := x\<rparr>) = csr_inv t"
  "csr_inv (t\<lparr>csr_scounteren := x\<rparr>) = csr_inv t" "csr_inv (t\<lparr>csr_mcountinhibit := x\<rparr>) = csr_inv t"
  "csr_inv (t\<lparr>csr_fcsr := x\<rparr>) = csr_inv t" "csr_inv (t\<lparr>csr_mcause := x\<rparr>) = csr_inv t"
  "csr_inv (t\<lparr>csr_scause := x\<rparr>) = csr_inv t" "csr_inv (t\<lparr>csr_ucause := x\<rparr>) = csr_inv t"
  "csr_inv (t\<lparr>csr_mtval := x\<rparr>) = csr_inv t" "csr_inv (t\<lparr>csr_stval := x\<rparr>) = csr_inv t"
  "csr_inv (t\<lparr>csr_utval := x\<rparr>) = csr_inv t" "csr_inv (t\<lparr>csr_time := y\<rparr>) = csr_inv t"
  "csr_inv (t\<lparr>csr_cycle := y\<rparr>) = csr_inv t" "csr_inv (t\<lparr>csr_instret := y\<rparr>) = csr_inv t"
  by (simp_all add: csr_inv_def align_defs)

lemma set_csr_wp:
  "wp (set_csr_value addr v) (\<lambda>_ s'. csr_step s s') (\<lambda>e s'. is_trap e \<and> s' = s) s"
proof (cases "addr = MISA_ADDR \<or> any_hpmcounter addr")
  case False
  show ?thesis unfolding set_csr_value_def if_not_P [OF False]
    by (rule wp_switch, unfold list.set insert_iff empty_iff prod.inject)
      (use False in \<open>auto simp: wp_simps satp_check_def csr_inv_masked intro!: csr_step_upd default_set_wp\<close>)
qed (simp add: set_csr_value_def wp_simps)

lemma is_invalid_csr_access_wp:
  "wp (is_invalid_csr_access a w) (\<lambda>_ s'. s' = s) (\<lambda>e s'. is_trap e \<and> s' = s) s"
  by (simp add: is_invalid_csr_access_def REQUIRE_ISA_def wp_simps)

text \<open>A read updates the shadow copies of the timers, and the interrupt lines through the timer device.\<close>

definition get_csr_frame :: "'p ISS \<Rightarrow> 'p ISS \<Rightarrow> bool" where
  "get_csr_frame s s' \<longleftrightarrow> (\<exists>x y m p. s' = s\<lparr>csrs := (csrs s)\<lparr>csr_time := x, csr_cycle := y, csr_mip := m\<rparr>, platform := p\<rparr>)"

lemma get_csr_frame_refl [simp]: "get_csr_frame s s"
  unfolding get_csr_frame_def
  by (rule exI [of _ "csr_time (csrs s)"], rule exI [of _ "csr_cycle (csrs s)"],
      rule exI [of _ "csr_mip (csrs s)"], rule exI [of _ "platform s"]) simp

lemma get_csr_frameD:
  assumes "get_csr_frame s s'"
  shows "regs s' = regs s" "pc s' = pc s" "last_pc s' = last_pc s" "tracer s' = tracer s"
    "instr s' = instr s" "op s' = op s" "prv s' = prv s" "coverage s' = coverage s"
    "lr_sc_counter s' = lr_sc_counter s" "csr_misa (csrs s') = csr_misa (csrs s)"
    "csr_inv (csrs s') = csr_inv (csrs s)"
  using assms by (auto simp: get_csr_frame_def)

lemma core_inv_get_csr:
  "core_inv plat \<sigma> s \<Longrightarrow> get_csr_frame s s' \<Longrightarrow> plat (platform s') \<Longrightarrow> core_inv plat \<sigma> s'"
  using get_csr_frameD [of s s'] aligned_cong [of "csrs s'" "csrs s" "last_pc s"]
  unfolding core_inv_def by simp

lemma default_get_wp: "wp (default_get addr) (\<lambda>_ s'. s' = s) (\<lambda>e s'. is_trap e \<and> s' = s) s"
  by (auto simp: default_get_def wp_simps is_valid_csr32_addr_def default_read32_def split: option.split)

lemma validate_counter_wp:
  "wp (validate_csr_counter_read_access_rights addr) (\<lambda>_ s'. s' = s) (\<lambda>e s'. is_trap e \<and> s' = s) s"
  by (simp add: validate_csr_counter_read_access_rights_def wp_simps Let_def)

text \<open>The assertions that can fail: the cycle counter wraps around, or \<open>mpp\<close> held the reserved privilege level 2.\<close>

definition step_error :: "error \<Rightarrow> bool" where
  "step_error e \<longleftrightarrow> (\<forall>m. e = AssertionFailed m \<longrightarrow>
     m = ''cycle_counter % cycle_time == SC_ZERO_TIME'' \<or> m = ''prv == UserMode'' \<or> m \<in> env_assertions)"

lemma step_error_env: "env_error e \<Longrightarrow> step_error e"
  by (simp add: env_error_def step_error_def)

lemma step_error_trap: "is_trap e \<Longrightarrow> step_error e"
  by (auto simp: step_error_def)

section \<open>Traps and interrupts\<close>

lemma bget_bit: "bget (n, Suc 0) x = 0 \<longleftrightarrow> x AND push_bit n 1 = 0"
proof -
  have "bget (n, Suc 0) x = 0 \<longleftrightarrow> \<not> bit x n"
    by (simp add: bget_def take_bit_Suc bit_iff_odd_drop_bit mod2_eq_if)
  then show ?thesis using and_exp_eq_0_iff_not_bit [of x n] by simp
qed

text \<open>A pending and enabled interrupt has a cause, so that \<open>prepare_interrupt\<close> never gives up.\<close>

lemma irq_cause_exists:
  assumes "x AND NOT MIE_MASK = 0" and "x \<noteq> 0"
  shows "irq_cause x \<noteq> None"
proof
  assume "irq_cause x = None"
  then have b: "x AND 0x800 = 0" "x AND 8 = 0" "x AND 0x80 = 0" "x AND 0x200 = 0" "x AND 2 = 0"
      "x AND 0x20 = 0" "x AND 0x100 = 0" "x AND 1 = 0" "x AND 0x10 = 0"
    by (simp_all add: irq_cause_def bget_bit split: if_splits)
  have "x AND MIE_MASK = (x AND 0x800) OR (x AND 8) OR (x AND 0x80) OR (x AND 0x200) OR (x AND 2) OR
      (x AND 0x20) OR (x AND 0x100) OR (x AND 1) OR (x AND 0x10)"
    by (simp add: bit.conj_disj_distrib [symmetric])
  then have "x AND MIE_MASK = 0" by (simp only: b) simp
  moreover have "x = (x AND MIE_MASK) OR (x AND NOT MIE_MASK)"
    by (rule bit_word_eqI) (auto simp: bit_simps)
  ultimately show False using assms by simp
qed

lemma trap_vector_aligned: "aligned t (trap_vector tvec cause)"
proof -
  have "(4 * x) AND 3 = 0" for x :: u32
  proof -
    have "4 * x = push_bit 2 x" by (simp add: push_bit_eq_mult)
    moreover have "push_bit 2 x AND mask 2 = 0" by (rule bit_word_eqI) (auto simp: bit_simps)
    ultimately show ?thesis by (simp add: mask_eq_exp_minus_1)
  qed
  moreover have "trap_vector tvec cause = 4 * (bget tvec_base tvec +
      (if bget cause_interrupt cause \<noteq> 0 \<and> bget tvec_mode tvec = 1 then bget exception_code cause else 0))"
    by (simp add: trap_vector_def get_base_address_def push_bit_eq_mult distrib_left)
  ultimately have 3: "trap_vector tvec cause AND 3 = 0" by metis
  moreover have "trap_vector tvec cause AND 1 = (trap_vector tvec cause AND 3) AND 1" by (simp add: and.assoc)
  ultimately show ?thesis by (simp add: aligned_def pc_alignment_mask_def)
qed

section \<open>Instructions\<close>

definition ok_post :: "('p \<Rightarrow> bool) \<Rightarrow> assignment \<Rightarrow> 'p ISS \<Rightarrow> bool" where
  "ok_post plat \<sigma> s \<longleftrightarrow> core_inv plat \<sigma> s \<and> aligned (csrs s) (pc s)"

definition err_post :: "('p \<Rightarrow> bool) \<Rightarrow> assignment \<Rightarrow> error \<Rightarrow> 'p ISS \<Rightarrow> bool" where
  "err_post plat \<sigma> e s \<longleftrightarrow> step_error e \<and> (is_trap e \<longrightarrow> core_inv plat \<sigma> s)"

lemma err_post_trap: "core_inv plat \<sigma> s \<Longrightarrow> is_trap e \<Longrightarrow> err_post plat \<sigma> e s"
  by (simp add: err_post_def step_error_trap)

lemma core_inv_pc: "core_inv plat \<sigma> (s\<lparr>pc := x\<rparr>) = core_inv plat \<sigma> s"
  by (simp add: core_inv_def)

lemma ok_post_frame: "ok_post plat \<sigma> s \<Longrightarrow> frame s s' \<Longrightarrow> plat (platform s') \<Longrightarrow> ok_post plat \<sigma> s'"
  unfolding ok_post_def using core_inv_frame frameD(2,9) by (metis aligned_mip)

lemma ok_post_csr: "ok_post plat \<sigma> s \<Longrightarrow> csr_step s s' \<Longrightarrow> ok_post plat \<sigma> s'"
  unfolding ok_post_def using core_inv_csr_step csr_stepD(2,11) aligned_cong by metis

lemma ok_post_get_csr: "ok_post plat \<sigma> s \<Longrightarrow> get_csr_frame s s' \<Longrightarrow> plat (platform s') \<Longrightarrow> ok_post plat \<sigma> s'"
  unfolding ok_post_def using core_inv_get_csr get_csr_frameD(2,10) aligned_cong by metis

lemma ok_post_write: "ok_post plat \<sigma> s \<Longrightarrow> cv_ok \<sigma> 32 v \<Longrightarrow> ok_post plat \<sigma> (s\<lparr>regs := (regs s)[i := v]\<rparr>)"
  by (simp add: ok_post_def core_inv_write)

lemma ok_post_regs_write:
  assumes "ok_post plat \<sigma> s" and "u \<le> 32" and "cv_ok \<sigma> u v" and "i \<le> 31"
  shows "wp (regs_write i v) (\<lambda>_. ok_post plat \<sigma>) (\<lambda>_ _. False) s"
  by (rule wp_mono [OF regs_write_wp [OF assms(2-4)]])
    (use assms(1) ok_post_write [OF assms(1)] in \<open>auto simp: ok_post_def core_inv_def\<close>)

lemma write_rd_wp:
  assumes "ok_post plat \<sigma> s" and "cv_ok \<sigma> u (f s)" and "u \<le> 32"
  shows "wp (write_rd f) (\<lambda>_. ok_post plat \<sigma>) (err_post plat \<sigma>) s"
  unfolding write_rd_def wp_simps
  by (rule wp_mono [OF ok_post_regs_write [OF assms(1,3,2) reg_index(4)]]) auto

lemma and_one_iff: "x AND 1 = 0 \<longleftrightarrow> even x" for x :: u32
  by (simp add: and_one_eq even_iff_mod_2_eq_zero)

lemma imm_even: "even (B_imm i)" "even (J_imm i)"
proof -
  have "\<not> bit (B_imm i) 0" "\<not> bit (J_imm i) 0"
    by (simp_all add: B_imm_def J_imm_def BIT_SINGLE_def BIT_RANGE_def bit_simps del: bit_0)
  then show "even (B_imm i)" "even (J_imm i)" by (simp_all add: bit_0)
qed

lemma aligned_iff: "aligned t x \<longleftrightarrow> x AND (if has_C_extension t then 1 else 3) = 0"
  by (simp add: aligned_def pc_alignment_mask_def)

lemma aligned_even: "aligned t x \<Longrightarrow> even x"
proof -
  have "x AND 1 = (x AND 3) AND 1" by (simp add: and.assoc)
  then show "aligned t x \<Longrightarrow> even x" by (auto simp: aligned_iff and_one_iff [symmetric] split: if_splits)
qed

lemma aligned_step:
  assumes "aligned t x"
  shows "aligned t (x + 4)" and "has_C_extension t \<Longrightarrow> aligned t (x + 2)"
proof -
  have 3: "y AND 3 = take_bit 2 y" for y :: u32 by (simp add: take_bit_eq_mask mask_eq_exp_minus_1)
  have "take_bit 2 (x + 4) = take_bit 2 x"
    by transfer (simp add: take_bit_eq_mod mod_mod_cancel)
  then show "aligned t (x + 4)" using assms by (simp add: aligned_iff 3 and_one_iff split: if_splits)
  show "has_C_extension t \<Longrightarrow> aligned t (x + 2)" using assms by (simp add: aligned_iff and_one_iff)
qed

lemma has_C_extension_misa: "has_C_extension t \<longleftrightarrow> csr_misa t AND misa_C \<noteq> 0"
  by (simp add: has_C_extension_def misa_extensions_def bget_def take_bit_eq_mask mask_eq_exp_minus_1 and.assoc)

lemma jump_wp:
  assumes "core_inv plat \<sigma> s" and "even (tgt s)"
  shows "wp (jump tgt) (\<lambda>_ s'. ok_post plat \<sigma> s' \<and> s' = s\<lparr>pc := tgt s\<rparr>) (err_post plat \<sigma>) s"
  using assms
  by (auto simp: jump_def trap_check_pc_alignment_def wp_simps ok_post_def core_inv_pc and_one_iff
      aligned_iff err_post_trap)

lemma switch_to_trap_handler_wp:
  assumes "ok_post plat \<sigma> s" and "m \<in> {MachineMode, SupervisorMode, UserMode}"
  shows "wp (switch_to_trap_handler m) (\<lambda>_. ok_post plat \<sigma>) (\<lambda>_ _. False) s"
proof -
  let ?s = "(release_lr_sc_reservation s)\<lparr>prv := m\<rparr>"
  have t: "csr_inv (csrs s)" "aligned (csrs s) (pc s)" using assms(1) by (simp_all add: ok_post_def core_inv_def)
  have "ok_post plat \<sigma> (?s\<lparr>csrs := t', pc := trap_vector v c\<rparr>)"
    if "csr_inv t'" "csr_misa t' = csr_misa (csrs s)" for t' v c
    using that assms(1) aligned_cong [OF that(2)] trap_vector_aligned
    by (simp add: ok_post_def core_inv_def release_lr_sc_reservation_def)
  note * = this
  have f: "csrs (release_lr_sc_reservation s) = csrs s" "pc (release_lr_sc_reservation s) = pc s"
    by (simp_all add: release_lr_sc_reservation_def)
  consider "m = MachineMode" | "m = SupervisorMode" | "m = UserMode" using assms(2) by auto
  then show ?thesis
  proof cases
    case 1
    have "csr_inv (put_mstatus mpp p (put_mstatus mie y (put_mstatus mpie x ((csrs s)\<lparr>csr_mepc := pc s\<rparr>))))" for p y x
      using t by (simp add: csr_inv_def align_defs put_mstatus_def)
    from * [OF this] 1 show ?thesis
      by (simp add: switch_to_trap_handler_def switch_def wp_simps Let_def f put_mstatus_def)
  next
    case 2
    have "csr_inv (put_mstatus spp p (put_mstatus sie y (put_mstatus spie x ((csrs s)\<lparr>csr_sepc := pc s\<rparr>))))" for p y x
      using t by (simp add: csr_inv_def align_defs put_mstatus_def)
    from * [OF this] 2 show ?thesis
      by (simp add: switch_to_trap_handler_def switch_def wp_simps Let_def f put_mstatus_def)
  next
    case 3
    have "csr_inv (put_mstatus uie y (put_mstatus upie x ((csrs s)\<lparr>csr_uepc := pc s\<rparr>)))" for y x
      using t by (simp add: csr_inv_def align_defs put_mstatus_def)
    from * [OF this] 3 show ?thesis
      by (simp add: switch_to_trap_handler_def switch_def wp_simps Let_def f put_mstatus_def)
  qed
qed

lemma prepare_trap_wp:
  assumes "core_inv plat \<sigma> s"
  shows "wp (prepare_trap r v)
    (\<lambda>m s'. m \<in> {MachineMode, SupervisorMode, UserMode} \<and> ok_post plat \<sigma> s')
    (\<lambda>e s'. step_error e \<and> \<not> is_trap e) s"
proof -
  have "ok_post plat \<sigma> (s\<lparr>pc := last_pc s, csrs := t\<rparr>)"
    if "csr_inv t" "csr_misa t = csr_misa (csrs s)" for t
    using assms that aligned_cong [OF that(2)] by (simp add: ok_post_def core_inv_def)
  moreover have "csr_inv (csrs s)" using assms by (simp add: core_inv_def)
  ultimately show ?thesis
    by (auto simp: prepare_trap_def lexical_cast32_def wp_simps upd_csrs_def Let_def step_error_def)
qed

lemma handle_trap_wp:
  assumes "core_inv plat \<sigma> s" and "is_trap e"
  shows "wp (handle_trap e) (\<lambda>_. ok_post plat \<sigma>) (\<lambda>e _. step_error e \<and> \<not> is_trap e) s"
proof -
  obtain r v where e: "e = SimulationTrap r v" using assms(2) by (cases e) auto
  show ?thesis unfolding e handle_trap_def error.case wp_bindM
    by (rule wp_mono [OF prepare_trap_wp [OF assms(1)]])
      (auto intro!: wp_mono [OF switch_to_trap_handler_wp])
qed

lemma take_interrupt_wp:
  assumes "ok_post plat \<sigma> s"
  shows "wp take_interrupt (\<lambda>_. ok_post plat \<sigma>) (\<lambda>_ _. False) s"
proof -
  let ?x = "compute_pending_interrupts s"
  have mie: "csr_mie (csrs s) AND NOT MIE_MASK = 0"
    using assms by (simp add: ok_post_def core_inv_def csr_inv_def)
  have "\<exists>y. pending ?x = csr_mie (csrs s) AND y"
    by (auto simp: compute_pending_interrupts_def Let_def and.assoc intro: exI [of _ 0])
  then obtain y where "pending ?x = csr_mie (csrs s) AND y" ..
  then have "pending ?x AND NOT MIE_MASK = (csr_mie (csrs s) AND NOT MIE_MASK) AND y"
    by (simp only: and.assoc and.commute and.left_commute)
  then have sub: "pending ?x AND NOT MIE_MASK = 0" by (simp only: mie) simp
  have tgt: "target_mode ?x = NoneMode \<or> target_mode ?x \<in> {MachineMode, SupervisorMode, UserMode} \<and> pending ?x \<noteq> 0"
    by (simp add: compute_pending_interrupts_def Let_def)
  show ?thesis
  proof (cases "target_mode ?x = NoneMode")
    case True
    then show ?thesis using assms by (simp add: take_interrupt_def wp_simps)
  next
    case False
    with tgt have x: "target_mode ?x \<in> {MachineMode, SupervisorMode, UserMode}" by blast
    obtain exc where exc: "irq_cause (pending ?x) = Some exc"
      using tgt False irq_cause_exists [OF sub] by blast
    have "wp (prepare_interrupt ?x) (\<lambda>_. ok_post plat \<sigma>) (\<lambda>_ _. False) s"
      using x assms unfolding prepare_interrupt_def wp_simps exc option.case
      by (auto simp: switch_def wp_simps intro!: ok_post_csr [OF assms] csr_step_upd)
    then show ?thesis using False unfolding take_interrupt_def wp_simps Let_def
      by simp (erule wp_mono, use switch_to_trap_handler_wp [OF _ x] in auto)
  qed
qed

context iss_environment
begin

lemma get_csr_wp:
  assumes "core_inv plat \<sigma> s"
  shows "wp (get_csr_value E addr) (\<lambda>_ s'. get_csr_frame s s' \<and> plat (platform s')) (\<lambda>e s'. step_error e \<and> s' = s) s"
proof -
  have p: "plat (platform s)" using assms by (simp add: core_inv_def)
  let ?Q = "\<lambda>_ s'. get_csr_frame s s' \<and> plat (platform s')" and ?X = "\<lambda>e s'. step_error e \<and> s' = s"
  have time: "wp (read_time E part) ?Q ?X s" for part
  proof -
    obtain mt r where r: "update_and_get_mtime E (platform s) = (mt, r)" by (rule prod.exhaust)
    from resume_frame [where s = s and r = r] obtain x where x: "resume r s = s\<lparr>csrs := (csrs s)\<lparr>csr_mip := x\<rparr>, platform := fst r\<rparr>"
      unfolding frame_iff by fastforce
    have "plat (fst r)" using mtime [OF p] r by simp
    moreover have "get_csr_frame s (upd_csrs (\<lambda>t. t\<lparr>csr_time := mt\<rparr>) (resume r s))"
      unfolding get_csr_frame_def x upd_csrs_def
      by (rule exI [of _ mt], rule exI [of _ "csr_cycle (csrs s)"], rule exI [of _ x], rule exI [of _ "fst r"]) simp
    ultimately show ?thesis using resume_frame(2) [where s = s and r = r]
      by (simp add: read_time_def wp_def r upd_csrs_def)
  qed
  have cycle: "wp (read_cycle part) ?Q ?X s" for part
  proof -
    have "get_csr_frame s (upd_csrs (\<lambda>t. t\<lparr>csr_cycle := n\<rparr>) s)" for n
      unfolding get_csr_frame_def upd_csrs_def
      by (rule exI [of _ "csr_time (csrs s)"], rule exI [of _ n], rule exI [of _ "csr_mip (csrs s)"],
          rule exI [of _ "platform s"]) simp
    then show ?thesis using p
      by (simp add: read_cycle_def compute_and_get_current_cycles_def wp_simps step_error_def upd_csrs_def)
  qed
  have dflt: "wp (default_get addr) ?Q ?X s"
    by (rule wp_mono [OF default_get_wp]) (use p step_error_trap in auto)
  have sw: "wp (switch addr cs (default_get addr)) ?Q ?X s"
    if "\<forall>(k, m) \<in> set cs. m \<in> {read_cycle lo32, read_cycle hi32, seqM satp_check (default_get addr)} \<union> range read_csr \<union> range ret" for cs
  proof (rule wp_switch [OF _ dflt])
    fix k m assume "(k, m) \<in> set cs"
    then show "wp m ?Q ?X s"
      using that cycle dflt p by (fastforce simp: wp_simps satp_check_def step_error_trap)
  qed
  have z: "wp (ret 0) ?Q ?X s" using p by (simp add: wp_simps)
  show ?thesis unfolding get_csr_value_def wp_seqM
    by (rule wp_mono [OF validate_counter_wp]; (hypsubst, intro wp_ifI time sw z)?)
      (use step_error_trap in auto)
qed

lemma branch_wp:
  assumes "ok_post plat \<sigma> s" and "\<And>a b. cv_ok \<sigma> 32 a \<Longrightarrow> cv_ok \<sigma> 32 b \<Longrightarrow> cv_ok \<sigma> 1 (f a b)"
  shows "wp (branch E f) (\<lambda>_. ok_post plat \<sigma>) (err_post plat \<sigma>) s"
proof -
  let ?res = "f (RS1 s) (RS2 s)"
  have c: "core_inv plat \<sigma> s" using assms(1) by (simp add: ok_post_def)
  have res: "cv_ok \<sigma> 1 ?res" using assms(2) reg_ok [OF c] by simp
  let ?cond = "cv_val ?res \<noteq> 0"
  have ev: "solver_eval (solver E) (getQuery (solver E) (tracer s) (concrete ?res)) = Inr ?cond"
    by (rule solver_eval_concrete [OF klee res])
  have track: "wp (seqM (track_and_trace_branch E ?cond ?res) (ret False)) (\<lambda>_. ok_post plat \<sigma>) (err_post plat \<sigma>) t"
    if t: "ok_post plat \<sigma> t" for t
  proof (cases "symbolic ?res")
    case (Some e)
    then have e: "bool_expr e" "eval \<sigma> e = cv_val ?res" using res by (simp_all add: cv_ok_def bool_expr_def)
    obtain t' where "trace_add (solver E) ?cond e (tracer t) = Some t'" "trace_ok \<sigma> t'"
      using trace_add_works [OF klee _ e(1)] t e(2) by (metis ok_post_def core_inv_def)
    then show ?thesis using t Some
      by (simp add: track_and_trace_branch_def wp_simps ok_post_def core_inv_def)
  qed (use t in \<open>simp add: track_and_trace_branch_def wp_simps\<close>)
  have "even (last_pc s + B_imm (instr s))"
    using c imm_even aligned_even by (auto simp: core_inv_def)
  then have "wp (jump (\<lambda>s. last_pc s + B_imm (instr s))) (\<lambda>_ s'. ok_post plat \<sigma> s') (err_post plat \<sigma>) s"
    by (intro wp_mono [OF jump_wp [OF c]]) auto
  then have "wp (whenM ?cond (jump (\<lambda>s. last_pc s + B_imm (instr s)))) (\<lambda>_ s'. ok_post plat \<sigma> s') (err_post plat \<sigma>) s"
    using assms(1) by (simp add: wp_simps)
  then have "wp (whenM ?cond (jump (\<lambda>s. last_pc s + B_imm (instr s))))
      (\<lambda>_. wp (seqM (track_and_trace_branch E ?cond ?res) (ret False)) (\<lambda>_. ok_post plat \<sigma>) (err_post plat \<sigma>))
      (err_post plat \<sigma>) s"
    by (rule wp_mono) (use track in auto)
  then show ?thesis by (simp add: branch_def iss_eval_def wp_bindM wp_gets wp_seqM ev wp_ret)
qed

lemma exec_load_wp:
  assumes "ok_post plat \<sigma> s" and "ld \<in> {load_word E, load_half E, load_byte E, load_uhalf E, load_ubyte E}"
  shows "wp (exec_load al ld) (\<lambda>_. ok_post plat \<sigma>) (err_post plat \<sigma>) s"
proof -
  let ?addr = "cv_add (RS1 s) (I_IMM s)"
  have c: "core_inv plat \<sigma> s" using assms(1) by (simp add: ok_post_def)
  have a: "cv_ok \<sigma> 32 ?addr" by (intro cv_arith_ok(1) reg_ok [OF c] imm_ok)
  have wr: "wp (bindM (gets RD) (\<lambda>d. seqM (regs_write d v)
      (if symbolic ?addr \<noteq> None
       then seqM (modify (\<lambda>s. s\<lparr>regs := (regs s)[unat d := cv_taint (regs s ! unat d)]\<rparr>)) (ret True)
       else ret False))) (\<lambda>_. ok_post plat \<sigma>) (err_post plat \<sigma>) t"
    if "cv_ok \<sigma> 32 v" "ok_post plat \<sigma> t" for v t
    unfolding wp_bindM wp_gets wp_seqM
  proof (rule wp_mono [OF ok_post_regs_write [OF that(2) _ that(1) reg_index(4)]])
    fix u t' assume t': "ok_post plat \<sigma> t'"
    have "cv_ok \<sigma> 32 (cv_taint (regs t' ! unat (RD t)))"
      using t' regs_ok_nth reg_index by (simp add: ok_post_def core_inv_def)
    from ok_post_write [OF t' this] t' show "wp (if symbolic ?addr \<noteq> None
       then seqM (modify (\<lambda>s. s\<lparr>regs := (regs s)[unat (RD t) := cv_taint (regs s ! unat (RD t))]\<rparr>)) (ret True)
       else ret False) (\<lambda>_. ok_post plat \<sigma>) (err_post plat \<sigma>) t'"
      by (simp add: wp_simps)
  qed simp_all
  have "wp (ld ?addr) (\<lambda>v t. cv_ok \<sigma> 32 v \<and> ok_post plat \<sigma> t) (err_post plat \<sigma>) s"
    by (rule wp_mono [OF load [OF c a assms(2)]])
      (use ok_post_frame [OF assms(1)] core_inv_frame [OF c] step_error_env in \<open>auto simp: err_post_def\<close>)
  then have "wp (ld ?addr) (\<lambda>v. wp (bindM (gets RD) (\<lambda>d. seqM (regs_write d v)
      (if symbolic ?addr \<noteq> None
       then seqM (modify (\<lambda>s. s\<lparr>regs := (regs s)[unat d := cv_taint (regs s ! unat d)]\<rparr>)) (ret True)
       else ret False))) (\<lambda>_. ok_post plat \<sigma>) (err_post plat \<sigma>)) (err_post plat \<sigma>) s"
    by (rule wp_mono) (use wr in auto)
  then show ?thesis
    unfolding exec_load_def wp_bindM wp_gets wp_seqM
    by (simp add: trap_check_addr_alignment_def wp_bindM wp_whenM raise_trap_wp getValue32_wp [OF a]
        err_post_trap [OF c] wp_gets wp_seqM)
qed

lemma exec_store_wp:
  assumes "ok_post plat \<sigma> s" and "st \<in> {store_word E, store_half E, store_byte E}"
  shows "wp (exec_store al st) (\<lambda>_. ok_post plat \<sigma>) (err_post plat \<sigma>) s"
proof -
  let ?addr = "cv_add (RS1 s) (S_IMM s)"
  have c: "core_inv plat \<sigma> s" using assms(1) by (simp add: ok_post_def)
  have a: "cv_ok \<sigma> 32 ?addr" by (intro cv_arith_ok(1) reg_ok [OF c] imm_ok)
  have "wp (st ?addr (RS2 s)) (\<lambda>_. ok_post plat \<sigma>) (err_post plat \<sigma>) s"
    by (rule wp_mono [OF store [OF c a reg_ok(2) [OF c] assms(2)]])
      (use ok_post_frame [OF assms(1)] core_inv_frame [OF c] step_error_env in \<open>auto simp: err_post_def\<close>)
  then show ?thesis
    by (simp add: exec_store_def wp_simps trap_check_addr_alignment_def getValue32_wp [OF a] err_post_trap [OF c])
qed

lemma exec_ecall_wp:
  assumes "ok_post plat \<sigma> s"
  shows "wp (exec_ecall E) (\<lambda>_. ok_post plat \<sigma>) (err_post plat \<sigma>) s"
proof -
  have c: "core_inv plat \<sigma> s" using assms(1) by (simp add: ok_post_def)
  then have a: "cv_ok \<sigma> 32 (reg a7 s)" by (simp add: core_inv_def reg_def regs_ok_nth)
  have sys: "wp m (\<lambda>_. ok_post plat \<sigma>) (err_post plat \<sigma>) s" if "execute_syscall E = Some m" for m
  proof (rule wp_mono [OF syscall [OF that c]])
    fix u s' assume "core_inv plat \<sigma> s' \<and> pc s' = pc s \<and> csr_misa (csrs s') = csr_misa (csrs s)"
    then show "ok_post plat \<sigma> s'"
      using assms aligned_cong [of "csrs s'" "csrs s" "pc s"] by (simp add: ok_post_def)
  qed (auto simp: err_post_def step_error_env)
  have trap: "wp (switch (prv s) [
      (MachineMode, raise_trap EXC_ECALL_M_MODE (ucast (last_pc s))),
      (SupervisorMode, raise_trap EXC_ECALL_S_MODE (ucast (last_pc s))),
      (UserMode, raise_trap EXC_ECALL_U_MODE (ucast (last_pc s)))]
      (throw (unknown_privilege_level (prv s)))) (\<lambda>_. ok_post plat \<sigma>) (err_post plat \<sigma>) s"
    by (rule wp_switch) (use c in \<open>auto simp: wp_simps err_post_trap err_post_def step_error_def unknown_privilege_level_def\<close>)
  show ?thesis
    by (cases "execute_syscall E")
      (use trap sys in \<open>auto simp: exec_ecall_def wp_withS wp_bindM wp_ret getValue32_wp [OF a]\<close>)
qed

lemma csr_access_wp:
  assumes "ok_post plat \<sigma> s" and "wp body (\<lambda>_. ok_post plat \<sigma>) (err_post plat \<sigma>) s"
  shows "wp (csr_access w body) (\<lambda>_. ok_post plat \<sigma>) (err_post plat \<sigma>) s"
proof -
  have c: "core_inv plat \<sigma> s" using assms(1) by (simp add: ok_post_def)
  show ?thesis unfolding csr_access_def wp_bindM wp_withS
    by (rule wp_mono [OF is_invalid_csr_access_wp]) (use assms(2) err_post_trap [OF c] in \<open>auto simp: wp_simps\<close>)
qed

lemma get_csr_ok_wp:
  assumes "ok_post plat \<sigma> s"
  shows "wp (get_csr_value E addr) (\<lambda>_. ok_post plat \<sigma>) (err_post plat \<sigma>) s"
proof -
  have c: "core_inv plat \<sigma> s" using assms(1) by (simp add: ok_post_def)
  show ?thesis by (rule wp_mono [OF get_csr_wp [OF c]])
      (use c ok_post_get_csr [OF assms] in \<open>auto simp: err_post_def\<close>)
qed

lemma set_csr_ok_wp:
  assumes "ok_post plat \<sigma> s"
  shows "wp (set_csr_value addr v) (\<lambda>_. ok_post plat \<sigma>) (err_post plat \<sigma>) s"
proof -
  have c: "core_inv plat \<sigma> s" using assms(1) by (simp add: ok_post_def)
  show ?thesis by (rule wp_mono [OF set_csr_wp]) (use ok_post_csr [OF assms] err_post_trap [OF c] in auto)
qed

lemma csr_write_rd_wp:
  assumes "ok_post plat \<sigma> s"
  shows "wp (csr_write_rd v) (\<lambda>_. ok_post plat \<sigma>) (err_post plat \<sigma>) s"
  using assms wp_mono [OF ok_post_regs_write [OF assms _ BVC32_ok reg_index(4)]]
  by (simp add: csr_write_rd_def wp_simps)

lemma operand_wp:
  assumes "ok_post plat \<sigma> s"
  shows "wp (getValue32 (RS1 s)) Q X t = Q (word_of_int (cv_val (RS1 s))) t"
proof -
  have c: "core_inv plat \<sigma> s" using assms(1) by (simp add: ok_post_def)
  show ?thesis by (rule getValue32_wp [OF reg_ok(1) [OF c]])
qed

text \<open>The value operand of a CSR instruction is a pure function of the state at its start.\<close>

lemma csr_swap_wp:
  assumes "ok_post plat \<sigma> s" and "\<And>Q X t. wp (opnd s) Q X t = Q v t"
  shows "wp (csr_swap E opnd) (\<lambda>_. ok_post plat \<sigma>) (err_post plat \<sigma>) s"
  unfolding csr_swap_def
proof (rule csr_access_wp [OF assms(1)])
  have set: "wp (bindM (opnd s) (set_csr_value a)) (\<lambda>_. ok_post plat \<sigma>) (err_post plat \<sigma>) t"
    if "ok_post plat \<sigma> t" for a t
    using set_csr_ok_wp [OF that] by (simp add: wp_bindM assms(2))
  have "wp (bindM (get_csr_value E a) csr_write_rd) (\<lambda>_. ok_post plat \<sigma>) (err_post plat \<sigma>) s" for a
    unfolding wp_bindM by (rule wp_mono [OF get_csr_ok_wp [OF assms(1)]]) (use csr_write_rd_wp in auto)
  then have "wp (whenM b (bindM (get_csr_value E a) csr_write_rd)) (\<lambda>_. ok_post plat \<sigma>) (err_post plat \<sigma>) s" for a b
    using assms(1) by (simp add: wp_whenM)
  then show "wp (withS (\<lambda>s. seqM (whenM (RD s \<noteq> zero) (bindM (get_csr_value E (csr (instr s))) csr_write_rd))
      (bindM (opnd s) (set_csr_value (csr (instr s)))))) (\<lambda>_. ok_post plat \<sigma>) (err_post plat \<sigma>) s"
    unfolding wp_withS wp_seqM by (rule wp_mono) (use set in auto)
qed

lemma csr_modify_wp:
  assumes "ok_post plat \<sigma> s" and "\<And>Q X t. wp (opnd s) Q X t = Q v t"
  shows "wp (csr_modify E w opnd f) (\<lambda>_. ok_post plat \<sigma>) (err_post plat \<sigma>) s"
  unfolding csr_modify_def
proof (rule csr_access_wp [OF assms(1)])
  have set: "wp (whenM w (bindM (opnd s) (\<lambda>x. set_csr_value a (f y x)))) (\<lambda>_. ok_post plat \<sigma>) (err_post plat \<sigma>) t"
    if "ok_post plat \<sigma> t" for a t y
    using set_csr_ok_wp [OF that] that by (simp add: wp_bindM wp_whenM assms(2))
  have "wp (seqM (csr_write_rd y) (whenM w (bindM (opnd s) (\<lambda>x. set_csr_value a (f y x)))))
      (\<lambda>_. ok_post plat \<sigma>) (err_post plat \<sigma>) t" if "ok_post plat \<sigma> t" for a t y
    unfolding wp_seqM by (rule wp_mono [OF csr_write_rd_wp [OF that]]) (use set in auto)
  then show "wp (withS (\<lambda>s. bindM (get_csr_value E (csr (instr s))) (\<lambda>csr_val.
      seqM (csr_write_rd csr_val) (whenM w (bindM (opnd s) (\<lambda>x. set_csr_value (csr (instr s)) (f csr_val x)))))))
      (\<lambda>_. ok_post plat \<sigma>) (err_post plat \<sigma>) s"
    unfolding wp_withS wp_bindM [of "get_csr_value E a" for a]
    by (intro wp_mono [OF get_csr_ok_wp [OF assms(1)]]) auto
qed

lemma exec_zicsr_wp:
  assumes "ok_post plat \<sigma> s"
  shows "wp (exec_zicsr E i) (\<lambda>_. ok_post plat \<sigma>) (err_post plat \<sigma>) s"
  by (cases i; simp only: exec_zicsr.simps wp_withS)
    (rule csr_swap_wp [OF assms] csr_modify_wp [OF assms], simp add: operand_wp [OF assms] wp_ret)+

lemma exec_wfi_wp:
  assumes "ok_post plat \<sigma> s"
  shows "wp (exec_wfi E) (\<lambda>_. ok_post plat \<sigma>) (err_post plat \<sigma>) s"
proof -
  let ?s = "release_lr_sc_reservation s"
  have o: "ok_post plat \<sigma> ?s"
    using assms by (simp add: ok_post_def core_inv_def release_lr_sc_reservation_def)
  then have c: "core_inv plat \<sigma> ?s" "plat (platform ?s)" by (simp_all add: ok_post_def core_inv_def)
  have "ok_post plat \<sigma> (resume r ?s)" if "wait_event E (platform ?s) = Some r" for r
    using ok_post_frame [OF o resume_frame(1)] resume_frame(2) kernel(3) [OF c(2) that] by metis
  with o c show ?thesis
    by (auto simp: exec_wfi_def wp_simps err_post_trap err_post_def step_error_def split: option.split)
qed

lemma mret_wp:
  assumes "ok_post plat \<sigma> s"
  shows "wp (return_from_trap_handler MachineMode) (\<lambda>_. ok_post plat \<sigma>) (err_post plat \<sigma>) s"
  using assms
  by (simp add: return_from_trap_handler_def wp_simps switch_def Let_def ok_post_def core_inv_def
      put_mstatus_def csr_inv_def align_defs)

lemma exec_rv32i_wp:
  assumes "ok_post plat \<sigma> s"
  shows "wp (exec_rv32i E i) (\<lambda>_. ok_post plat \<sigma>) (err_post plat \<sigma>) s"
proof -
  have c: "core_inv plat \<sigma> s" using assms(1) by (simp add: ok_post_def)
  note r = reg_ok [OF c] and w = write_rd_wp [OF assms] and sh = shamt_ok [OF reg_ok(2) [OF c]]
  note ok = cv_arith_ok cv_cmp_ok r sh imm_ok BVC32_ok
  have link: "wp (seqM (jump tgt) (write_rd (\<lambda>_. BVC32 x))) (\<lambda>_. ok_post plat \<sigma>) (err_post plat \<sigma>) s"
    if "even (tgt s)" for tgt x
    unfolding wp_seqM by (rule wp_mono [OF jump_wp [where tgt = tgt, OF c that]]) (use write_rd_wp [where u = 32 and f = "\<lambda>_. BVC32 x"] in auto)
  have e1: "even (last_pc s + J_imm (instr s))"
    using c imm_even aligned_even by (auto simp: core_inv_def)
  have e2: "even (x AND NOT 1)" for x :: u32
    by (simp add: even_and_iff)
  show ?thesis
    by (cases i; simp only: exec_rv32i.simps wp_bindM wp_gets wp_withS operand_wp [OF assms];
        (rule w [OF _ order_refl], fast intro: ok | rule w [where u = 1, OF _ one_le_numeral], fast intro: ok
        | rule exec_load_wp [OF assms], simp; fail | rule exec_store_wp [OF assms], simp; fail
        | rule branch_wp [OF assms], rule ok, assumption, assumption | rule link, rule e1 | rule link, rule e2
        | use assms exec_ecall_wp [OF assms] in \<open>auto simp: wp_simps ok_post_def core_inv_def elim: wp_mono\<close>))
qed

lemma exec_op_wp:
  assumes "core_inv plat \<sigma> s" and "aligned (csrs s) (pc s) \<or> m = UNDEF"
  shows "wp (exec_op E m) (\<lambda>_. ok_post plat \<sigma>) (err_post plat \<sigma>) s"
proof (cases "m = UNDEF")
  case True
  then show ?thesis using assms(1) by (simp add: exec_op_def wp_simps err_post_trap)
next
  case False
  then have o: "ok_post plat \<sigma> s" using assms by (simp add: ok_post_def)
  have u: "wp (throw unknown_opcode) (\<lambda>_. ok_post plat \<sigma>) (err_post plat \<sigma>) s"
    by (simp add: wp_simps unknown_opcode_def err_post_def step_error_def)
  show ?thesis
  proof (cases m)
    case (M_Priv i)
    then show ?thesis using o u exec_wfi_wp [OF o] mret_wp [OF o]
      by (cases i) (auto simp: exec_op_def wp_simps)
  qed (use False o u exec_rv32i_wp [OF o] exec_zicsr_wp [OF o] in \<open>simp_all add: exec_op_def wp_ret\<close>)
qed

lemma fetch_decode_wp:
  assumes "ok_post plat \<sigma> s"
  shows "wp (fetch_decode E) (\<lambda>_ s'. core_inv plat \<sigma> s' \<and> (aligned (csrs s') (pc s') \<or> op s' = UNDEF)) (err_post plat \<sigma>) s"
proof -
  have c: "core_inv plat \<sigma> s" using assms(1) by (simp add: ok_post_def)
  have up: "core_inv plat \<sigma> (t\<lparr>instr := i, op := m, pc := x\<rparr>) = core_inv plat \<sigma> t" 
    "core_inv plat \<sigma> (t\<lparr>instr := i\<rparr>) = core_inv plat \<sigma> t"
    "core_inv plat \<sigma> (t\<lparr>op := m\<rparr>) = core_inv plat \<sigma> t"
    "core_inv plat \<sigma> (t\<lparr>op := m, instr := i\<rparr>) = core_inv plat \<sigma> t" 
    "core_inv plat \<sigma> (t\<lparr>op := m, pc := x\<rparr>) = core_inv plat \<sigma> t" for t i m x
    by (simp_all add: core_inv_def)
  have dec: "wp (bindM (gets instr) (\<lambda>i.
       if is_compressed i then
         bindM (of_option (RuntimeError ''compressed instruction expected, but uncompressed found'')
                  (decode_and_expand_compressed i RV32)) (\<lambda>(i', m).
         seqM (modify (\<lambda>s. s\<lparr>instr := i', op := m, pc := pc s + 2\<rparr>))
           (whenM (m \<noteq> UNDEF) (REQUIRE_ISA misa_C)))
       else modify (\<lambda>s. s\<lparr>op := decode_normal RV32 i, pc := pc s + 4\<rparr>)))
      (\<lambda>_ s'. core_inv plat \<sigma> s' \<and> (aligned (csrs s') (pc s') \<or> op s' = UNDEF)) (err_post plat \<sigma>) t"
    if "ok_post plat \<sigma> t" for t
  proof -
    have t: "core_inv plat \<sigma> t" "aligned (csrs t) (pc t)" using that by (simp_all add: ok_post_def)
    show ?thesis
      using t aligned_step [OF t(2)]
      by (auto simp: wp_simps REQUIRE_ISA_def has_C_extension_misa up err_post_trap split: option.split)
        (auto simp: err_post_def step_error_def)
  qed
  have "wp (withS (\<lambda>s. load_instr E (pc s))) (\<lambda>_. ok_post plat \<sigma>) (\<lambda>e t. core_inv plat \<sigma> t \<and> env_error e) s"
    unfolding wp_withS by (rule wp_mono [OF fetch [OF c]]) (use ok_post_frame [OF assms] core_inv_frame [OF c] in auto)
  then have "wp (bindM (catchM (withS (\<lambda>s. load_instr E (pc s)))
      (\<lambda>e. if is_trap e then seqM (modify (\<lambda>s. s\<lparr>op := UNDEF, instr := 0\<rparr>)) (throw e) else throw e))
      (\<lambda>mem_word. modify (\<lambda>s. s\<lparr>instr := mem_word\<rparr>))) (\<lambda>_. ok_post plat \<sigma>) (err_post plat \<sigma>) s"
    unfolding wp_bindM wp_catchM
    by (rule wp_mono) (auto simp: wp_simps ok_post_def up err_post_def step_error_env)
  then show ?thesis unfolding fetch_decode_def wp_seqM by (rule wp_mono) (use dec in auto)
qed

lemma coverage_flags_wp:
  "wp coverage_flags (\<lambda>_ s'. s' = s) (\<lambda>e _. step_error e \<and> \<not> is_trap e) s"
  by (auto simp: coverage_flags_def coverage_operands_def wp_simps step_error_def split: Type.split)

lemma cover_source_errors: "wp (cover_source a t y i x) (\<lambda>_ _. True) (\<lambda>e _. e = OutOfRange) cov"
  by (auto simp: cover_source_def wp_simps Let_def split: option.split)

lemma exec_cover_wp:
  assumes "ok_post plat \<sigma> s"
  shows "wp (exec_cover E t y i) (\<lambda>_. ok_post plat \<sigma>) (\<lambda>e _. step_error e \<and> \<not> is_trap e) s"
proof (cases "coverage s")
  case None
  then show ?thesis by (simp add: exec_cover_def wp_def step_error_def)
next
  case (Some cov)
  have "wp (forM ss (cover_source a t y i)) (\<lambda>_ _. True) (\<lambda>e _. step_error e \<and> \<not> is_trap e) cov" for ss a
    by (rule wp_forM) (auto intro!: wp_mono [OF cover_source_errors] simp: step_error_def)
  then have "wp (cover (get_sources E) a t y i) (\<lambda>_ _. True) (\<lambda>e _. step_error e \<and> \<not> is_trap e) cov" for a
    using sources step_error_env by (auto simp: cover_def wp_simps split: sum.split)
  from this [of "ucast (last_pc s)"] show ?thesis
    using assms Some by (auto simp: exec_cover_def wp_def ok_post_def core_inv_def split: outcome.splits)
qed

lemma exec_step_wp:
  assumes "ok_post plat \<sigma> s"
  shows "wp (exec_step E) (\<lambda>_. ok_post plat \<sigma>) (err_post plat \<sigma>) s"
proof -
  have post: "wp (withS (\<lambda>s. exec_op E (op s))) (\<lambda>init. wp (exec_cover E t y init) (\<lambda>_. ok_post plat \<sigma>) (err_post plat \<sigma>))
      (err_post plat \<sigma>) u"
    if "core_inv plat \<sigma> u" "aligned (csrs u) (pc u) \<or> op u = UNDEF" for u t y
    unfolding wp_withS
    by (rule wp_mono [OF exec_op_wp [OF that]])
      (auto intro!: wp_mono [OF exec_cover_wp] simp: err_post_def)
  have "pc s AND NOT (pc_alignment_mask (csrs s)) = 0" using assms by (simp add: ok_post_def aligned_def)
  then show ?thesis
    unfolding exec_step_def wp_bindM wp_gets wp_seqM wp_assertM
    by simp (rule wp_mono [OF fetch_decode_wp [OF assms]], auto simp: err_post_def
        intro!: wp_mono [OF coverage_flags_wp] post simp: wp_bindM)
qed

lemma iss_inv_frame:
  assumes "iss_inv plat \<sigma> s" and "frame s s'" and "plat (platform s')"
  shows "iss_inv plat \<sigma> s'"
  using assms(1,3) frameD [OF assms(2)] unfolding iss_inv_def by (metis aligned_mip csr_inv_mip)

lemma iss_inv_modify:
  assumes "iss_inv plat \<sigma> (g s)" and "\<And>t. iss_inv plat \<sigma> t \<Longrightarrow> wp m (\<lambda>_. iss_inv plat \<sigma>) X t"
  shows "wp (seqM (modify g) m) (\<lambda>_. iss_inv plat \<sigma>) X s"
  using assms by (simp add: wp_simps)

lemma performance_wp:
  assumes "iss_inv plat \<sigma> s"
  shows "wp (performance_and_sync_update E m) (\<lambda>_. iss_inv plat \<sigma>) (\<lambda>_ _. False) s"
proof -
  let ?wp = "\<lambda>m. wp m (\<lambda>_. iss_inv plat \<sigma>) (\<lambda>_ _. False)"
  have upd: "iss_inv plat \<sigma> (t\<lparr>total_num_instr := n\<rparr>)" "iss_inv plat \<sigma> (t\<lparr>cycle_counter := n\<rparr>)"
    "iss_inv plat \<sigma> (upd_csrs (\<lambda>t. t\<lparr>csr_instret := csr_instret t + 1\<rparr>) t)"
    "iss_inv plat \<sigma> (t\<lparr>platform := qk_inc E n (platform t)\<rparr>)" "iss_inv plat \<sigma> (release_lr_sc_reservation t)"
    "lr_sc_counter t \<noteq> 0 \<Longrightarrow> iss_inv plat \<sigma> (t\<lparr>lr_sc_counter := lr_sc_counter t - 1\<rparr>)" "lr_sc_counter t \<ge> 0"
    if "iss_inv plat \<sigma> t" for t n
    using that kernel(1) by (simp_all add: iss_inv_def upd_csrs_def align_defs release_lr_sc_reservation_def)
  have sync: "iss_inv plat \<sigma> (resume (qk_sync E (platform t)) t)" if "iss_inv plat \<sigma> t" for t
    by (rule iss_inv_frame [OF that resume_frame(1)])
      (use that kernel(2) in \<open>simp add: resume_frame(2) iss_inv_def\<close>)
  have lr: "?wp (withS (\<lambda>s. whenM (lr_sc_counter s \<noteq> 0)
              (seqM (modify (\<lambda>s. s\<lparr>lr_sc_counter := lr_sc_counter s - 1\<rparr>))
                (withS (\<lambda>s. seqM (assertM (lr_sc_counter s \<ge> 0) ''lr_sc_counter >= 0'')
                  (whenM (lr_sc_counter s = 0) (modify release_lr_sc_reservation))))))) t"
    if "iss_inv plat \<sigma> t" for t
    using that upd(5) [OF upd(6) [OF that]] upd(6,7) [OF that]
    by (cases "lr_sc_counter t = 1") (simp_all add: wp_simps)
  show ?thesis unfolding performance_and_sync_update_def
    apply (rule iss_inv_modify, rule upd(1) [OF assms])
    apply (rule iss_inv_modify, simp add: upd)
    apply (subst wp_seqM, rule wp_mono [OF lr], assumption)
     apply (rule iss_inv_modify, simp add: upd)
     apply (rule iss_inv_modify, simp add: upd)
    by (simp_all add: wp_simps sync)
qed

lemma x0_wp:
  assumes "ok_post plat \<sigma> s"
  shows "wp (regs_write zero (BVC32 0)) (\<lambda>_. iss_inv plat \<sigma>) (\<lambda>_ _. False) s"
proof -
  have ok: "regs_ok \<sigma> (regs s)" using assms by (simp add: ok_post_def core_inv_def)
  show ?thesis
  proof (rule wp_mono [OF regs_write_wp [OF order_refl BVC32_ok _ ok]])
    fix u s' assume "\<exists>v'. cv_ok \<sigma> 32 v' \<and> cv_val v' = cv_val (BVC32 0) \<and> s' = s\<lparr>regs := (regs s)[unat zero := v']\<rparr>"
    then show "iss_inv plat \<sigma> s'"
      using assms ok by (auto simp: ok_post_def core_inv_def iss_inv_def regs_ok_update) (auto simp: regs_ok_def)
  qed simp_all
qed

lemma run_step_wp:
  assumes "iss_inv plat \<sigma> s"
  shows "wp (run_step E) (\<lambda>_. iss_inv plat \<sigma>) (\<lambda>e _. step_error e \<and> \<not> is_trap e) s"
proof -
  let ?X = "\<lambda>e (_ :: 'p ISS). step_error e \<and> \<not> is_trap e"
  have z: "cv_ok \<sigma> 32 (reg 0 s)" "word_of_int (cv_val (reg 0 s)) = (0 :: u32)"
    using assms regs_ok_nth [of \<sigma> "regs s" 0] by (simp_all add: iss_inv_def reg_def)
  have exit: "wp (seqM (modify (\<lambda>s. if shall_exit s then s\<lparr>status := Terminated\<rparr> else s))
      (withS (\<lambda>s. performance_and_sync_update E (op s)))) (\<lambda>_. iss_inv plat \<sigma>) ?X t" if "iss_inv plat \<sigma> t" for t
  proof -
    have "iss_inv plat \<sigma> (if shall_exit t then t\<lparr>status := Terminated\<rparr> else t)" (is "iss_inv _ _ ?t")
      using that by (simp add: iss_inv_def)
    then show ?thesis unfolding wp_seqM wp_modify wp_withS
      by (rule wp_mono [OF performance_wp]) simp_all
  qed
  have fin: "wp (seqM (regs_write zero (BVC32 0)) (seqM (modify (\<lambda>s. if shall_exit s then s\<lparr>status := Terminated\<rparr> else s))
      (withS (\<lambda>s. performance_and_sync_update E (op s))))) (\<lambda>_. iss_inv plat \<sigma>) ?X t" if "ok_post plat \<sigma> t" for t
    unfolding wp_seqM [of "regs_write zero (BVC32 0)"] by (rule wp_mono [OF x0_wp [OF that]]) (use exit in auto)
  have "ok_post plat \<sigma> (s\<lparr>last_pc := pc s\<rparr>)" using assms by (simp add: iss_inv_def ok_post_def core_inv_def)
  then have "wp (catchM (seqM (exec_step E) take_interrupt) handle_trap) (\<lambda>_. ok_post plat \<sigma>) ?X (s\<lparr>last_pc := pc s\<rparr>)"
    unfolding wp_catchM wp_seqM
  proof (rule wp_mono [OF exec_step_wp])
    fix e t assume e: "err_post plat \<sigma> e t"
    show "wp (handle_trap e) (\<lambda>_. ok_post plat \<sigma>) ?X t"
    proof (cases "is_trap e")
      case True
      then show ?thesis using e by (intro handle_trap_wp) (simp_all add: err_post_def)
    next
      case False
      then have "(handle_trap e :: ('p ISS, unit) M) = throw e" by (cases e) (simp_all add: handle_trap_def)
      then show ?thesis using e False by (simp add: wp_simps err_post_def)
    qed
  qed (auto intro!: wp_mono [OF take_interrupt_wp])
  then have "wp (catchM (seqM (exec_step E) take_interrupt) handle_trap)
      (\<lambda>_. wp (seqM (regs_write zero (BVC32 0)) (seqM (modify (\<lambda>s. if shall_exit s then s\<lparr>status := Terminated\<rparr> else s))
        (withS (\<lambda>s. performance_and_sync_update E (op s))))) (\<lambda>_. iss_inv plat \<sigma>) ?X) ?X (s\<lparr>last_pc := pc s\<rparr>)"
    by (rule wp_mono) (use fin in auto)
  moreover have "iss_inv plat \<sigma> (s\<lparr>status := HitBreakpoint\<rparr>)" using assms by (simp add: iss_inv_def)
  ultimately show ?thesis
    unfolding run_step_def
    by (simp add: wp_bindM wp_withS wp_seqM wp_modify wp_assertM regs_read_def wp_gets getValue32_wp [OF z(1)] z(2))
qed

lemma run_step_keeps:
  assumes "iss_inv plat \<sigma> s"
  shows "run_step E s = Ok u s' \<Longrightarrow> iss_inv plat \<sigma> s'"
    and "run_step E s = Throw e s' \<Longrightarrow> step_error e \<and> \<not> is_trap e"
  using wpD [OF run_step_wp [OF assms]] by auto

lemma run_keeps:
  assumes "run E s = Some r" and "iss_inv plat \<sigma> s"
  shows "case r of Ok _ s' \<Rightarrow> iss_inv plat \<sigma> s' \<and> status s' \<noteq> Runnable | Throw e _ \<Rightarrow> step_error e \<and> \<not> is_trap e"
proof -
  let ?P = "\<lambda>E' s r. E' = E \<longrightarrow> iss_inv plat \<sigma> s \<longrightarrow>
    (case r of Ok _ s' \<Rightarrow> iss_inv plat \<sigma> s' \<and> status s' \<noteq> Runnable | Throw e _ \<Rightarrow> step_error e \<and> \<not> is_trap e)"
  have "?P E s r"
  proof (rule run.raw_induct [where P = ?P, OF _ assms(1)])
    fix rec E' s r
    assume IH: "\<And>E' s r. rec E' s = Some r \<Longrightarrow> ?P E' s r"
      and body: "(case run_step E' s of Ok x s' \<Rightarrow> if status s' = Runnable then rec E' s'
        else Some (Ok () (resume (qk_sync E' (platform s')) s')) | Throw e s' \<Rightarrow> Some (Throw e s')) = Some r"
    show "?P E' s r"
    proof (intro impI)
      assume [simp]: "E' = E" and inv: "iss_inv plat \<sigma> s"
      show "case r of Ok _ s' \<Rightarrow> iss_inv plat \<sigma> s' \<and> status s' \<noteq> Runnable | Throw e _ \<Rightarrow> step_error e \<and> \<not> is_trap e"
      proof (cases "run_step E s")
        case (Ok x s')
        note i = run_step_keeps(1) [OF inv Ok]
        show ?thesis
        proof (cases "status s' = Runnable")
          case True
          with body Ok IH [of E s' r] i show ?thesis by simp
        next
          case False
          have "iss_inv plat \<sigma> (resume (qk_sync E (platform s')) s')"
            by (rule iss_inv_frame [OF i resume_frame(1)])
              (use i kernel(2) in \<open>simp add: resume_frame(2) iss_inv_def\<close>)
          moreover have "status (resume (qk_sync E (platform s')) s') = status s'"
            by (rule frameD(11) [OF resume_frame(1)])
          ultimately show ?thesis using body Ok False by auto
        qed
      next
        case (Throw e s')
        then have "r = Throw e s'" using body by simp
        then show ?thesis using run_step_keeps(2) [OF inv Throw] by simp
      qed
    qed
  qed
  with assms(2) show ?thesis by simp
qed

end

end
