(* ===== verification/RV_ISS_Props.thy ===== *)
theory RV_ISS_Props
  imports RV_ISS_Inv
begin

text \<open>
  What the core computes: the arithmetic and the branches against the word-level semantics of
  RV32I, traps and interrupts, the control and status registers.
\<close>

section \<open>Arithmetic\<close>

definition xreg :: "u32 \<Rightarrow> 'p ISS \<Rightarrow> u32" where
  "xreg i s = word_of_int (cv_val (reg i s))"

text \<open>The result of an arithmetic instruction on machine words, as the ISA manual defines it.\<close>

fun rv32i_alu :: "rv32i \<Rightarrow> u32 \<Rightarrow> u32 \<Rightarrow> u32 \<Rightarrow> u32 \<Rightarrow> u32 option" where
  "rv32i_alu LUI i p a b = Some (U_imm i)"
| "rv32i_alu AUIPC i p a b = Some (p + U_imm i)"
| "rv32i_alu ADDI i p a b = Some (a + I_imm i)"
| "rv32i_alu SLTI i p a b = Some (of_bool (a <s I_imm i))"
| "rv32i_alu SLTIU i p a b = Some (of_bool (a < I_imm i))"
| "rv32i_alu XORI i p a b = Some (a XOR I_imm i)"
| "rv32i_alu ORI i p a b = Some (a OR I_imm i)"
| "rv32i_alu ANDI i p a b = Some (a AND I_imm i)"
| "rv32i_alu SLLI i p a b = Some (push_bit (unat (shamt i)) a)"
| "rv32i_alu SRLI i p a b = Some (drop_bit (unat (shamt i)) a)"
| "rv32i_alu SRAI i p a b = Some (signed_drop_bit (unat (shamt i)) a)"
| "rv32i_alu ADD i p a b = Some (a + b)"
| "rv32i_alu SUB i p a b = Some (a - b)"
| "rv32i_alu SLL i p a b = Some (push_bit (unat (b AND 31)) a)"
| "rv32i_alu SLT i p a b = Some (of_bool (a <s b))"
| "rv32i_alu SLTU i p a b = Some (of_bool (a < b))"
| "rv32i_alu XOR_R i p a b = Some (a XOR b)"
| "rv32i_alu SRL i p a b = Some (drop_bit (unat (b AND 31)) a)"
| "rv32i_alu SRA i p a b = Some (signed_drop_bit (unat (b AND 31)) a)"
| "rv32i_alu OR_R i p a b = Some (a OR b)"
| "rv32i_alu AND_R i p a b = Some (a AND b)"
| "rv32i_alu _ i p a b = None"

text \<open>A concolic value stands for a word.\<close>

definition is_word :: "assignment \<Rightarrow> width \<Rightarrow> ConcolicValue \<Rightarrow> u32 \<Rightarrow> bool" where
  "is_word \<sigma> w v x \<longleftrightarrow> w \<le> 32 \<and> cv_ok \<sigma> w v \<and> cv_val v = uint x"

lemma is_word_reg: "regs_ok \<sigma> (regs s) \<Longrightarrow> unat i < 32 \<Longrightarrow> is_word \<sigma> 32 (reg i s) (xreg i s)"
  using cv_ok_val_fits(1) [OF regs_ok_nth, of \<sigma> "regs s" "unat i"] regs_ok_nth [of \<sigma> "regs s" "unat i"]
  by (simp add: is_word_def xreg_def reg_def fits_iff uint_word_of_int)

lemma uint_eq_take_bit: "uint (x :: u32) = take_bit 32 (uint x)"
  using uint_lt2p [of x] by (subst take_bit_int_eq_self) simp_all

lemma is_word_const: "is_word \<sigma> 32 (BVC32 x) x"
  by (simp add: is_word_def)

lemma is_word_imm: "is_word \<sigma> 32 (I_IMM s) (I_imm (instr s))" "is_word \<sigma> 32 (U_IMM s) (U_imm (instr s))"
  "is_word \<sigma> 32 (SHAMT s) (shamt (instr s))"
proof -
  have "take_bit 32 (sgn_of 32 (uint x)) = uint x" for x :: u32
    using uint_eq_take_bit [of x] by (simp add: sgn_of_def take_bit_signed_take_bit)
  then show "is_word \<sigma> 32 (I_IMM s) (I_imm (instr s))"
    using cv_sext_ok [OF BVC32_ok [of \<sigma> "I_imm (instr s)"], of 32] by (simp add: is_word_def I_IMM_def)
qed (simp_all add: is_word_def U_IMM_def SHAMT_def)

lemma sgn_of_uint: "sgn_of 32 (uint (x :: u32)) = sint x"
  by (simp add: sgn_of_def sint_uint)

lemma shift_words:
  fixes a b :: u32
  shows "ap_binop Shl 32 (uint a) (uint b) = uint (push_bit (unat b) a)"
    and "ap_binop LShr 32 (uint a) (uint b) = uint (drop_bit (unat b) a)"
    and "ap_binop AShr 32 (uint a) (uint b) = uint (signed_drop_bit (unat b) a)"
proof -
  let ?n = "nat (min 32 (uint b))"
  have n: "?n = min 32 (unat b)" using uint_nat [of b] by linarith
  show "ap_binop Shl 32 (uint a) (uint b) = uint (push_bit (unat b) a)"
    unfolding ap_binop.simps of_nat_numeral n
    by (rule bit_eqI) (auto simp: bit_simps min_def)
  show "ap_binop LShr 32 (uint a) (uint b) = uint (drop_bit (unat b) a)"
    unfolding ap_binop.simps of_nat_numeral n
    by (rule bit_eqI) (auto simp: bit_simps min_def dest: bit_imp_le_length)
  show "ap_binop AShr 32 (uint a) (uint b) = uint (signed_drop_bit (unat b) a)"
    unfolding ap_binop.simps of_nat_numeral n sgn_of_uint
      uint_sint [of "signed_drop_bit (unat b) a"] sint_signed_drop_bit_eq
    by (rule bit_eqI) (auto simp: bit_simps min_def)
qed

lemma is_word_ops:
  assumes "is_word \<sigma> 32 u a" and "is_word \<sigma> 32 v b"
  shows "is_word \<sigma> 32 (cv_add u v) (a + b)" "is_word \<sigma> 32 (cv_sub u v) (a - b)"
    "is_word \<sigma> 32 (cv_band u v) (a AND b)" "is_word \<sigma> 32 (cv_bor u v) (a OR b)" "is_word \<sigma> 32 (cv_bxor u v) (a XOR b)"
    "is_word \<sigma> 1 (cv_slt u v) (of_bool (a <s b))" "is_word \<sigma> 1 (cv_ult u v) (of_bool (a < b))"
proof -
  have ok: "cv_ok \<sigma> 32 u" "cv_ok \<sigma> 32 v" and val: "cv_val u = uint a" "cv_val v = uint b"
    using assms by (simp_all add: is_word_def)
  note op = cv_arith_ok [OF ok] cv_cmp_ok [OF ok] cv_ops_val [OF ok, unfolded val sgn_of_uint]
  show "is_word \<sigma> 32 (cv_add u v) (a + b)" "is_word \<sigma> 32 (cv_sub u v) (a - b)"
    by (simp_all add: is_word_def op uint_word_ariths take_bit_eq_mod)
  show "is_word \<sigma> 32 (cv_band u v) (a AND b)" "is_word \<sigma> 32 (cv_bor u v) (a OR b)" "is_word \<sigma> 32 (cv_bxor u v) (a XOR b)"
    by (simp_all add: is_word_def op unsigned_and_eq unsigned_or_eq unsigned_xor_eq)
  show "is_word \<sigma> 1 (cv_slt u v) (of_bool (a <s b))" "is_word \<sigma> 1 (cv_ult u v) (of_bool (a < b))"
    by (simp_all add: is_word_def op [simplified] word_sless_alt word_less_def)
qed

lemma is_word_shifts:
  assumes "is_word \<sigma> 32 u a" and "is_word \<sigma> 32 v b"
  shows "is_word \<sigma> 32 (cv_lshl u v) (push_bit (unat b) a)" "is_word \<sigma> 32 (cv_lshr u v) (drop_bit (unat b) a)"
    "is_word \<sigma> 32 (cv_ashr u v) (signed_drop_bit (unat b) a)"
  using assms cv_arith_ok [of \<sigma> 32 u v] cv_ops_val(6-8) [of \<sigma> 32 u v] shift_words [of a b]
  by (simp_all add: is_word_def)

lemma is_word_shamt:
  assumes "is_word \<sigma> 32 (reg r s) b"
  shows "is_word \<sigma> 32 (regs_shamt r s) (b AND 31)"
proof -
  have b: "b AND 31 = take_bit 5 b" by (simp add: take_bit_eq_mask mask_eq_exp_minus_1)
  have e: "cv_ok \<sigma> 5 (cv_extract (reg r s) 0 5)" "cv_val (cv_extract (reg r s) 0 5) = take_bit 5 (uint b)"
    using cv_extract_ok [of \<sigma> 32 "reg r s" 5 0] assms by (simp_all add: is_word_def)
  then show "is_word \<sigma> 32 (regs_shamt r s) (b AND 31)"
    using cv_zext_widen [OF e(1), of 32] b by (simp add: is_word_def regs_shamt_def unsigned_take_bit_eq)
qed

lemma write_rd_word:
  assumes "is_word \<sigma> w (f s) x" and "regs_ok \<sigma> (regs s)"
  shows "\<exists>v. write_rd f s = Ok False (s\<lparr>regs := (regs s)[unat (rd (instr s)) := v]\<rparr>) \<and> cv_ok \<sigma> 32 v \<and> cv_val v = uint x"
  using wp_total [OF regs_write_wp [of w \<sigma> "f s" "rd (instr s)", OF _ _ reg_index(4) assms(2)]] assms(1)
  by (auto simp: write_rd_def is_word_def)

text \<open>
  C4: every arithmetic instruction of RV32I writes to its destination a well-formed concolic value
  whose concrete part is the result of the instruction on 32-bit words; nothing else changes.
\<close>

theorem alu_refines_rv32i:
  assumes "regs_ok \<sigma> (regs s)"
    and "rv32i_alu m (instr s) (last_pc s) (xreg (rs1 (instr s)) s) (xreg (rs2 (instr s)) s) = Some x"
  shows "\<exists>v. exec_rv32i E m s = Ok False (s\<lparr>regs := (regs s)[unat (rd (instr s)) := v]\<rparr>) \<and>
    cv_ok \<sigma> 32 v \<and> cv_val v = uint x"
proof -
  note r = is_word_reg [OF assms(1) reg_index(2) [of "instr s"]] is_word_reg [OF assms(1) reg_index(3) [of "instr s"]]
  note sh = is_word_shifts [OF r(1) is_word_shamt [OF r(2)]] is_word_shifts [OF r(1) is_word_imm(3)]
  note ops = is_word_ops [OF r(1) r(2)] is_word_ops [OF r(1) is_word_imm(1)] is_word_imm(2)
    is_word_ops(1) [OF is_word_const [of _ "last_pc s"] is_word_imm(2)]
  show ?thesis using assms(2)
    by (cases m) (auto intro!: write_rd_word [OF _ assms(1)] intro: sh ops)
qed

text \<open>
  A core with the symbolic byte \<open>x\<close> in register 1 and the constant 5 in register 2, about to execute
  \<open>beq x1, x2, +8\<close>, in an environment without memory.
\<close>

definition example_env :: "unit ISS_env" where
  "example_env = \<lparr>
     solver = candidate_klee [], get_sources = \<lambda>_. Inr [],
     load_instr = \<lambda>a. raise_trap EXC_INSTR_ACCESS_FAULT (ucast a),
     load_word = \<lambda>_. raise_trap EXC_LOAD_ACCESS_FAULT 0, load_half = \<lambda>_. raise_trap EXC_LOAD_ACCESS_FAULT 0,
     load_byte = \<lambda>_. raise_trap EXC_LOAD_ACCESS_FAULT 0, load_uhalf = \<lambda>_. raise_trap EXC_LOAD_ACCESS_FAULT 0,
     load_ubyte = \<lambda>_. raise_trap EXC_LOAD_ACCESS_FAULT 0, store_word = \<lambda>_ _. raise_trap EXC_STORE_AMO_ACCESS_FAULT 0,
     store_half = \<lambda>_ _. raise_trap EXC_STORE_AMO_ACCESS_FAULT 0, store_byte = \<lambda>_ _. raise_trap EXC_STORE_AMO_ACCESS_FAULT 0,
     symbolic_store_data = \<lambda>_ _ _. raise_trap EXC_STORE_AMO_ACCESS_FAULT 0,
     update_and_get_mtime = \<lambda>p. (0, p, []), execute_syscall = None, qk_inc = \<lambda>_ p. p, need_sync = \<lambda>_. False,
     qk_sync = \<lambda>p. (p, []), wait_event = \<lambda>_. None, env_rand = \<lambda>p. (0, p)\<rparr>"

definition example_value :: ConcolicValue where
  "example_value = mkCV False (ConstantExpr (CE 32 5))
     (Some (ZExtExpr (ReadExpr (Array ''x'' 1) (ConstantExpr (CE 32 0))) 32))"

definition example_core :: "unit ISS" where
  "example_core = (newISS 0 False () newTrace \<lparr>next_run = Map.empty, last_run = Map.empty\<rparr>)
     \<lparr>regs := newRegFile[1 := example_value, 2 := BVC32 5], instr := 0x00208463\<rparr>"

abbreviation example_input :: assignment where
  "example_input \<equiv> \<lambda>_ _. 5"

lemma example_core_inv: "core_inv (\<lambda>_. True) example_input example_core"
proof -
  have v: "cv_ok example_input 32 example_value" by code_simp
  have "regs_ok example_input newRegFile" by (simp add: regs_ok_def newRegFile_def)
  then have "regs_ok example_input (regs example_core)"
    using v by (simp add: example_core_def regs_ok_update)
  moreover have "csr_inv (csrs example_core)" "aligned (csrs example_core) (last_pc example_core)" by code_simp+
  ultimately show ?thesis using newTrace_ok [of example_input]
    by (simp add: core_inv_def) (simp add: example_core_def newISS_def)
qed

theorem alu_refines_rv32i_witness:
  "\<exists>v. exec_rv32i example_env ADD example_core = Ok False (example_core\<lparr>regs := (regs example_core)[8 := v]\<rparr>) \<and>
    cv_ok example_input 32 v \<and> cv_val v = 10"
proof -
  have r: "regs_ok example_input (regs example_core)" using example_core_inv by (simp add: core_inv_def)
  have f: "unat (rd (instr example_core)) = 8" "xreg (rs1 (instr example_core)) example_core = 5"
    "xreg (rs2 (instr example_core)) example_core = 5" by code_simp+
  show ?thesis using alu_refines_rv32i [OF r, of ADD 10 example_env] f by simp
qed

section \<open>Branches\<close>

fun rv32i_branch :: "rv32i \<Rightarrow> u32 \<Rightarrow> u32 \<Rightarrow> bool option" where
  "rv32i_branch BEQ a b = Some (a = b)"
| "rv32i_branch BNE a b = Some (a \<noteq> b)"
| "rv32i_branch BLT a b = Some (a <s b)"
| "rv32i_branch BGE a b = Some (b \<le>s a)"
| "rv32i_branch BLTU a b = Some (a < b)"
| "rv32i_branch BGEU a b = Some (b \<le> a)"
| "rv32i_branch _ a b = None"

text \<open>The value a register would have if the symbolic variables had the values \<open>\<tau>\<close>.\<close>

definition reg_under :: "assignment \<Rightarrow> u32 \<Rightarrow> 'p ISS \<Rightarrow> u32" where
  "reg_under \<tau> i s = word_of_int (eval \<tau> (cv_value_or (reg i s)))"

lemma reg_under_val:
  assumes "regs_ok \<sigma> (regs s)" and "unat i < 32"
  shows "eval \<tau> (cv_value_or (reg i s)) = uint (reg_under \<tau> i s)" "reg_under \<sigma> i s = xreg i s"
proof -
  have ok: "cv_ok \<sigma> 32 (reg i s)" using regs_ok_nth [OF assms] by (simp add: reg_def)
  show "eval \<tau> (cv_value_or (reg i s)) = uint (reg_under \<tau> i s)"
    using wt_fits [OF cv_ok_value_or(1) [OF ok], of \<tau>] cv_ok_value_or(2) [OF ok]
    by (simp add: reg_under_def uint_word_of_int fits_iff)
  show "reg_under \<sigma> i s = xreg i s" by (simp add: reg_under_def xreg_def cv_ok_value_or(3) [OF ok])
qed

text \<open>The symbolic part of a comparison means the comparison under every assignment.\<close>

lemma compare_under:
  assumes "cv_ok \<sigma> w a" and "cv_ok \<sigma> w b" and "isCmpKind k"
  shows "eval \<tau> (cv_value_or (BINARY_OPERATOR (sb_bin k) a b)) =
    ap_binop k w (eval \<tau> (cv_value_or a)) (eval \<tau> (cv_value_or b))"
proof -
  have nd: "\<not> isDivKind k" using assms(3) by (cases k) simp_all
  have e: "eval \<tau> (sb_bin k l r) = ap_binop k w (eval \<tau> l) (eval \<tau> r)"
    if "wt l" "wt r" "getWidth l = w" "getWidth r = w" for l r
    using sb.Bin_impl [of k l r] that nd by (simp add: impl_def)
  show ?thesis
    using e [of "concrete a" "concrete b"] e [of "cv_value_or a" "cv_value_or b"] assms(1,2)
      cv_ok_value_or [OF assms(1)] cv_ok_value_or [OF assms(2)]
    by (cases "symbolic a"; cases "symbolic b")
      (auto simp: BINARY_OPERATOR_def Let_def cv_value_or_def cv_ok_def)
qed

fun branch_kind :: "rv32i \<Rightarrow> binkind option" where
  "branch_kind BEQ = Some Eq"
| "branch_kind BNE = Some Ne"
| "branch_kind BLT = Some Slt"
| "branch_kind BGE = Some Sge"
| "branch_kind BLTU = Some Ult"
| "branch_kind BGEU = Some Uge"
| "branch_kind _ = None"

lemma branch_kind:
  assumes "rv32i_branch m a b = Some t"
  shows "\<exists>k. branch_kind m = Some k \<and> isCmpKind k \<and> exec_rv32i E m = branch E (BINARY_OPERATOR (sb_bin k)) \<and>
    (\<forall>x y t. rv32i_branch m x y = Some t \<longleftrightarrow> t = (ap_binop k 32 (uint x) (uint y) \<noteq> 0))"
  using assms by (cases m) (auto simp: cv_op_defs sgn_of_uint word_sless_alt word_sle_eq word_less_def word_le_def word_uint_eq_iff)

lemma trap_check_pc:
  assumes "even (pc s)"
  shows "trap_check_pc_alignment s =
    (if aligned (csrs s) (pc s) then Ok () s else Throw (SimulationTrap EXC_INSTR_ADDR_MISALIGNED (ucast (pc s))) s)"
  using assms aligned_iff [of "csrs s" "pc s"]
  by (auto simp: trap_check_pc_alignment_def raise_trap_def monad_defs and_one_iff)

lemma jump_apply:
  assumes "even (f s)"
  shows "jump f s = (if aligned (csrs s) (f s) then Ok () (s\<lparr>pc := f s\<rparr>)
     else Throw (SimulationTrap EXC_INSTR_ADDR_MISALIGNED (ucast (f s))) (s\<lparr>pc := f s\<rparr>))"
  using trap_check_pc [of "s\<lparr>pc := f s\<rparr>"] assms by (simp add: jump_def)

text \<open>Recording the outcome of a comparison, symbolic or not.\<close>

lemma track_outcome:
  assumes "klee_ok (solver E)" and "trace_ok \<sigma> (tracer u)" and ok: "cv_ok \<sigma> 1 r"
    and tk: "taken = (cv_val r \<noteq> 0)"
  shows "\<exists>tr. track_and_trace_branch E taken r u = Ok () (u\<lparr>tracer := tr\<rparr>) \<and> trace_ok \<sigma> tr \<and>
    (\<forall>\<tau>. sat \<tau> (tr_cs tr) \<longleftrightarrow> sat \<tau> (tr_cs (tracer u)) \<and> (eval \<tau> (cv_value_or r) \<noteq> 0) = taken)"
proof (cases "symbolic r")
  case None
  then have "cv_value_or r = concrete r" by (simp add: cv_value_or_def)
  then have "(eval \<tau> (cv_value_or r) \<noteq> 0) = taken" for \<tau>
    using isConstant_eval [OF cv_ok_constant [OF ok]] tk by simp
  then show ?thesis using None assms(2)
    by (intro exI [of _ "tracer u"]) (simp add: track_and_trace_branch_def)
next
  case (Some e)
  then have e: "bool_expr e" "eval \<sigma> e = cv_val r" "cv_value_or r = e"
    using ok by (simp_all add: cv_ok_def bool_expr_def cv_value_or_def)
  obtain t' where "trace_add (solver E) taken e (tracer u) = Some t'" "trace_ok \<sigma> t'"
      "\<And>\<tau>. sat \<tau> (tr_cs t') \<longleftrightarrow> sat \<tau> (tr_cs (tracer u)) \<and> (eval \<tau> e \<noteq> 0) = taken"
    using trace_add_works [OF assms(1,2) e(1), of taken] tk e(2) by metis
  then show ?thesis using Some e(3) by (intro exI [of _ t']) (simp add: track_and_trace_branch_def of_option_def)
qed

text \<open>
  C5: a conditional branch jumps exactly when the comparison of its registers as 32-bit words says
  so, and traps with the target address when the target is misaligned.  Otherwise the branch is
  recorded: the new path condition holds for exactly those values of the symbolic variables that
  satisfied the old one and under which the instruction goes the same way.
\<close>

theorem branch_refines_rv32i:
  fixes s :: "'p ISS"
  assumes "klee_ok (solver E)" and "core_inv plat \<sigma> s"
    and taken: "rv32i_branch m (xreg (rs1 (instr s)) s) (xreg (rs2 (instr s)) s) = Some taken"
    and tgt: "target = last_pc s + B_imm (instr s)"
  shows "if taken \<and> \<not> aligned (csrs s) target
    then exec_rv32i E m s = Throw (SimulationTrap EXC_INSTR_ADDR_MISALIGNED (ucast target)) (s\<lparr>pc := target\<rparr>)
    else \<exists>tr. exec_rv32i E m s = Ok False (s\<lparr>pc := if taken then target else pc s, tracer := tr\<rparr>) \<and> trace_ok \<sigma> tr \<and>
      (\<forall>\<tau>. sat \<tau> (tr_cs tr) \<longleftrightarrow> sat \<tau> (tr_cs (tracer s)) \<and>
         rv32i_branch m (reg_under \<tau> (rs1 (instr s)) s) (reg_under \<tau> (rs2 (instr s)) s) = Some taken)"
proof -
  let ?a = "RS1 s" and ?b = "RS2 s"
  have regs: "regs_ok \<sigma> (regs s)" and tr: "trace_ok \<sigma> (tracer s)" using assms(2) by (simp_all add: core_inv_def)
  note ab = reg_ok [OF assms(2), of "instr s"]
  obtain k where k: "isCmpKind k" "exec_rv32i E m = branch E (BINARY_OPERATOR (sb_bin k))"
    "\<And>x y t. rv32i_branch m x y = Some t \<longleftrightarrow> t = (ap_binop k 32 (uint x) (uint y) \<noteq> 0)"
    using branch_kind [OF taken, of E] by blast
  let ?r = "BINARY_OPERATOR (sb_bin k) ?a ?b"
  have ok: "cv_ok \<sigma> 1 ?r"
    using cv_bin_ok(1) [OF ab, of k] k(1) by (cases k) simp_all
  have under: "eval \<tau> (cv_value_or ?r) \<noteq> 0 \<longleftrightarrow>
      rv32i_branch m (reg_under \<tau> (rs1 (instr s)) s) (reg_under \<tau> (rs2 (instr s)) s) = Some True" for \<tau>
    using compare_under [OF ab k(1), of \<tau>] reg_under_val(1) [OF regs reg_index(2), of \<tau>]
      reg_under_val(1) [OF regs reg_index(3), of \<tau>] k(3) by simp
  have tk: "taken = (cv_val ?r \<noteq> 0)"
    using under [of \<sigma>] taken k(3) reg_under_val(2) [OF regs reg_index(2)] reg_under_val(2) [OF regs reg_index(3)]
      cv_ok_value_or(3) [OF ok] by simp
  have ev: "iss_eval E ?r s = Ok taken s"
    using solver_eval_concrete [OF assms(1) ok] tk by (simp add: iss_eval_def monad_defs)
  have "even target" using assms(2) imm_even aligned_even tgt by (auto simp: core_inv_def)
  then have jmp: "jump (\<lambda>s. last_pc s + B_imm (instr s)) s =
    (if aligned (csrs s) target then Ok () (s\<lparr>pc := target\<rparr>)
     else Throw (SimulationTrap EXC_INSTR_ADDR_MISALIGNED (ucast target)) (s\<lparr>pc := target\<rparr>))"
    using jump_apply [of "\<lambda>s. last_pc s + B_imm (instr s)" s] tgt by simp
  have same: "(eval \<tau> (cv_value_or ?r) \<noteq> 0) = taken \<longleftrightarrow>
      rv32i_branch m (reg_under \<tau> (rs1 (instr s)) s) (reg_under \<tau> (rs2 (instr s)) s) = Some taken" for \<tau>
    using under [of \<tau>] k(3) by auto
  note track = track_outcome [OF assms(1) _ ok tk, unfolded same]
  show ?thesis
  proof (cases "taken \<and> \<not> aligned (csrs s) target")
    case True
    then show ?thesis using ev jmp by (simp add: k(2) branch_def)
  next
    case False
    define u where "u = s\<lparr>pc := if taken then target else pc s\<rparr>"
    have "whenM taken (jump (\<lambda>s. last_pc s + B_imm (instr s))) s = Ok () u"
      using False jmp by (auto simp: u_def)
    moreover have u: "tracer u = tracer s" by (simp add: u_def)
    obtain tr' where "track_and_trace_branch E taken ?r u = Ok () (u\<lparr>tracer := tr'\<rparr>)" and t': "trace_ok \<sigma> tr'"
      "\<forall>\<tau>. sat \<tau> (tr_cs tr') \<longleftrightarrow> sat \<tau> (tr_cs (tracer s)) \<and>
         rv32i_branch m (reg_under \<tau> (rs1 (instr s)) s) (reg_under \<tau> (rs2 (instr s)) s) = Some taken"
      using track [of u] tr unfolding u by blast
    ultimately have "exec_rv32i E m s = Ok False (u\<lparr>tracer := tr'\<rparr>)" using ev by (simp add: k(2) branch_def)
    then show ?thesis using t' unfolding if_not_P [OF False] u_def by auto
  qed
qed

theorem branch_refines_rv32i_witness:
  "\<exists>tr. exec_rv32i example_env BEQ example_core = Ok False (example_core\<lparr>pc := 8, tracer := tr\<rparr>) \<and>
    sat (\<lambda>_ _. 5) (tr_cs tr) \<and> \<not> sat (\<lambda>_ _. 6) (tr_cs tr)"
proof -
  let ?i = "instr example_core"
  have f: "xreg (rs1 ?i) example_core = 5" "xreg (rs2 ?i) example_core = 5" "last_pc example_core + B_imm ?i = 8"
    "reg_under (\<lambda>_ _. 5) (rs1 ?i) example_core = 5" "reg_under (\<lambda>_ _. 5) (rs2 ?i) example_core = 5"
    "reg_under (\<lambda>_ _. 6) (rs1 ?i) example_core = 6" "reg_under (\<lambda>_ _. 6) (rs2 ?i) example_core = 5"
    by code_simp+
  have a: "aligned (csrs example_core) 8" "sat (\<lambda>_ _. 5) (tr_cs (tracer example_core))" by code_simp+
  have k: "klee_ok (solver example_env)" by (simp add: example_env_def candidate_klee_ok)
  have "\<exists>tr. exec_rv32i example_env BEQ example_core = Ok False (example_core\<lparr>pc := 8, tracer := tr\<rparr>) \<and>
      trace_ok example_input tr \<and> (\<forall>\<tau>. sat \<tau> (tr_cs tr) \<longleftrightarrow> sat \<tau> (tr_cs (tracer example_core)) \<and>
         rv32i_branch BEQ (reg_under \<tau> (rs1 ?i) example_core) (reg_under \<tau> (rs2 ?i) example_core) = Some True)"
    using branch_refines_rv32i [OF k example_core_inv, of BEQ True 8] f(1,2,3) a(1) by simp
  then show ?thesis using f(4-7) a(2) by auto
qed

end
