(* ===== verification/RV_Traps.thy ===== *)
theory RV_Traps
  imports RV_ISS_Props
begin

text \<open>
  Traps, interrupts and the return from their handlers, against the rules of the privileged
  architecture: the mode that handles a trap, what the handler finds in its registers, which of
  the pending interrupts is taken, and that \<open>MRET\<close> continues the interrupted program.
\<close>

section \<open>The registers of a mode\<close>

definition valid_mode :: "PrivilegeLevel \<Rightarrow> bool" where
  "valid_mode m \<longleftrightarrow> m \<in> {MachineMode, SupervisorMode, UserMode}"

definition of_mode :: "PrivilegeLevel \<Rightarrow> 'a \<Rightarrow> 'a \<Rightarrow> 'a \<Rightarrow> 'a" where
  "of_mode m u v w = (if m = MachineMode then w else if m = SupervisorMode then v else u)"

definition xepc :: "PrivilegeLevel \<Rightarrow> csr_table \<Rightarrow> u32" where
  "xepc m t = of_mode m (csr_uepc t) (csr_sepc t) (csr_mepc t)"

definition xcause :: "PrivilegeLevel \<Rightarrow> csr_table \<Rightarrow> u32" where
  "xcause m t = of_mode m (csr_ucause t) (csr_scause t) (csr_mcause t)"

definition xtval :: "PrivilegeLevel \<Rightarrow> csr_table \<Rightarrow> u32" where
  "xtval m t = of_mode m (csr_utval t) (csr_stval t) (csr_mtval t)"

definition xtvec :: "PrivilegeLevel \<Rightarrow> csr_table \<Rightarrow> u32" where
  "xtvec m t = of_mode m (csr_utvec t) (csr_stvec t) (csr_mtvec t)"

definition xie :: "PrivilegeLevel \<Rightarrow> csr_table \<Rightarrow> bool" where
  "xie m t \<longleftrightarrow> get_mstatus (of_mode m uie sie mie) t \<noteq> 0"

definition xpie :: "PrivilegeLevel \<Rightarrow> csr_table \<Rightarrow> bool" where
  "xpie m t \<longleftrightarrow> get_mstatus (of_mode m upie spie mpie) t \<noteq> 0"

definition xpp :: "PrivilegeLevel \<Rightarrow> csr_table \<Rightarrow> PrivilegeLevel" where
  "xpp m t = of_mode m UserMode (get_mstatus spp t) (get_mstatus mpp t)"

lemmas mode_defs = valid_mode_def of_mode_def xepc_def xcause_def xtval_def xtvec_def xie_def xpie_def xpp_def

lemma get_put_mstatus [simp]:
  "fst f + snd f \<le> 32 \<Longrightarrow> get_mstatus f (put_mstatus f v t) = take_bit (snd f) v"
  "fst f + snd f \<le> fst g \<or> fst g + snd g \<le> fst f \<Longrightarrow> get_mstatus f (put_mstatus g v t) = get_mstatus f t"
  "get_mstatus f (t\<lparr>csr_mepc := x\<rparr>) = get_mstatus f t" "get_mstatus f (t\<lparr>csr_sepc := x\<rparr>) = get_mstatus f t"
  "get_mstatus f (t\<lparr>csr_uepc := x\<rparr>) = get_mstatus f t"
  by (auto simp: get_mstatus_def put_mstatus_def)

lemma put_mstatus_frame [simp]:
  "csr_mepc (put_mstatus f v t) = csr_mepc t" "csr_sepc (put_mstatus f v t) = csr_sepc t"
  "csr_uepc (put_mstatus f v t) = csr_uepc t" "csr_mcause (put_mstatus f v t) = csr_mcause t"
  "csr_scause (put_mstatus f v t) = csr_scause t" "csr_ucause (put_mstatus f v t) = csr_ucause t"
  "csr_mtval (put_mstatus f v t) = csr_mtval t" "csr_stval (put_mstatus f v t) = csr_stval t"
  "csr_utval (put_mstatus f v t) = csr_utval t" "csr_mtvec (put_mstatus f v t) = csr_mtvec t"
  "csr_stvec (put_mstatus f v t) = csr_stvec t" "csr_utvec (put_mstatus f v t) = csr_utvec t"
  by (simp_all add: put_mstatus_def)

lemma get_mstatus_mod [simp]: "get_mstatus (n, Suc 0) t mod 2 = get_mstatus (n, Suc 0) t"
  using take_bit_take_bit [of "Suc 0" "Suc 0" "drop_bit n (csr_mstatus t)"]
  by (simp add: get_mstatus_def bget_def del: take_bit_take_bit)

text \<open>Entering a handler: the return address, the interrupt stack, the mode and the vector.\<close>

definition handler_csrs :: "PrivilegeLevel \<Rightarrow> PrivilegeLevel \<Rightarrow> u32 \<Rightarrow> csr_table \<Rightarrow> csr_table" where
  "handler_csrs m pp epc t =
     (if m = MachineMode then put_mstatus mpp pp (put_mstatus mie 0 (put_mstatus mpie (get_mstatus mie t) (t\<lparr>csr_mepc := epc\<rparr>)))
      else if m = SupervisorMode then
        put_mstatus spp pp (put_mstatus sie 0 (put_mstatus spie (get_mstatus sie t) (t\<lparr>csr_sepc := epc\<rparr>)))
      else put_mstatus uie 0 (put_mstatus upie (get_mstatus uie t) (t\<lparr>csr_uepc := epc\<rparr>)))"

lemma enter_handler:
  assumes "valid_mode m"
  shows "switch_to_trap_handler m s =
      Ok () (s\<lparr>lr_sc_counter := 0, prv := m, csrs := handler_csrs m (prv s) (pc s) (csrs s),
        pc := trap_vector (xtvec m (csrs s)) (xcause m (csrs s))\<rparr>)"
  using assms by (auto simp: switch_to_trap_handler_def switch_def release_lr_sc_reservation_def Let_def mode_defs
      handler_csrs_def)

lemma handler_csrs:
  assumes "valid_mode m" and "valid_mode pp" and "pp \<le> m"
  shows "xepc m (handler_csrs m pp epc t) = epc" "\<not> xie m (handler_csrs m pp epc t)"
    "xpie m (handler_csrs m pp epc t) = xie m t" "xpp m (handler_csrs m pp epc t) = pp"
    "xcause m (handler_csrs m pp epc t) = xcause m t" "xtval m (handler_csrs m pp epc t) = xtval m t"
proof -
  have p: "pp = 3 \<or> pp = 1 \<or> pp = 0" using assms(2) by (simp add: valid_mode_def)
  consider "m = MachineMode" | "m = SupervisorMode" | "m = UserMode" using assms(1) by (auto simp: valid_mode_def)
  then have "xepc m (handler_csrs m pp epc t) = epc \<and> \<not> xie m (handler_csrs m pp epc t) \<and>
    xpie m (handler_csrs m pp epc t) = xie m t \<and> xpp m (handler_csrs m pp epc t) = pp \<and>
    xcause m (handler_csrs m pp epc t) = xcause m t \<and> xtval m (handler_csrs m pp epc t) = xtval m t"
    by cases (use p assms(3) in \<open>auto simp: mode_defs handler_csrs_def word_le_nat_alt\<close>)
  then show "xepc m (handler_csrs m pp epc t) = epc" "\<not> xie m (handler_csrs m pp epc t)"
    "xpie m (handler_csrs m pp epc t) = xie m t" "xpp m (handler_csrs m pp epc t) = pp"
    "xcause m (handler_csrs m pp epc t) = xcause m t" "xtval m (handler_csrs m pp epc t) = xtval m t"
    by simp_all
qed

section \<open>Traps\<close>

text \<open>The mode that handles an exception, by the delegation registers.\<close>

definition delegated :: "u32 \<Rightarrow> 'p ISS \<Rightarrow> PrivilegeLevel" where
  "delegated r s =
     (if prv s = MachineMode \<or> \<not> bit (csr_medeleg (csrs s)) (unat r) then MachineMode
      else if prv s = SupervisorMode \<or> \<not> bit (csr_sedeleg (csrs s)) (unat r) then SupervisorMode
      else UserMode)"

lemma exp_and_iff: "2 ^ n AND x = 0 \<longleftrightarrow> \<not> bit x n" for x :: u32
  using and_exp_eq_0_iff_not_bit [of x n] by (simp add: and.commute)

lemma put_cause [simp]:
  "code < 2 ^ 31 \<Longrightarrow> bget exception_code (put_cause irq code r) = code"
  "bget (31, Suc 0) (put_cause irq code r) = take_bit 1 irq"
proof -
  show "bget (31, Suc 0) (put_cause irq code r) = take_bit 1 irq" by (simp add: put_cause_def)
  assume "code < 2 ^ 31"
  then have "take_bit 31 code = code" by (simp add: take_bit_eq_mod mod_word_less)
  then show "bget exception_code (put_cause irq code r) = code" by (simp add: put_cause_def)
qed

lemma prepare_trap_apply:
  assumes "valid_mode (prv s)" and "v < 2 ^ 32" and "d = delegated r s"
  shows "\<exists>t. prepare_trap r v s = Ok d (s\<lparr>pc := last_pc s, csrs := t\<rparr>) \<and>
    xcause d t = put_cause 0 r (xcause d (csrs s)) \<and> xtval d t = ucast v \<and> csr_mstatus t = csr_mstatus (csrs s) \<and>
    xtvec d t = xtvec d (csrs s)"
proof -
  have "prv s = MachineMode \<or> prv s = SupervisorMode \<or> prv s = UserMode" using assms(1) by (auto simp: valid_mode_def)
  then show ?thesis using assms(2,3)
    by (elim disjE; auto simp: prepare_trap_def delegated_def exp_and_iff lexical_cast32_def upd_csrs_def mode_defs Let_def)
qed


text \<open>
  C9: an exception is handled in the mode the delegation registers name, which is never less
  privileged than the mode that raised it.  The handler starts at the base of its vector with its
  interrupts disabled and finds the address of the faulting instruction, the cause, the trap
  value and the mode and interrupt enable to return to.
\<close>

theorem trap_entry:
  assumes "valid_mode (prv s)" and "r < 2 ^ 31" and "v < 2 ^ 32" and "d = delegated r s"
  shows "\<exists>s'. handle_trap (SimulationTrap r v) s = Ok () s' \<and> prv s' = d \<and> prv s \<le> d \<and>
    pc s' = get_base_address (xtvec d (csrs s)) \<and> xepc d (csrs s') = last_pc s \<and>
    bget cause_interrupt (xcause d (csrs s')) = 0 \<and> bget exception_code (xcause d (csrs s')) = r \<and>
    xtval d (csrs s') = ucast v \<and> \<not> xie d (csrs s') \<and> xpie d (csrs s') = xie d (csrs s) \<and>
    xpp d (csrs s') = prv s \<and> regs s' = regs s"
proof -
  obtain t where t: "prepare_trap r v s = Ok d (s\<lparr>pc := last_pc s, csrs := t\<rparr>)"
    "xcause d t = put_cause 0 r (xcause d (csrs s))" "xtval d t = ucast v" "csr_mstatus t = csr_mstatus (csrs s)"
    "xtvec d t = xtvec d (csrs s)"
    using prepare_trap_apply [OF assms(1,3,4)] by blast
  have d: "valid_mode d" "prv s \<le> d"
    using assms(1,4) by (auto simp: delegated_def valid_mode_def word_le_nat_alt)
  have "xie d t = xie d (csrs s)" using t(4) by (simp add: xie_def get_mstatus_def)
  then show ?thesis
    using t d assms(2) handler_csrs [OF d(1) assms(1) d(2), of "last_pc s" t]
    by (simp add: handle_trap_def enter_handler trap_vector_def)
qed

theorem trap_entry_witness:
  "\<exists>s'. handle_trap (SimulationTrap EXC_ILLEGAL_INSTR 0x1234)
      (example_core\<lparr>prv := UserMode, last_pc := 0x100, csrs := (csrs example_core)\<lparr>csr_medeleg := 4, csr_stvec := 0x80\<rparr>\<rparr>) =
    Ok () s' \<and> prv s' = SupervisorMode \<and> pc s' = 0x80 \<and> csr_sepc (csrs s') = 0x100 \<and> csr_stval (csrs s') = 0x1234"
proof -
  let ?s = "example_core\<lparr>prv := UserMode, last_pc := 0x100, csrs := (csrs example_core)\<lparr>csr_medeleg := 4, csr_stvec := 0x80\<rparr>\<rparr>"
  have d: "SupervisorMode = delegated EXC_ILLEGAL_INSTR ?s" and b: "get_base_address 0x80 = 0x80" by code_simp+
  have "valid_mode (prv ?s)" by (simp add: valid_mode_def)
  from trap_entry [where v = "0x1234", OF this _ _ d] show ?thesis by (auto simp: xepc_def xtval_def xtvec_def of_mode_def b)
qed

text \<open>
  C17: returning from the handler of a trap or an interrupt continues the interrupted program: when
  the handler leaves its return address and \<open>mstatus\<close> as it found them, the return restores the
  program counter, the privilege level and the interrupt enable bit.
\<close>

theorem trap_return:
  assumes "valid_mode m" and "valid_mode (prv s)" and "prv s \<le> m"
    and "switch_to_trap_handler m s = Ok () s1"
    and "xepc m (csrs s2) = xepc m (csrs s1)" and "csr_mstatus (csrs s2) = csr_mstatus (csrs s1)"
  shows "\<exists>s3. return_from_trap_handler m s2 = Ok () s3 \<and> pc s3 = pc s \<and> prv s3 = prv s \<and>
    xie m (csrs s3) = xie m (csrs s) \<and> regs s3 = regs s2"
proof -
  let ?h = "handler_csrs m (prv s) (pc s) (csrs s)"
  have s1: "csrs s1 = ?h" using assms(4) enter_handler [OF assms(1), of s] by auto
  have ms: "get_mstatus f (csrs s2) = get_mstatus f ?h" for f
    using assms(6) s1 by (simp add: get_mstatus_def)
  note h = handler_csrs [OF assms(1,2,3), of "pc s" "csrs s"]
  consider "m = MachineMode" | "m = SupervisorMode" | "m = UserMode" using assms(1) by (auto simp: valid_mode_def)
  then show ?thesis
  proof cases
    case 1
    then show ?thesis using h assms(5) s1 ms
      by (simp add: return_from_trap_handler_def switch_def Let_def mode_defs)
  next
    case 2
    then show ?thesis using h assms(5) s1 ms
      by (simp add: return_from_trap_handler_def switch_def Let_def mode_defs)
  next
    case 3
    then have "prv s = UserMode" using assms(2,3) by (auto simp: valid_mode_def word_le_nat_alt)
    with 3 show ?thesis using h assms(5) s1 ms
      by (simp add: return_from_trap_handler_def switch_def Let_def mode_defs)
  qed
qed

theorem trap_return_witness:
  "\<exists>s1 s3. switch_to_trap_handler MachineMode (example_core\<lparr>prv := UserMode, pc := 0x40\<rparr>) = Ok () s1 \<and>
    return_from_trap_handler MachineMode (s1\<lparr>pc := 0x90\<rparr>) = Ok () s3 \<and> pc s3 = 0x40 \<and> prv s3 = UserMode"
proof -
  let ?s = "example_core\<lparr>prv := UserMode, pc := 0x40\<rparr>"
  have v: "valid_mode MachineMode" "valid_mode (prv ?s)" "prv ?s \<le> MachineMode" by (simp_all add: valid_mode_def)
  obtain s1 where s1: "switch_to_trap_handler MachineMode ?s = Ok () s1" using enter_handler [OF v(1)] by blast
  from trap_return [OF v s1, of "s1\<lparr>pc := 0x90\<rparr>"] s1 show ?thesis by auto
qed

section \<open>Interrupts\<close>

text \<open>
  The mode an interrupt belongs to, by \<open>mideleg\<close> and \<open>sideleg\<close>; when it is taken; and the order of
  the causes, which is the order of the ISA manual.
\<close>

definition irq_mode :: "'p ISS \<Rightarrow> nat \<Rightarrow> PrivilegeLevel" where
  "irq_mode s i =
     (if \<not> bit (csr_mideleg (csrs s)) i then MachineMode
      else if \<not> bit (csr_sideleg (csrs s)) i then SupervisorMode else UserMode)"

definition takeable :: "'p ISS \<Rightarrow> PrivilegeLevel \<Rightarrow> nat \<Rightarrow> bool" where
  "takeable s m i \<longleftrightarrow> bit (csr_mie (csrs s)) i \<and> bit (csr_mip (csrs s)) i \<and> irq_mode s i = m \<and>
     (prv s < m \<or> prv s = m \<and> xie m (csrs s))"

definition irq_order :: "nat list" where
  "irq_order = [11, 3, 7, 9, 1, 5, 8, 0, 4]"

text \<open>The interrupt the architecture prescribes: the most privileged mode first, then the order of the causes.\<close>

definition next_interrupt :: "'p ISS \<Rightarrow> (PrivilegeLevel \<times> nat) option" where
  "next_interrupt s =
     (case find (takeable s MachineMode) irq_order of
        Some i \<Rightarrow> Some (MachineMode, i)
      | None \<Rightarrow>
     (case find (takeable s SupervisorMode) irq_order of
        Some i \<Rightarrow> Some (SupervisorMode, i)
      | None \<Rightarrow> map_option (Pair UserMode) (find (takeable s UserMode) irq_order)))"

lemma bget_bit_iff: "bget (n, Suc 0) x \<noteq> 0 \<longleftrightarrow> bit x n"
  using bget_bit [of n x] exp_and_iff [of n x] by (simp add: and.commute)

lemma irq_cause_find: "irq_cause x = map_option of_nat (find (bit x) irq_order)"
  by (simp add: irq_cause_def irq_order_def bget_bit_iff)

lemma mie_bits:
  assumes "x AND NOT MIE_MASK = 0" and "bit x i"
  shows "i \<in> set irq_order"
proof -
  have "i < 32" using bit_imp_le_length [OF assms(2)] by simp
  moreover have "\<not> bit (x AND NOT MIE_MASK) i" by (subst assms(1)) simp
  ultimately have "i < 32" and *: "bit MIE_MASK i" using assms(2) unfolding bit_and_iff bit_not_iff by auto
  from this(1) have "i \<in> {0..<32}" by simp
  also have "{0..<32} = set [0..<32]" by simp
  finally have "i \<in> set (filter (bit MIE_MASK) [0..<32])" using * by simp
  also have "filter (bit MIE_MASK) [0..<32] = [0, 1, 3, 4, 5, 7, 8, 9, 11]" by code_simp
  finally show ?thesis by (auto simp: irq_order_def)
qed

lemma find_bits_nonzero:
  assumes "x AND NOT MIE_MASK = 0"
  shows "x = 0 \<longleftrightarrow> find (bit x) irq_order = None"
proof
  assume "find (bit x) irq_order = None"
  then show "x = 0" using mie_bits [OF assms] by (intro bit_word_eqI) (auto simp: find_None_iff)
qed (auto simp: find_None_iff)

text \<open>The pending interrupts of a mode are the bits that are enabled, pending and belong to it.\<close>

definition mode_pending :: "'p ISS \<Rightarrow> PrivilegeLevel \<Rightarrow> u32" where
  "mode_pending s m =
     (let p = csr_mie (csrs s) AND csr_mip (csrs s)
      in of_mode m ((p AND csr_mideleg (csrs s)) AND csr_sideleg (csrs s))
        ((p AND csr_mideleg (csrs s)) AND NOT (csr_sideleg (csrs s))) (p AND NOT (csr_mideleg (csrs s))))"

lemma mode_pending_bit:
  assumes "valid_mode m" and "i \<in> set irq_order"
  shows "bit (mode_pending s m) i \<longleftrightarrow> bit (csr_mie (csrs s)) i \<and> bit (csr_mip (csrs s)) i \<and> irq_mode s i = m"
proof -
  have "i < 32" using assms(2) by (auto simp: irq_order_def)
  then show ?thesis using assms(1) by (auto simp: mode_pending_def irq_mode_def mode_defs bit_simps Let_def)
qed

lemma find_takeable:
  assumes "valid_mode m"
  shows "find (takeable s m) irq_order =
    (if prv s < m \<or> prv s = m \<and> xie m (csrs s) then find (bit (mode_pending s m)) irq_order else None)"
proof (cases "prv s < m \<or> prv s = m \<and> xie m (csrs s)")
  case True
  have "find (takeable s m) irq_order = find (bit (mode_pending s m)) irq_order"
    by (rule find_cong [OF refl]) (use True mode_pending_bit [OF assms] in \<open>auto simp: takeable_def\<close>)
  then show ?thesis using True by simp
qed (auto simp: takeable_def find_None_iff)

lemma pending_interrupts_eq:
  assumes "valid_mode (prv s)"
  shows "compute_pending_interrupts s =
    (if mode_pending s MachineMode \<noteq> 0 \<and> (prv s < MachineMode \<or> prv s = MachineMode \<and> xie MachineMode (csrs s))
     then \<lparr>target_mode = MachineMode, pending = mode_pending s MachineMode\<rparr>
     else if mode_pending s SupervisorMode \<noteq> 0 \<and> (prv s < SupervisorMode \<or> prv s = SupervisorMode \<and> xie SupervisorMode (csrs s))
     then \<lparr>target_mode = SupervisorMode, pending = mode_pending s SupervisorMode\<rparr>
     else if mode_pending s UserMode \<noteq> 0 \<and> (prv s < UserMode \<or> prv s = UserMode \<and> xie UserMode (csrs s))
     then \<lparr>target_mode = UserMode, pending = mode_pending s UserMode\<rparr>
     else \<lparr>target_mode = NoneMode, pending = 0\<rparr>)"
  unfolding compute_pending_interrupts_def mode_pending_def xie_def of_mode_def Let_def
  by (cases "csr_mie (csrs s) AND csr_mip (csrs s) = 0") auto

lemma mode_pending_subset:
  assumes "csr_inv (csrs s)"
  shows "mode_pending s m AND NOT MIE_MASK = 0"
proof -
  have "mode_pending s m AND NOT MIE_MASK = mode_pending s m AND (csr_mie (csrs s) AND NOT MIE_MASK)"
    by (rule bit_word_eqI) (auto simp: mode_pending_def of_mode_def Let_def bit_and_iff bit_not_iff)
  then show ?thesis using assms by (simp only: csr_inv_def and_zero_eq)
qed

lemma next_interrupt_eq:
  assumes "csr_inv (csrs s)" and "valid_mode (prv s)"
  shows "next_interrupt s =
    (let x = compute_pending_interrupts s
     in if target_mode x = NoneMode then None
        else map_option (Pair (target_mode x)) (find (bit (pending x)) irq_order))"
proof -
  define f where "f m = find (bit (mode_pending s m)) irq_order" for m
  have z: "mode_pending s m = 0 \<longleftrightarrow> f m = None" for m
    using find_bits_nonzero [OF mode_pending_subset [OF assms(1)]] by (simp add: f_def)
  have v: "valid_mode MachineMode" "valid_mode SupervisorMode" "valid_mode UserMode" by (simp_all add: valid_mode_def)
  show ?thesis
    unfolding next_interrupt_def v [THEN find_takeable] pending_interrupts_eq [OF assms(2)] Let_def z
    by (cases "f MachineMode"; cases "f SupervisorMode"; cases "f UserMode") (simp_all add: f_def)
qed

lemma pending_of_mode:
  assumes "valid_mode (prv s)" and "target_mode (compute_pending_interrupts s) = m" and "m \<noteq> NoneMode"
  shows "valid_mode m \<and> prv s \<le> m \<and> pending (compute_pending_interrupts s) = mode_pending s m \<and> mode_pending s m \<noteq> 0"
proof -
  let ?can = "\<lambda>m. prv s < m \<or> prv s = m \<and> xie m (csrs s)"
  have le: "?can m \<Longrightarrow> prv s \<le> m" by auto
  have v: "valid_mode MachineMode" "valid_mode SupervisorMode" "valid_mode UserMode" by (simp_all add: valid_mode_def)
  show ?thesis
    using assms(2,3) le v unfolding pending_interrupts_eq [OF assms(1)]
    by (simp only: PendingInterrupts.select_convs split: if_split_asm) simp_all
qed

text \<open>
  C8: after an instruction the core takes the interrupt the privileged architecture prescribes:
  among the interrupts that are enabled and pending, it takes one of the most privileged mode that
  may interrupt the current one, in the order external, software, timer; the handler finds the
  cause and the address of the next instruction.  When no interrupt may be taken, nothing happens.
\<close>

theorem take_interrupt_next:
  assumes "csr_inv (csrs s)" and "valid_mode (prv s)"
  shows "case next_interrupt s of
      None \<Rightarrow> take_interrupt s = Ok () s
    | Some (m, i) \<Rightarrow> \<exists>s'. take_interrupt s = Ok () s' \<and> prv s' = m \<and> prv s \<le> m \<and> xepc m (csrs s') = pc s \<and>
        bget cause_interrupt (xcause m (csrs s')) = 1 \<and> bget exception_code (xcause m (csrs s')) = of_nat i \<and>
        \<not> xie m (csrs s') \<and> xpie m (csrs s') = xie m (csrs s) \<and> xpp m (csrs s') = prv s \<and> regs s' = regs s"
proof (cases "next_interrupt s")
  case None
  let ?x = "compute_pending_interrupts s"
  have "target_mode ?x = NoneMode"
  proof (rule ccontr)
    assume t: "target_mode ?x \<noteq> NoneMode"
    note p = pending_of_mode [OF assms(2) refl t]
    have "find (bit (pending ?x)) irq_order \<noteq> None"
      using p find_bits_nonzero [OF mode_pending_subset [OF assms(1)]] by metis
    then show False using None t next_interrupt_eq [OF assms] by (simp add: Let_def)
  qed
  then show ?thesis using None by (simp add: take_interrupt_def)
next
  case (Some mi)
  obtain m i where mi: "mi = (m, i)" by (cases mi)
  let ?x = "compute_pending_interrupts s"
  have m: "target_mode ?x = m" "m \<noteq> NoneMode" "irq_cause (pending ?x) = Some (of_nat i)" "i \<in> set irq_order"
    using Some mi next_interrupt_eq [OF assms] find_Some_iff [of "bit (pending ?x)" irq_order i]
    by (auto simp: Let_def irq_cause_find split: if_splits)
  have v: "valid_mode m" "prv s \<le> m"
    using pending_of_mode [OF assms(2) m(1,2)] by simp_all
  let ?u = "upd_csrs (\<lambda>t. of_mode m (t\<lparr>csr_ucause := put_cause 1 (of_nat i) (csr_ucause t)\<rparr>)
    (t\<lparr>csr_scause := put_cause 1 (of_nat i) (csr_scause t)\<rparr>) (t\<lparr>csr_mcause := put_cause 1 (of_nat i) (csr_mcause t)\<rparr>)) s"
  have u: "prepare_interrupt ?x s = Ok () ?u"
    using m(1,3) v(1) by (auto simp: prepare_interrupt_def of_option_def switch_def mode_defs upd_csrs_def)
  have c: "xcause m (csrs ?u) = put_cause 1 (of_nat i) (xcause m (csrs s))" "xie m (csrs ?u) = xie m (csrs s)"
    "prv ?u = prv s" "pc ?u = pc s" "regs ?u = regs s"
    by (auto simp: mode_defs upd_csrs_def get_mstatus_def)
  have "of_nat i < (2 ^ 31 :: u32)" using m(4) by (auto simp: irq_order_def)
  then show ?thesis
    using Some mi m v u c handler_csrs [OF v(1) assms(2) v(2), of "pc s" "csrs ?u"]
    by (simp add: take_interrupt_def Let_def enter_handler)
qed

theorem take_interrupt_next_witness:
  "\<exists>s'. take_interrupt (example_core\<lparr>pc := 0x44, prv := UserMode,
      csrs := (csrs example_core)\<lparr>csr_mie := 0x88, csr_mip := 0x88\<rparr>\<rparr>) = Ok () s' \<and> prv s' = MachineMode \<and>
    csr_mepc (csrs s') = 0x44 \<and> bget exception_code (csr_mcause (csrs s')) = EXC_M_SOFTWARE_INTERRUPT"
proof -
  let ?s = "example_core\<lparr>pc := 0x44, prv := UserMode, csrs := (csrs example_core)\<lparr>csr_mie := 0x88, csr_mip := 0x88\<rparr>\<rparr>"
  have "csr_inv (csrs ?s)" "valid_mode (prv ?s)" and n: "next_interrupt ?s = Some (MachineMode, 3)" by code_simp+
  from take_interrupt_next [OF this(1,2)] show ?thesis unfolding n by (auto simp: xepc_def xcause_def of_mode_def)
qed

end
