(* ===== verification/RV_CSR_Props.thy ===== *)
theory RV_CSR_Props
  imports RV_ISS_Props
begin

text \<open>
  The CSR instructions: which bits of a register software can write and read back, which accesses
  are illegal, and the opcodes the core decodes and does not execute.
\<close>

section \<open>Write and read\<close>

text \<open>The bits of a register that a CSR instruction can change.\<close>

definition csr_wmask :: "u32 \<Rightarrow> csr_table \<Rightarrow> u32 option" where
  "csr_wmask addr t = map_of [
     (MTVEC_ADDR, MTVEC_MASK), (STVEC_ADDR, MTVEC_MASK), (UTVEC_ADDR, MTVEC_MASK),
     (MEPC_ADDR, pc_alignment_mask t), (SEPC_ADDR, pc_alignment_mask t), (UEPC_ADDR, pc_alignment_mask t),
     (MSTATUS_ADDR, MSTATUS_MASK), (SSTATUS_ADDR, SSTATUS_MASK), (USTATUS_ADDR, USTATUS_MASK),
     (MIP_ADDR, MIP_WRITE_MASK), (SIP_ADDR, SIP_MASK), (UIP_ADDR, UIP_MASK),
     (MIE_ADDR, MIE_MASK), (SIE_ADDR, SIE_MASK), (UIE_ADDR, UIE_MASK),
     (MIDELEG_ADDR, MIDELEG_MASK), (MEDELEG_ADDR, MEDELEG_MASK),
     (SIDELEG_ADDR, SIDELEG_MASK), (SEDELEG_ADDR, SEDELEG_MASK),
     (MCOUNTEREN_ADDR, MCOUNTEREN_MASK), (SCOUNTEREN_ADDR, MCOUNTEREN_MASK),
     (MCOUNTINHIBIT_ADDR, MCOUNTINHIBIT_MASK), (SATP_ADDR, SATP_MASK), (FCSR_ADDR, FCSR_MASK),
     (MISA_ADDR, 0),
     (MSCRATCH_ADDR, - 1), (SSCRATCH_ADDR, - 1), (USCRATCH_ADDR, - 1),
     (MCAUSE_ADDR, - 1), (SCAUSE_ADDR, - 1), (UCAUSE_ADDR, - 1),
     (MTVAL_ADDR, - 1), (STVAL_ADDR, - 1), (UTVAL_ADDR, - 1)] addr"

lemma masked_view: "masked m v r AND n = masked m v (r AND n)" if "m AND NOT n = 0" for m n v r :: u32
proof (rule bit_word_eqI)
  fix i assume "i < LENGTH(32)"
  have "\<not> bit (m AND NOT n) i" by (subst that) simp
  then have "bit m i \<Longrightarrow> bit n i" using \<open>i < LENGTH(32)\<close> by (simp add: bit_and_iff bit_not_iff)
  then show "bit (masked m v r AND n) i = bit (masked m v (r AND n)) i"
    by (auto simp: masked_def bit_and_iff bit_or_iff bit_not_iff)
qed

lemma masked_extreme [simp]: "masked 0 v r = r" "masked (- 1) v r = v"
  by (simp_all add: masked_def)

lemma masked_views [simp]:
  "masked MSTATUS_MASK v r AND MSTATUS_MASK = masked MSTATUS_MASK v (r AND MSTATUS_MASK)"
  "masked SSTATUS_MASK v r AND SSTATUS_MASK = masked SSTATUS_MASK v (r AND SSTATUS_MASK)"
  "masked USTATUS_MASK v r AND USTATUS_MASK = masked USTATUS_MASK v (r AND USTATUS_MASK)"
  "masked MIP_WRITE_MASK v r AND MIP_READ_MASK = masked MIP_WRITE_MASK v (r AND MIP_READ_MASK)"
  "masked SIP_MASK v r AND SIP_MASK = masked SIP_MASK v (r AND SIP_MASK)"
  "masked UIP_MASK v r AND UIP_MASK = masked UIP_MASK v (r AND UIP_MASK)"
  "masked MIE_MASK v r AND MIE_MASK = masked MIE_MASK v (r AND MIE_MASK)"
  "masked SIE_MASK v r AND SIE_MASK = masked SIE_MASK v (r AND SIE_MASK)"
  "masked UIE_MASK v r AND UIE_MASK = masked UIE_MASK v (r AND UIE_MASK)"
  "masked FCSR_MASK v r AND FCSR_MASK = masked FCSR_MASK v (r AND FCSR_MASK)"
  by (rule masked_view, simp)+

lemma set_csr_eval:
  "set_csr_value MTVEC_ADDR v = write_csr (\<lambda>t. t\<lparr>csr_mtvec := masked MTVEC_MASK v (csr_mtvec t)\<rparr>)"
  "set_csr_value STVEC_ADDR v = write_csr (\<lambda>t. t\<lparr>csr_stvec := masked MTVEC_MASK v (csr_stvec t)\<rparr>)"
  "set_csr_value UTVEC_ADDR v = write_csr (\<lambda>t. t\<lparr>csr_utvec := masked MTVEC_MASK v (csr_utvec t)\<rparr>)"
  "set_csr_value MEPC_ADDR v = write_csr (\<lambda>t. t\<lparr>csr_mepc := masked (pc_alignment_mask t) v (csr_mepc t)\<rparr>)"
  "set_csr_value SEPC_ADDR v = write_csr (\<lambda>t. t\<lparr>csr_sepc := masked (pc_alignment_mask t) v (csr_sepc t)\<rparr>)"
  "set_csr_value UEPC_ADDR v = write_csr (\<lambda>t. t\<lparr>csr_uepc := masked (pc_alignment_mask t) v (csr_uepc t)\<rparr>)"
  "set_csr_value MIDELEG_ADDR v = write_csr (\<lambda>t. t\<lparr>csr_mideleg := masked MIDELEG_MASK v (csr_mideleg t)\<rparr>)"
  "set_csr_value MEDELEG_ADDR v = write_csr (\<lambda>t. t\<lparr>csr_medeleg := masked MEDELEG_MASK v (csr_medeleg t)\<rparr>)"
  "set_csr_value SIDELEG_ADDR v = write_csr (\<lambda>t. t\<lparr>csr_sideleg := masked SIDELEG_MASK v (csr_sideleg t)\<rparr>)"
  "set_csr_value SEDELEG_ADDR v = write_csr (\<lambda>t. t\<lparr>csr_sedeleg := masked SEDELEG_MASK v (csr_sedeleg t)\<rparr>)"
  "set_csr_value MCOUNTEREN_ADDR v = write_csr (\<lambda>t. t\<lparr>csr_mcounteren := masked MCOUNTEREN_MASK v (csr_mcounteren t)\<rparr>)"
  "set_csr_value SCOUNTEREN_ADDR v = write_csr (\<lambda>t. t\<lparr>csr_scounteren := masked MCOUNTEREN_MASK v (csr_scounteren t)\<rparr>)"
  "set_csr_value MCOUNTINHIBIT_ADDR v = write_csr (\<lambda>t. t\<lparr>csr_mcountinhibit := masked MCOUNTINHIBIT_MASK v (csr_mcountinhibit t)\<rparr>)"
  "set_csr_value MSTATUS_ADDR v = write_csr (\<lambda>t. t\<lparr>csr_mstatus := masked MSTATUS_MASK v (csr_mstatus t)\<rparr>)"
  "set_csr_value SSTATUS_ADDR v = write_csr (\<lambda>t. t\<lparr>csr_mstatus := masked SSTATUS_MASK v (csr_mstatus t)\<rparr>)"
  "set_csr_value USTATUS_ADDR v = write_csr (\<lambda>t. t\<lparr>csr_mstatus := masked USTATUS_MASK v (csr_mstatus t)\<rparr>)"
  "set_csr_value MIP_ADDR v = write_csr (\<lambda>t. t\<lparr>csr_mip := masked MIP_WRITE_MASK v (csr_mip t)\<rparr>)"
  "set_csr_value SIP_ADDR v = write_csr (\<lambda>t. t\<lparr>csr_mip := masked SIP_MASK v (csr_mip t)\<rparr>)"
  "set_csr_value UIP_ADDR v = write_csr (\<lambda>t. t\<lparr>csr_mip := masked UIP_MASK v (csr_mip t)\<rparr>)"
  "set_csr_value MIE_ADDR v = write_csr (\<lambda>t. t\<lparr>csr_mie := masked MIE_MASK v (csr_mie t)\<rparr>)"
  "set_csr_value SIE_ADDR v = write_csr (\<lambda>t. t\<lparr>csr_mie := masked SIE_MASK v (csr_mie t)\<rparr>)"
  "set_csr_value UIE_ADDR v = write_csr (\<lambda>t. t\<lparr>csr_mie := masked UIE_MASK v (csr_mie t)\<rparr>)"
  "set_csr_value FCSR_ADDR v = write_csr (\<lambda>t. t\<lparr>csr_fcsr := masked FCSR_MASK v (csr_fcsr t)\<rparr>)"
  "set_csr_value SATP_ADDR v = seqM satp_check (write_csr (\<lambda>t. t\<lparr>csr_satp := masked SATP_MASK v (csr_satp t)\<rparr>))"
  "set_csr_value MISA_ADDR v = ret ()"
  by (simp_all add: set_csr_value_def switch_def any_hpmcounter_def)

lemma set_csr_plain:
  "addr \<in> {MSCRATCH_ADDR, SSCRATCH_ADDR, USCRATCH_ADDR, MCAUSE_ADDR, SCAUSE_ADDR, UCAUSE_ADDR, MTVAL_ADDR, STVAL_ADDR, UTVAL_ADDR} \<Longrightarrow> set_csr_value addr v = default_set addr v"
  by (elim insertE emptyE; simp add: set_csr_value_def switch_def any_hpmcounter_def)

lemma csr_cells:
  "register_mapping MTVEC_ADDR = Some P_mtvec"
  "register_mapping STVEC_ADDR = Some P_stvec"
  "register_mapping UTVEC_ADDR = Some P_utvec"
  "register_mapping MEPC_ADDR = Some P_mepc"
  "register_mapping SEPC_ADDR = Some P_sepc"
  "register_mapping UEPC_ADDR = Some P_uepc"
  "register_mapping MIDELEG_ADDR = Some P_mideleg"
  "register_mapping MEDELEG_ADDR = Some P_medeleg"
  "register_mapping SIDELEG_ADDR = Some P_sideleg"
  "register_mapping SEDELEG_ADDR = Some P_sedeleg"
  "register_mapping MCOUNTEREN_ADDR = Some P_mcounteren"
  "register_mapping SCOUNTEREN_ADDR = Some P_scounteren"
  "register_mapping MCOUNTINHIBIT_ADDR = Some P_mcountinhibit"
  "register_mapping MSCRATCH_ADDR = Some P_mscratch"
  "register_mapping SSCRATCH_ADDR = Some P_sscratch"
  "register_mapping USCRATCH_ADDR = Some P_uscratch"
  "register_mapping MCAUSE_ADDR = Some P_mcause"
  "register_mapping SCAUSE_ADDR = Some P_scause"
  "register_mapping UCAUSE_ADDR = Some P_ucause"
  "register_mapping MTVAL_ADDR = Some P_mtval"
  "register_mapping STVAL_ADDR = Some P_stval"
  "register_mapping UTVAL_ADDR = Some P_utval"
  "register_mapping MISA_ADDR = Some P_misa"
  "register_mapping SATP_ADDR = Some P_satp"
  by code_simp+

lemma get_csr_plain:
  "addr \<in> {MTVEC_ADDR, STVEC_ADDR, UTVEC_ADDR, MEPC_ADDR, SEPC_ADDR, UEPC_ADDR, MIDELEG_ADDR, MEDELEG_ADDR, SIDELEG_ADDR, SEDELEG_ADDR, MCOUNTEREN_ADDR, SCOUNTEREN_ADDR, MCOUNTINHIBIT_ADDR, MSCRATCH_ADDR, SSCRATCH_ADDR, USCRATCH_ADDR, MCAUSE_ADDR, SCAUSE_ADDR, UCAUSE_ADDR, MTVAL_ADDR, STVAL_ADDR, UTVAL_ADDR, MISA_ADDR} \<Longrightarrow> get_csr_value E addr s = default_get addr s"
  by (elim insertE emptyE; simp add: get_csr_value_def switch_def any_hpmcounter_def validate_csr_counter_read_access_rights_def)

lemma get_csr_eval:
  "get_csr_value E MSTATUS_ADDR s = Ok (csr_mstatus (csrs s) AND MSTATUS_MASK) s"
  "get_csr_value E SSTATUS_ADDR s = Ok (csr_mstatus (csrs s) AND SSTATUS_MASK) s"
  "get_csr_value E USTATUS_ADDR s = Ok (csr_mstatus (csrs s) AND USTATUS_MASK) s"
  "get_csr_value E MIP_ADDR s = Ok (csr_mip (csrs s) AND MIP_READ_MASK) s"
  "get_csr_value E SIP_ADDR s = Ok (csr_mip (csrs s) AND SIP_MASK) s"
  "get_csr_value E UIP_ADDR s = Ok (csr_mip (csrs s) AND UIP_MASK) s"
  "get_csr_value E MIE_ADDR s = Ok (csr_mie (csrs s) AND MIE_MASK) s"
  "get_csr_value E SIE_ADDR s = Ok (csr_mie (csrs s) AND SIE_MASK) s"
  "get_csr_value E UIE_ADDR s = Ok (csr_mie (csrs s) AND UIE_MASK) s"
  "get_csr_value E FCSR_ADDR s = Ok (csr_fcsr (csrs s) AND FCSR_MASK) s"
  "get_csr_value E SATP_ADDR s = seqM satp_check (default_get SATP_ADDR) s"
  by (simp_all add: get_csr_value_def switch_def any_hpmcounter_def validate_csr_counter_read_access_rights_def)

lemma default_get_cell: "register_mapping addr = Some p \<Longrightarrow> default_get addr s = Ok (deref p (csrs s)) s"
  by (simp add: default_get_def is_valid_csr32_addr_def default_read32_def of_option_def)

lemma default_set_cell:
  "register_mapping addr = Some p \<Longrightarrow> default_set addr v s = Ok () (s\<lparr>csrs := assign_cell p v (csrs s)\<rparr>)"
  by (simp add: default_set_def is_valid_csr32_addr_def default_write32_def of_option_def)

definition reads_back :: "'p ISS_env \<Rightarrow> u32 \<Rightarrow> u32 \<Rightarrow> u32 \<Rightarrow> 'p ISS \<Rightarrow> bool" where
  "reads_back E addr m v s \<longleftrightarrow> (\<forall>old. get_csr_value E addr s = Ok old s \<longrightarrow>
     (\<exists>s'. set_csr_value addr v s = Ok () s' \<and> get_csr_value E addr s' = Ok (masked m v old) s'))"

lemma reads_back_cells:
  "reads_back E MTVEC_ADDR MTVEC_MASK v s" "reads_back E STVEC_ADDR MTVEC_MASK v s" "reads_back E UTVEC_ADDR MTVEC_MASK v s"
  "reads_back E MEPC_ADDR (pc_alignment_mask (csrs s)) v s" "reads_back E SEPC_ADDR (pc_alignment_mask (csrs s)) v s"
  "reads_back E UEPC_ADDR (pc_alignment_mask (csrs s)) v s"
  "reads_back E MIDELEG_ADDR MIDELEG_MASK v s" "reads_back E MEDELEG_ADDR MEDELEG_MASK v s"
  "reads_back E SIDELEG_ADDR SIDELEG_MASK v s" "reads_back E SEDELEG_ADDR SEDELEG_MASK v s"
  "reads_back E MCOUNTEREN_ADDR MCOUNTEREN_MASK v s" "reads_back E SCOUNTEREN_ADDR MCOUNTEREN_MASK v s"
  "reads_back E MCOUNTINHIBIT_ADDR MCOUNTINHIBIT_MASK v s" "reads_back E MISA_ADDR 0 v s"
  by (simp_all add: reads_back_def set_csr_eval upd_csrs_def get_csr_plain csr_cells [THEN default_get_cell])

lemma reads_back_views:
  "reads_back E MSTATUS_ADDR MSTATUS_MASK v s" "reads_back E SSTATUS_ADDR SSTATUS_MASK v s"
  "reads_back E USTATUS_ADDR USTATUS_MASK v s" "reads_back E MIP_ADDR MIP_WRITE_MASK v s"
  "reads_back E SIP_ADDR SIP_MASK v s" "reads_back E UIP_ADDR UIP_MASK v s" "reads_back E MIE_ADDR MIE_MASK v s"
  "reads_back E SIE_ADDR SIE_MASK v s" "reads_back E UIE_ADDR UIE_MASK v s" "reads_back E FCSR_ADDR FCSR_MASK v s"
  by (simp_all add: reads_back_def set_csr_eval upd_csrs_def get_csr_eval)

lemma reads_back_plain:
  "reads_back E MSCRATCH_ADDR (- 1) v s" "reads_back E SSCRATCH_ADDR (- 1) v s" "reads_back E USCRATCH_ADDR (- 1) v s"
  "reads_back E MCAUSE_ADDR (- 1) v s" "reads_back E SCAUSE_ADDR (- 1) v s" "reads_back E UCAUSE_ADDR (- 1) v s"
  "reads_back E MTVAL_ADDR (- 1) v s" "reads_back E STVAL_ADDR (- 1) v s" "reads_back E UTVAL_ADDR (- 1) v s"
  by (simp_all add: reads_back_def set_csr_plain get_csr_plain csr_cells [THEN default_get_cell]
      csr_cells [THEN default_set_cell])

lemma reads_back_satp: "reads_back E SATP_ADDR SATP_MASK v s"
proof (cases "bget tvm (csr_mstatus (csrs s)) = 0")
  case True
  then have "satp_check s = Ok () s" and "satp_check (s\<lparr>csrs := (csrs s)\<lparr>csr_satp := x\<rparr>\<rparr>) =
      Ok () (s\<lparr>csrs := (csrs s)\<lparr>csr_satp := x\<rparr>\<rparr>)" for x
    by (simp_all add: satp_check_def)
  then show ?thesis
    by (simp add: reads_back_def set_csr_eval upd_csrs_def get_csr_eval csr_cells [THEN default_get_cell])
qed (simp add: reads_back_def get_csr_eval satp_check_def RAISE_ILLEGAL_INSTRUCTION_def raise_trap_def seqM_def bindM_def)



section \<open>Access rights\<close>

definition csr_writes :: "zicsr \<Rightarrow> u32 \<Rightarrow> bool" where
  "csr_writes i w \<longleftrightarrow> i \<in> {CSRRW, CSRRWI} \<or> i \<in> {CSRRS, CSRRC} \<and> rs1 w \<noteq> 0 \<or> i \<in> {CSRRSI, CSRRCI} \<and> zimm w \<noteq> 0"

text \<open>The ISA encodes the least privileged mode in bits 9 and 8 of the address and read-only registers in bits 11 and 10.\<close>

definition csr_forbidden :: "zicsr \<Rightarrow> 'p ISS \<Rightarrow> bool" where
  "csr_forbidden i s \<longleftrightarrow>
     (let a = csr (instr s)
      in prv s < take_bit 2 (drop_bit 8 a) \<or> csr_writes i (instr s) \<and> take_bit 2 (drop_bit 10 a) = 3)"

lemma csr_field: "take_bit 2 x = 3 AND x" for x :: u32
  by (simp add: take_bit_eq_mask mask_eq_exp_minus_1 and.commute)

lemma csr_access_forbidden:
  assumes "is_invalid_csr_access (csr (instr s)) w s = Ok True s"
  shows "csr_access w body s = Throw (SimulationTrap EXC_ILLEGAL_INSTR (ucast (instr s))) s"
  using assms by (simp add: csr_access_def RAISE_ILLEGAL_INSTRUCTION_def raise_trap_def)

text \<open>
  C24: a CSR instruction that addresses a register of a more privileged mode, or that writes a
  read-only register, raises an illegal-instruction trap with the instruction word as its value and
  changes nothing.
\<close>

theorem csr_access_denied:
  assumes "csr_forbidden i s" and "csr (instr s) \<notin> {FFLAGS_ADDR, FRM_ADDR, FCSR_ADDR}"
  shows "exec_zicsr E i s = Throw (SimulationTrap EXC_ILLEGAL_INSTR (ucast (instr s))) s"
proof -
  have "is_invalid_csr_access (csr (instr s)) (csr_writes i (instr s)) s = Ok True s"
    using assms by (auto simp: is_invalid_csr_access_def csr_forbidden_def csr_field Let_def)
  note * = csr_access_forbidden [OF this]
  show ?thesis
    by (cases i) (use * in \<open>simp_all add: csr_swap_def csr_modify_def csr_writes_def\<close>)
qed

theorem csr_access_denied_witness:
  "exec_zicsr example_env CSRRW (example_core\<lparr>prv := UserMode, instr := 0x30009073\<rparr>) =
    Throw (SimulationTrap EXC_ILLEGAL_INSTR 0x30009073) (example_core\<lparr>prv := UserMode, instr := 0x30009073\<rparr>)"
proof -
  have c: "csr 0x30009073 = 0x300" by code_simp
  show ?thesis
    using csr_access_denied [of CSRRW "example_core\<lparr>prv := UserMode, instr := 0x30009073\<rparr>" example_env]
    by (simp add: csr_forbidden_def c csr_field)
qed

section \<open>Opcodes that are decoded and not executed\<close>

definition executed :: "Mapping \<Rightarrow> bool" where
  "executed m = (case m of UNDEF \<Rightarrow> True | M_I _ \<Rightarrow> True | M_Zifencei _ \<Rightarrow> True | M_Zicsr _ \<Rightarrow> True
     | M_Priv i \<Rightarrow> i \<in> {WFI, MRET} | _ \<Rightarrow> False)"

lemma misa_init_value: "misa_init = 0x40143125"
  by code_simp



end
