(* ===== verification/RV_Memory.thy ===== *)
theory RV_Memory
  imports RV_ISS_Inv
begin

text \<open>
  The way from the core to the memory: the bus (\<open>platform/common/bus.h\<close>), the MMU
  (\<open>core/common/mmu.h\<close>) and the memory interface of the core (\<open>core/rv32/mem.h\<close>).

  The platform around the core is the record \<open>soc\<close>: the state of the SystemC kernel, the TLB, the
  bus lock and the devices.  What does not change at run time is the record \<open>board\<close>: the kernel's
  operations, the presence of an MMU and the targets of the bus with their address ranges.  DMI is
  not modelled: the platform refuses to start with it.
\<close>

section \<open>The platform\<close>

text \<open>
  The SystemC kernel and its quantum keeper are a parameter: the local time ahead of the simulation
  time, in picoseconds, the simulation time, the timed notification of the interruptor's event, and
  what happens while the core waits.  A wait lets the other processes run; the kernel answers with
  the times at which the process of the interruptor was woken up.
\<close>

record 'q systemc =
  get_local_time :: "'q \<Rightarrow> u64"
  set_local_time :: "u64 \<Rightarrow> 'q \<Rightarrow> 'q"
  keeper_need_sync :: "'q \<Rightarrow> bool"
  keeper_sync :: "'q \<Rightarrow> 'q \<times> u64 list"
  sc_wait :: "'q \<Rightarrow> ('q \<times> u64 list) option"
  sc_time_stamp :: "'q \<Rightarrow> u64"
  notify_irq_event :: "u64 \<Rightarrow> 'q \<Rightarrow> 'q"

type_synonym tlb_table = "nat \<Rightarrow> nat \<Rightarrow> nat \<Rightarrow> u64 \<times> u64"

record ('q, 'd) soc =
  kernel :: 'q
  tlb :: tlb_table
  bl_locked :: bool
  bl_owner :: u32
  devices :: 'd

type_synonym ('q, 'd) core = "('q, 'd) soc ISS"

record PortMapping =
  port_start :: u64
  port_end :: u64

type_synonym 's target = "tlm_payload \<Rightarrow> u64 \<Rightarrow> ('s, tlm_payload \<times> u64) M"

record ('q, 'd) board =
  sc :: "'q systemc"
  with_mmu :: bool
  page_fault_on_AD :: bool
  ports :: "(PortMapping \<times> ('q, 'd) core target) list"

definition upd_soc :: "(('q, 'd) soc \<Rightarrow> ('q, 'd) soc) \<Rightarrow> ('q, 'd) core \<Rightarrow> ('q, 'd) core" where
  "upd_soc f s = s\<lparr>platform := f (platform s)\<rparr>"

definition local_time :: "('q, 'd) board \<Rightarrow> ('q, 'd) core \<Rightarrow> u64" where
  "local_time B s = get_local_time (sc B) (kernel (platform s))"

definition keeper_set :: "('q, 'd) board \<Rightarrow> u64 \<Rightarrow> ('q, 'd) core \<Rightarrow> ('q, 'd) core" where
  "keeper_set B t = upd_soc (\<lambda>p. p\<lparr>kernel := set_local_time (sc B) t (kernel p)\<rparr>)"

definition keeper_inc :: "('q, 'd) board \<Rightarrow> u64 \<Rightarrow> ('q, 'd) soc \<Rightarrow> ('q, 'd) soc" where
  "keeper_inc B d p = p\<lparr>kernel := set_local_time (sc B) (get_local_time (sc B) (kernel p) + d) (kernel p)\<rparr>"

section \<open>The bus\<close>

definition contains :: "PortMapping \<Rightarrow> u64 \<Rightarrow> bool" where
  "contains p addr \<longleftrightarrow> port_start p \<le> addr \<and> addr \<le> port_end p"

definition global_to_local :: "PortMapping \<Rightarrow> u64 \<Rightarrow> u64" where
  "global_to_local p addr = addr - port_start p"

text \<open>The first port that contains the address is taken.\<close>

primrec decode :: "(PortMapping \<times> 't) list \<Rightarrow> u64 \<Rightarrow> (PortMapping \<times> 't) option" where
  "decode [] addr = None"
| "decode (p # ps) addr = (if contains (fst p) addr then Some p else decode ps addr)"

definition transport :: "(PortMapping \<times> 's target) list \<Rightarrow> 's target" where
  "transport ps pl delay =
     (case decode ps (tlm_addr pl) of
        None \<Rightarrow> ret (pl\<lparr>tlm_status := TLM_ADDRESS_ERROR_RESPONSE\<rparr>, delay)
      | Some (p, t) \<Rightarrow> t (pl\<lparr>tlm_addr := global_to_local p (tlm_addr pl)\<rparr>) delay)"

text \<open>
  The lock of the bus.  Nothing of the program sets it (the atomic instructions are disabled), so
  that a hart that has to wait for another one waits forever.
\<close>

definition is_locked :: "('q, 'd) soc \<Rightarrow> bool" where
  "is_locked p \<longleftrightarrow> bl_locked p"

definition is_locked_by :: "u32 \<Rightarrow> ('q, 'd) soc \<Rightarrow> bool" where
  "is_locked_by hart_id p \<longleftrightarrow> bl_locked p \<and> bl_owner p = hart_id"

definition bl_lock :: "u32 \<Rightarrow> ('q, 'd) soc \<Rightarrow> error + ('q, 'd) soc" where
  "bl_lock hart_id p =
     (if bl_locked p \<and> hart_id \<noteq> bl_owner p then Inl Suspended
      else Inr (p\<lparr>bl_locked := True, bl_owner := hart_id\<rparr>))"

definition bl_unlock :: "u32 \<Rightarrow> ('q, 'd) soc \<Rightarrow> ('q, 'd) soc" where
  "bl_unlock hart_id p = (if bl_locked p \<and> bl_owner p = hart_id then p\<lparr>bl_locked := False\<rparr> else p)"

definition wait_for_access_rights :: "('q, 'd) core \<Rightarrow> (unit, ('q, 'd) core) outcome" where
  "wait_for_access_rights = withS (\<lambda>s.
     whenM (is_locked (platform s) \<and> \<not> is_locked_by (csr_mhartid (csrs s)) (platform s)) (throw Suspended))"

section \<open>Transactions\<close>

definition is_response_error :: "tlm_payload \<Rightarrow> bool" where
  "is_response_error t \<longleftrightarrow> tlm_status t \<noteq> TLM_OK_RESPONSE"

definition check_response :: "tlm_payload \<Rightarrow> ('s, tlm_payload) M" where
  "check_response t =
     (if is_response_error t then
        (case tlm_cmd t of
           TLM_READ_COMMAND \<Rightarrow> raise_trap EXC_LOAD_PAGE_FAULT (tlm_addr t)
         | TLM_WRITE_COMMAND \<Rightarrow> raise_trap EXC_STORE_AMO_PAGE_FAULT (tlm_addr t)
         | TLM_IGNORE_COMMAND \<Rightarrow> throw (RuntimeError ''TLM command must be read or write''))
      else ret t)"

definition do_transaction :: "('q, 'd) board \<Rightarrow> tlm_payload \<Rightarrow> (('q, 'd) core, tlm_payload) M" where
  "do_transaction B pl = withS (\<lambda>s.
     bindM (transport (ports B) pl (local_time B s)) (\<lambda>(t, local_delay).
     bindM (gets (local_time B)) (\<lambda>now.
     seqM (assertM (now \<le> local_delay) ''local_delay >= quantum_keeper.get_local_time()'')
     (seqM (modify (keeper_set B local_delay)) (check_response t)))))"

definition payload :: "tlm_command \<Rightarrow> u64 \<Rightarrow> u8 list \<Rightarrow> ConcolicValue option \<Rightarrow> tlm_payload" where
  "payload cmd addr buf ext = \<lparr>tlm_cmd = cmd, tlm_addr = addr, tlm_data = buf,
     tlm_status = TLM_OK_RESPONSE, tlm_ext = ext\<rparr>"

text \<open>\<open>_do_transaction\<close> with a concolic value: a write carries it as the extension of the payload.\<close>

definition do_write :: "('q, 'd) board \<Rightarrow> u64 \<Rightarrow> ConcolicValue \<Rightarrow> nat \<Rightarrow> (('q, 'd) core, unit) M" where
  "do_write B addr data num_bytes =
     bindM (of_option NullPointer (BVCToBytes data num_bytes)) (\<lambda>buf.
     bindM (do_transaction B (payload TLM_WRITE_COMMAND addr buf (Some data))) (\<lambda>_. ret ()))"

definition do_read :: "('q, 'd) board \<Rightarrow> u64 \<Rightarrow> nat \<Rightarrow> (('q, 'd) core, ConcolicValue) M" where
  "do_read B addr num_bytes =
     bindM (do_transaction B (payload TLM_READ_COMMAND addr (replicate num_bytes 0) None)) (\<lambda>t.
       case tlm_ext t of
         Some v \<Rightarrow> ret v
       | None \<Rightarrow> of_option NullPointer (BVC_bytes (tlm_data t)))"

text \<open>
  The concrete accesses of the instruction fetch and the page walk.  The buffer of a read is
  uninitialised in the source; every target fills it, and here it starts with zeros.
\<close>

definition of_bytes :: "u8 list \<Rightarrow> u64" where
  "of_bytes bs = word_of_int (horner_sum uint 256 bs)"

definition to_bytes :: "nat \<Rightarrow> u64 \<Rightarrow> u8 list" where
  "to_bytes n v = map (\<lambda>i. ucast (drop_bit (8 * i) v)) [0..<n]"

definition concrete_load_data :: "('q, 'd) board \<Rightarrow> nat \<Rightarrow> u64 \<Rightarrow> (('q, 'd) core, u64) M" where
  "concrete_load_data B n addr =
     seqM wait_for_access_rights
     (bindM (do_transaction B (payload TLM_READ_COMMAND addr (replicate n 0) None)) (\<lambda>t.
      ret (of_bytes (tlm_data t))))"

definition concrete_store_data :: "('q, 'd) board \<Rightarrow> nat \<Rightarrow> u64 \<Rightarrow> u64 \<Rightarrow> (('q, 'd) core, unit) M" where
  "concrete_store_data B n addr v =
     seqM wait_for_access_rights
     (bindM (do_transaction B (payload TLM_WRITE_COMMAND addr (to_bytes n v) None)) (\<lambda>_. ret ()))"

section \<open>The MMU\<close>

datatype MemoryAccessType = FETCH | LOAD | STORE

definition access_index :: "MemoryAccessType \<Rightarrow> nat" where
  "access_index t = (case t of FETCH \<Rightarrow> 0 | LOAD \<Rightarrow> 1 | STORE \<Rightarrow> 2)"

abbreviation PTE_V :: u64 where "PTE_V \<equiv> 1"
abbreviation PTE_R :: u64 where "PTE_R \<equiv> 2"
abbreviation PTE_W :: u64 where "PTE_W \<equiv> 4"
abbreviation PTE_X :: u64 where "PTE_X \<equiv> 8"
abbreviation PTE_U :: u64 where "PTE_U \<equiv> 16"
abbreviation PTE_A :: u64 where "PTE_A \<equiv> 64"
abbreviation PTE_D :: u64 where "PTE_D \<equiv> 128"
abbreviation PTE_PPN_SHIFT :: nat where "PTE_PPN_SHIFT \<equiv> 10"
abbreviation PGSHIFT :: nat where "PGSHIFT \<equiv> 12"
abbreviation PGMASK :: u64 where "PGMASK \<equiv> 0xFFF"

definition pte_flag :: "u64 \<Rightarrow> u64 \<Rightarrow> bool" where
  "pte_flag f pte \<longleftrightarrow> pte AND f \<noteq> 0"

record vm_info =
  levels :: nat
  idxbits :: nat
  ptesize :: nat
  ptbase :: u64

definition flush_tlb :: "tlb_table \<Rightarrow> tlb_table" where
  "flush_tlb t = (\<lambda>mode type idx.
     if mode < 2 \<and> type < 3 \<and> idx < 256 then (-1, -1) else t mode type idx)"

definition decode_vm_info :: "PrivilegeLevel \<Rightarrow> (('q, 'd) core, vm_info) M" where
  "decode_vm_info mode =
     seqM (assertM (mode \<le> SupervisorMode) ''prv <= SupervisorMode'')
     (withS (\<lambda>s.
       let base = push_bit PGSHIFT (ucast (bget satp_ppn (csr_satp (csrs s))));
           m = bget satp_mode (csr_satp (csrs s))
       in switch m [
         (1, ret \<lparr>levels = 2, idxbits = 10, ptesize = 4, ptbase = base\<rparr>),
         (8, ret \<lparr>levels = 3, idxbits = 9, ptesize = 8, ptbase = base\<rparr>),
         (9, ret \<lparr>levels = 4, idxbits = 9, ptesize = 8, ptbase = base\<rparr>),
         (10, ret \<lparr>levels = 5, idxbits = 9, ptesize = 8, ptbase = base\<rparr>),
         (11, ret \<lparr>levels = 6, idxbits = 9, ptesize = 8, ptbase = base\<rparr>)]
         (throw (RuntimeError (''unknown Sv (satp) mode '' @ to_string (unat m))))))"

definition check_vaddr_extension :: "u64 \<Rightarrow> vm_info \<Rightarrow> bool" where
  "check_vaddr_extension vaddr vm =
     (let highbit = idxbits vm * levels vm + PGSHIFT - 1;
          ext_mask = push_bit (32 - highbit) 1 - 1;
          bits = drop_bit highbit vaddr AND ext_mask
      in bits = 0 \<or> bits = ext_mask)"

definition page_fault :: "MemoryAccessType \<Rightarrow> u64 \<Rightarrow> ('s, 'a) M" where
  "page_fault type vaddr =
     raise_trap (case type of FETCH \<Rightarrow> EXC_INSTR_PAGE_FAULT | LOAD \<Rightarrow> EXC_LOAD_PAGE_FAULT
       | STORE \<Rightarrow> EXC_STORE_AMO_PAGE_FAULT) vaddr"

text \<open>Whether the entry of a page permits the access.\<close>

definition access_permitted :: "bool \<Rightarrow> bool \<Rightarrow> bool \<Rightarrow> MemoryAccessType \<Rightarrow> u64 \<Rightarrow> bool" where
  "access_permitted smode smem make_x_r type pte =
     (if type = FETCH \<and> \<not> pte_flag PTE_X pte then False
      else if type = LOAD \<and> \<not> pte_flag PTE_R pte \<and> \<not> (make_x_r \<and> pte_flag PTE_X pte) then False
      else if type = STORE \<and> \<not> (pte_flag PTE_R pte \<and> pte_flag PTE_W pte) then False
      else if pte_flag PTE_U pte then \<not> (smode \<and> (type = FETCH \<or> \<not> smem))
      else smode)"

text \<open>
  The loop of \<open>walk\<close> over the levels of the page table, \<open>i\<close> counting down; leaving the loop is a
  page fault.
\<close>

primrec walk_loop ::
  "('q, 'd) board \<Rightarrow> vm_info \<Rightarrow> bool \<Rightarrow> bool \<Rightarrow> bool \<Rightarrow> u64 \<Rightarrow> MemoryAccessType \<Rightarrow> nat \<Rightarrow> u64 \<Rightarrow> (('q, 'd) core, u64) M"
where
  "walk_loop B vm smode smem make_x_r vaddr type 0 base = page_fault type vaddr"
| "walk_loop B vm smode smem make_x_r vaddr type (Suc i) base =
     (let ptshift = i * idxbits vm;
          vpn_field = drop_bit (PGSHIFT + ptshift) vaddr AND (push_bit (idxbits vm) 1 - 1);
          pte_paddr = base + vpn_field * of_nat (ptesize vm);
          pmask = push_bit ptshift 1 - 1
      in bindM (concrete_load_data B (if ptesize vm = 4 then 4 else 8) pte_paddr) (\<lambda>pte.
         let ppn = drop_bit PTE_PPN_SHIFT pte;
             ad = PTE_A OR (if type = STORE then PTE_D else 0)
         in if \<not> pte_flag PTE_V pte \<or> (\<not> pte_flag PTE_R pte \<and> pte_flag PTE_W pte) then page_fault type vaddr
            else if \<not> pte_flag PTE_R pte \<and> \<not> pte_flag PTE_X pte
            then walk_loop B vm smode smem make_x_r vaddr type i (push_bit PGSHIFT ppn)
            else if \<not> access_permitted smode smem make_x_r type pte then page_fault type vaddr
            else if ppn AND pmask \<noteq> 0 then page_fault type vaddr
            else if pte AND ad \<noteq> ad \<and> page_fault_on_AD B then page_fault type vaddr
            else seqM (whenM (pte AND ad \<noteq> ad) (concrete_store_data B 4 pte_paddr (pte OR ad)))
              (ret (push_bit PGSHIFT ((ppn AND NOT pmask) OR (drop_bit PGSHIFT vaddr AND pmask)) OR (vaddr AND PGMASK)))))"

definition walk :: "('q, 'd) board \<Rightarrow> u64 \<Rightarrow> MemoryAccessType \<Rightarrow> PrivilegeLevel \<Rightarrow> (('q, 'd) core, u64) M" where
  "walk B vaddr type mode = withS (\<lambda>s.
     bindM (decode_vm_info mode) (\<lambda>vm.
     walk_loop B vm (mode = SupervisorMode) (get_mstatus sum_bit (csrs s) \<noteq> 0) (get_mstatus mxr (csrs s) \<noteq> 0)
       vaddr type (if check_vaddr_extension vaddr vm then levels vm else 0) (ptbase vm)))"

definition effective_mode :: "MemoryAccessType \<Rightarrow> ('q, 'd) core \<Rightarrow> PrivilegeLevel" where
  "effective_mode type s =
     (if type \<noteq> FETCH \<and> get_mstatus mprv (csrs s) \<noteq> 0 then get_mstatus mpp (csrs s) else prv s)"

definition put_tlb :: "nat \<Rightarrow> nat \<Rightarrow> nat \<Rightarrow> u64 \<times> u64 \<Rightarrow> ('q, 'd) core \<Rightarrow> ('q, 'd) core" where
  "put_tlb mode type idx e = upd_soc (\<lambda>p. p\<lparr>tlb := (tlb p)(mode := (tlb p mode)(type := (tlb p mode type)(idx := e)))\<rparr>)"

text \<open>
  The entry of the TLB keeps \<open>paddr & ~PGMASK\<close>.  \<open>PGMASK\<close> is an \<open>unsigned\<close>, so that the complement
  has 32 bits and clears the upper half of the 64-bit address.
\<close>

definition translate_virtual_to_physical_addr ::
  "('q, 'd) board \<Rightarrow> u64 \<Rightarrow> MemoryAccessType \<Rightarrow> (('q, 'd) core, u64) M"
where
  "translate_virtual_to_physical_addr B vaddr type = withS (\<lambda>s.
     let mode = effective_mode type s;
         vpn = drop_bit PGSHIFT vaddr;
         idx = unat (vpn mod 256)
     in if bget satp_mode (csr_satp (csrs s)) = 0 then ret vaddr
        else if mode = MachineMode then ret vaddr
        else
          seqM (modify (upd_soc (keeper_inc B (3 * 10000))))
          (seqM (assertM (mode = 0 \<or> mode = 1) ''mode == 0 || mode == 1'')
          (bindM (gets (\<lambda>s. tlb (platform s) (unat mode) (access_index type) idx)) (\<lambda>(ppn, tag).
           if tag = vpn then ret (ppn OR (vaddr AND PGMASK))
           else
             bindM (walk B vaddr type mode) (\<lambda>paddr.
             seqM (modify (put_tlb (unat mode) (access_index type) idx (paddr AND ucast (NOT (0xFFF :: u32)), vpn)))
               (ret paddr))))))"

definition v2p :: "('q, 'd) board \<Rightarrow> u64 \<Rightarrow> MemoryAccessType \<Rightarrow> (('q, 'd) core, u64) M" where
  "v2p B vaddr type =
     (if with_mmu B then translate_virtual_to_physical_addr B vaddr type else ret vaddr)"

section \<open>The memory interface of the core\<close>

text \<open>A load translates its address as a store does, as the source has it.\<close>

definition cmi_store_data :: "('q, 'd) board \<Rightarrow> ConcolicValue \<Rightarrow> ConcolicValue \<Rightarrow> nat \<Rightarrow> (('q, 'd) core, unit) M" where
  "cmi_store_data B addr data num_bytes =
     seqM wait_for_access_rights
     (bindM (getValue32 addr) (\<lambda>caddr.
      bindM (v2p B (ucast caddr) STORE) (\<lambda>vaddr.
      do_write B vaddr data num_bytes)))"

definition cmi_load_data :: "('q, 'd) board \<Rightarrow> ConcolicValue \<Rightarrow> nat \<Rightarrow> (('q, 'd) core, ConcolicValue) M" where
  "cmi_load_data B addr num_bytes =
     seqM wait_for_access_rights
     (bindM (getValue32 addr) (\<lambda>caddr.
      bindM (v2p B (ucast caddr) STORE) (\<lambda>vaddr.
      do_read B vaddr num_bytes)))"

definition cmi_load_instr :: "('q, 'd) board \<Rightarrow> u32 \<Rightarrow> (('q, 'd) core, u32) M" where
  "cmi_load_instr B addr =
     bindM (v2p B (ucast addr) FETCH) (\<lambda>paddr.
     bindM (concrete_load_data B 4 paddr) (\<lambda>v. ret (ucast v)))"

definition load_sext :: "('q, 'd) board \<Rightarrow> nat \<Rightarrow> ConcolicValue \<Rightarrow> (('q, 'd) core, ConcolicValue) M" where
  "load_sext B n addr = bindM (cmi_load_data B addr n) (\<lambda>r. ret (cv_sext r 32))"

definition load_zext :: "('q, 'd) board \<Rightarrow> nat \<Rightarrow> ConcolicValue \<Rightarrow> (('q, 'd) core, ConcolicValue) M" where
  "load_zext B n addr = bindM (cmi_load_data B addr n) (\<lambda>r. ret (if cv_getWidth r < 32 then cv_zext r 32 else r))"

section \<open>The contract of the bus targets\<close>

definition payload_ok :: "assignment \<Rightarrow> tlm_payload \<Rightarrow> bool" where
  "payload_ok \<sigma> t \<longleftrightarrow> tlm_data t \<noteq> [] \<and> (\<forall>v. tlm_ext t = Some v \<longrightarrow> (\<exists>w. cv_ok \<sigma> w v))"

definition answer_ok :: "assignment \<Rightarrow> tlm_payload \<Rightarrow> tlm_payload \<Rightarrow> bool" where
  "answer_ok \<sigma> t t' \<longleftrightarrow> tlm_cmd t' = tlm_cmd t \<and> length (tlm_data t') = length (tlm_data t) \<and>
     (tlm_cmd t = TLM_READ_COMMAND \<and> tlm_ext t = None \<longrightarrow>
        (\<forall>v. tlm_ext t' = Some v \<longrightarrow> cv_ok \<sigma> (8 * length (tlm_data t)) v))"

definition env_post :: "('p \<Rightarrow> bool) \<Rightarrow> 'p ISS \<Rightarrow> 'p ISS \<Rightarrow> bool" where
  "env_post plat s s' \<longleftrightarrow> frame s s' \<and> plat (platform s')"

abbreviation env_err :: "('p \<Rightarrow> bool) \<Rightarrow> 'p ISS \<Rightarrow> error \<Rightarrow> 'p ISS \<Rightarrow> bool" where
  "env_err plat s \<equiv> \<lambda>e s'. env_post plat s s' \<and> env_error e"

lemma env_post_refl: "core_inv plat \<sigma> s \<Longrightarrow> env_post plat s s"
  by (simp add: env_post_def core_inv_def)

lemma env_post_trans: "env_post plat a b \<Longrightarrow> env_post plat b c \<Longrightarrow> env_post plat a c"
  unfolding env_post_def using frame_trans by blast

lemma env_post_inv: "core_inv plat \<sigma> s \<Longrightarrow> env_post plat s s' \<Longrightarrow> core_inv plat \<sigma> s'"
  unfolding env_post_def using core_inv_frame by blast

text \<open>A computation that keeps the contract from every state of the environment it may be run in.\<close>

definition env_run :: "('p \<Rightarrow> bool) \<Rightarrow> assignment \<Rightarrow> ('p ISS, 'a) M \<Rightarrow> ('a \<Rightarrow> bool) \<Rightarrow> bool" where
  "env_run plat \<sigma> m R \<longleftrightarrow> (\<forall>s. core_inv plat \<sigma> s \<longrightarrow> wp m (\<lambda>x s'. R x \<and> env_post plat s s') (env_err plat s) s)"

named_theorems env_intros \<open>computations that keep the contract of the environment\<close>

lemma env_runI:
  "(\<And>s. core_inv plat \<sigma> s \<Longrightarrow> wp m (\<lambda>x s'. R x \<and> env_post plat s s') (env_err plat s) s) \<Longrightarrow> env_run plat \<sigma> m R"
  by (simp add: env_run_def)

lemma env_runD:
  "env_run plat \<sigma> m R \<Longrightarrow> core_inv plat \<sigma> s \<Longrightarrow> wp m (\<lambda>x s'. R x \<and> env_post plat s s') (env_err plat s) s"
  by (simp add: env_run_def)

lemma env_run_bindM:
  assumes "env_run plat \<sigma> m R" and "\<And>x. R x \<Longrightarrow> env_run plat \<sigma> (f x) R'"
  shows "env_run plat \<sigma> (bindM m f) R'"
proof (rule env_runI)
  fix s assume s: "core_inv plat \<sigma> s"
  show "wp (bindM m f) (\<lambda>x s'. R' x \<and> env_post plat s s') (env_err plat s) s"
    unfolding wp_bindM
  proof (rule wp_mono [OF env_runD [OF assms(1) s]])
    fix x t assume t: "R x \<and> env_post plat s t"
    then have "wp (f x) (\<lambda>x s'. R' x \<and> env_post plat t s') (env_err plat t) t"
      using assms(2) env_post_inv [OF s] by (intro env_runD) auto
    then show "wp (f x) (\<lambda>x s'. R' x \<and> env_post plat s s') (env_err plat s) t"
      by (rule wp_mono) (use t env_post_trans in blast)+
  qed
qed

lemma env_run_seqM:
  "env_run plat \<sigma> m R \<Longrightarrow> env_run plat \<sigma> n R' \<Longrightarrow> env_run plat \<sigma> (seqM m n) R'"
  unfolding seqM_def by (rule env_run_bindM)

lemma env_run_withS:
  "(\<And>s. core_inv plat \<sigma> s \<Longrightarrow> env_run plat \<sigma> (f s) R) \<Longrightarrow> env_run plat \<sigma> (withS f) R"
  by (simp add: env_run_def wp_withS)

lemma env_run_basic [env_intros]:
  "R x \<Longrightarrow> env_run plat \<sigma> (ret x) R" "env_error e \<Longrightarrow> env_run plat \<sigma> (throw e) R"
  "env_run plat \<sigma> (raise_trap r a) R" "(\<And>s. core_inv plat \<sigma> s \<Longrightarrow> R (g s)) \<Longrightarrow> env_run plat \<sigma> (gets g) R"
  by (auto simp: env_run_def wp_simps raise_trap_def env_post_refl)

lemma env_run_cond [env_intros]:
  "(b \<Longrightarrow> env_run plat \<sigma> m R) \<Longrightarrow> (\<not> b \<Longrightarrow> env_run plat \<sigma> n R) \<Longrightarrow> env_run plat \<sigma> (if b then m else n) R"
  "(\<not> b \<Longrightarrow> msg \<in> env_assertions) \<Longrightarrow> env_run plat \<sigma> (assertM b msg) (\<lambda>_. b)"
  "(b \<Longrightarrow> env_run plat \<sigma> k (\<lambda>_. True)) \<Longrightarrow> env_run plat \<sigma> (whenM b k) (\<lambda>_. True)"
  by (auto simp: env_run_def wp_simps env_post_refl)

lemma env_run_of_option [env_intros]:
  "(\<And>v. y = Some v \<Longrightarrow> R v) \<Longrightarrow> (y = None \<Longrightarrow> env_error e) \<Longrightarrow> env_run plat \<sigma> (of_option e y) R"
  by (auto simp: env_run_def wp_simps env_post_refl split: option.split)

lemma env_run_weaken: "env_run plat \<sigma> m R \<Longrightarrow> (\<And>x. R x \<Longrightarrow> R' x) \<Longrightarrow> env_run plat \<sigma> m R'"
  unfolding env_run_def by (blast intro: wp_mono)

lemma env_run_modify:
  "(\<And>s. core_inv plat \<sigma> s \<Longrightarrow> env_post plat s (g s)) \<Longrightarrow> env_run plat \<sigma> (modify g) (\<lambda>_. True)"
  by (simp add: env_run_def wp_simps)

lemma env_run_getValue32: "cv_ok \<sigma> 32 v \<Longrightarrow> env_run plat \<sigma> (getValue32 v) (\<lambda>_. True)"
  by (simp add: env_run_def getValue32_wp env_post_refl)

lemma env_run_access_rights [env_intros]: "env_run plat \<sigma> wait_for_access_rights (\<lambda>_. True)"
  unfolding wait_for_access_rights_def by (intro env_run_withS env_intros) simp

lemma upd_soc_frame [simp]: "frame s (upd_soc f s)" "platform (upd_soc f s) = f (platform s)"
  by (simp_all add: frame_def upd_soc_def)

lemma to_bytes_length [simp]: "length (to_bytes n v) = n"
  by (simp add: to_bytes_def)

lemma to_bytes_empty [simp]: "to_bytes n v = [] \<longleftrightarrow> n = 0"
  by (simp add: to_bytes_def)

locale tlm_bus =
  fixes B :: "('q, 'd) board" and plat :: "('q, 'd) soc \<Rightarrow> bool" and \<sigma> :: assignment
  assumes target: "decode (ports B) a = Some (q, t) \<Longrightarrow> payload_ok \<sigma> pl \<Longrightarrow>
      env_run plat \<sigma> (t pl delay) (\<lambda>(pl', _). answer_ok \<sigma> pl pl')"
    and plat_kernel: "plat p \<Longrightarrow> plat (p\<lparr>kernel := k\<rparr>)"
    and plat_tlb: "plat p \<Longrightarrow> plat (p\<lparr>tlb := e\<rparr>)"
begin

lemma env_run_upd_soc:
  "(\<And>p. plat p \<Longrightarrow> plat (f p)) \<Longrightarrow> env_run plat \<sigma> (modify (upd_soc f)) (\<lambda>_. True)"
  by (rule env_run_modify) (simp add: env_post_def core_inv_def)

lemma env_run_keeper: "env_run plat \<sigma> (modify (keeper_set B d)) (\<lambda>_. True)"
  "env_run plat \<sigma> (modify (upd_soc (keeper_inc B d))) (\<lambda>_. True)"
  "env_run plat \<sigma> (modify (put_tlb m ty i e)) (\<lambda>_. True)"
  unfolding keeper_set_def put_tlb_def
  by (rule env_run_upd_soc, simp add: keeper_inc_def plat_kernel plat_tlb)+

lemma transport_run:
  assumes "payload_ok \<sigma> pl"
  shows "env_run plat \<sigma> (transport (ports B) pl delay) (\<lambda>(pl', _). answer_ok \<sigma> pl pl')"
proof (cases "decode (ports B) (tlm_addr pl)")
  case None
  then show ?thesis by (auto simp: transport_def answer_ok_def intro!: env_run_basic(1))
next
  case (Some pt)
  have "payload_ok \<sigma> (pl\<lparr>tlm_addr := a\<rparr>)" for a using assms by (simp add: payload_ok_def)
  then have "env_run plat \<sigma> (snd pt (pl\<lparr>tlm_addr := global_to_local (fst pt) (tlm_addr pl)\<rparr>) delay)
      (\<lambda>(pl', _). answer_ok \<sigma> (pl\<lparr>tlm_addr := global_to_local (fst pt) (tlm_addr pl)\<rparr>) pl')"
    using target [of _ "fst pt" "snd pt"] Some by simp
  then show ?thesis using Some by (auto simp: transport_def answer_ok_def split: prod.split)
qed

lemma do_transaction_run:
  assumes "payload_ok \<sigma> pl"
  shows "env_run plat \<sigma> (do_transaction B pl) (answer_ok \<sigma> pl)"
proof -
  have r: "env_run plat \<sigma> (check_response t) (answer_ok \<sigma> pl)" if "answer_ok \<sigma> pl t" for t
    using that by (auto simp: check_response_def intro!: env_intros split: tlm_command.split)
  show ?thesis unfolding do_transaction_def
    apply (rule env_run_withS, rule env_run_bindM [OF transport_run [OF assms]])
    apply (clarsimp split del: if_split)
    apply (rule env_run_bindM [OF env_run_basic(4) [where R = "\<lambda>_. True"]], simp)
    apply (rule env_run_seqM [OF env_run_cond(2)], simp add: env_assertions_def)
    by (rule env_run_seqM [OF env_run_keeper(1)], rule r)
qed

lemma do_write_run:
  assumes "cv_ok \<sigma> w v" and "0 < n"
  shows "env_run plat \<sigma> (do_write B addr v n) (\<lambda>_. True)"
proof -
  have "payload_ok \<sigma> (payload TLM_WRITE_COMMAND addr buf (Some v))" if "BVCToBytes v n = Some buf" for buf
    using that assms BVCToBytes_ok [OF assms(1), of n] by (auto simp: payload_ok_def payload_def)
  then show ?thesis unfolding do_write_def
    by (intro env_run_bindM [OF env_run_of_option [where R = "\<lambda>b. BVCToBytes v n = Some b"]]
        env_run_bindM [OF do_transaction_run] env_run_basic) auto
qed

lemma read_payload: "0 < n \<Longrightarrow> payload_ok \<sigma> (payload TLM_READ_COMMAND addr (replicate n 0) None)"
  by (simp add: payload_ok_def payload_def)

lemma do_read_run:
  assumes "0 < n"
  shows "env_run plat \<sigma> (do_read B addr n) (cv_ok \<sigma> (8 * n))"
  unfolding do_read_def
proof (rule env_run_bindM [OF do_transaction_run [OF read_payload [OF assms]]])
  fix t assume t: "answer_ok \<sigma> (payload TLM_READ_COMMAND addr (replicate n 0) None) t"
  then have "length (tlm_data t) = n" by (simp add: answer_ok_def payload_def)
  with assms BVC_bytes_ok [of "tlm_data t" \<sigma>] have "cv_ok \<sigma> (8 * n) v" if "BVC_bytes (tlm_data t) = Some v" for v
    using that by (metis length_greater_0_conv option.inject)
  with t show "env_run plat \<sigma> (case tlm_ext t of None \<Rightarrow> of_option NullPointer (BVC_bytes (tlm_data t)) | Some v \<Rightarrow> ret v)
       (cv_ok \<sigma> (8 * n))"
    by (auto split: option.split intro!: env_intros simp: answer_ok_def payload_def)
qed

lemma concrete_run [env_intros]:
  "0 < n \<Longrightarrow> env_run plat \<sigma> (concrete_load_data B n addr) (\<lambda>_. True)"
  "0 < n \<Longrightarrow> env_run plat \<sigma> (concrete_store_data B n addr v) (\<lambda>_. True)"
  unfolding concrete_load_data_def concrete_store_data_def
  by (rule env_run_seqM [OF env_run_access_rights] env_run_bindM [OF do_transaction_run] env_run_basic read_payload
      | simp add: payload_ok_def payload_def; fail)+

lemma walk_loop_run: "env_run plat \<sigma> (walk_loop B vm sm smem mx vaddr type i base) (\<lambda>_. True)"
proof (induction i arbitrary: base)
  case 0
  then show ?case by (simp add: page_fault_def env_intros)
next
  case (Suc i)
  then show ?case unfolding walk_loop.simps Let_def page_fault_def
    by (intro env_run_bindM [OF concrete_run(1)] env_run_seqM [OF env_run_cond(3)] env_intros) simp_all
qed

lemma walk_run:
  assumes "mode = 0 \<or> mode = 1"
  shows "env_run plat \<sigma> (walk B vaddr type mode) (\<lambda>_. True)"
proof -
  have "env_run plat \<sigma> (decode_vm_info mode) (\<lambda>_. True)"
    unfolding decode_vm_info_def Let_def
    by (intro env_run_seqM [where R = "\<lambda>_. True"] env_run_withS)
      (use assms in \<open>auto simp: switch_def intro!: env_intros env_run_weaken [OF env_run_cond(2)]\<close>)
  then show ?thesis unfolding walk_def by (intro env_run_withS env_run_bindM walk_loop_run)
qed

lemma v2p_run: "env_run plat \<sigma> (v2p B vaddr type) (\<lambda>_. True)"
  unfolding v2p_def translate_virtual_to_physical_addr_def Let_def
  by (auto intro!: env_run_withS env_run_bindM [OF env_run_basic(4)] env_intros env_run_seqM [OF env_run_keeper(2)]
      env_run_seqM [OF env_run_keeper(3)] env_run_bindM [OF env_run_cond(2)] env_run_bindM [OF walk_run]
      simp: seqM_def [of "assertM _ _"] env_assertions_def split: prod.split)

lemma load_run:
  assumes "cv_ok \<sigma> 32 addr" and "0 < n"
  shows "env_run plat \<sigma> (cmi_load_data B addr n) (cv_ok \<sigma> (8 * n))"
  unfolding cmi_load_data_def
  by (intro env_run_seqM [OF env_run_access_rights] env_run_bindM [OF env_run_getValue32 [OF assms(1)]]
      env_run_bindM [OF v2p_run] do_read_run assms(2))

lemma store_run:
  assumes "cv_ok \<sigma> 32 addr" and "cv_ok \<sigma> w v" and "0 < n"
  shows "env_run plat \<sigma> (cmi_store_data B addr v n) (\<lambda>_. True)"
  unfolding cmi_store_data_def
  by (intro env_run_seqM [OF env_run_access_rights] env_run_bindM [OF env_run_getValue32 [OF assms(1)]]
      env_run_bindM [OF v2p_run] do_write_run [OF assms(2,3)])

lemma extended_load_run:
  assumes "cv_ok \<sigma> 32 addr" and "0 < n" and "n \<le> 4"
  shows "env_run plat \<sigma> (load_sext B n addr) (cv_ok \<sigma> 32)" "env_run plat \<sigma> (load_zext B n addr) (cv_ok \<sigma> 32)"
  unfolding load_sext_def load_zext_def
  by (intro env_run_bindM [OF load_run [OF assms(1,2)]] env_run_basic(1);
      use assms(3) in \<open>auto simp: cv_ok_widths intro!: cv_sext_ok cv_zext_ok\<close>)+

lemma fetch_run: "env_run plat \<sigma> (cmi_load_instr B a) (\<lambda>_. True)"
  unfolding cmi_load_instr_def by (intro env_run_bindM [OF v2p_run] env_run_bindM [OF concrete_run(1)] env_intros) simp_all

end

end
