(* ===== verification/VP_Devices.thy ===== *)
theory VP_Devices
  imports RV_Memory
begin

text \<open>
  Memory-mapped registers (\<open>util/memory_map.h\<close>) and the core-local interruptor
  (\<open>core/common/clint.h\<close>).  A register range is a byte buffer with callbacks around its reads and
  writes; the views read and write integers in the buffer.
\<close>

section \<open>Register ranges\<close>

record RegisterRange =
  rr_start :: u64
  rr_end :: u64
  rr_mem :: "u8 list"
  rr_readonly :: bool
  rr_alignment :: u64

definition newRegisterRange :: "u64 \<Rightarrow> u64 \<Rightarrow> error + RegisterRange" where
  "newRegisterRange start sz =
     (if \<not> sz > 0 then Inl (AssertionFailed ''size > 0'')
      else if \<not> start + sz - 1 \<ge> start then Inl (AssertionFailed ''end >= start'')
      else Inr \<lparr>rr_start = start, rr_end = start + sz - 1, rr_mem = replicate (unat sz) 0,
        rr_readonly = False, rr_alignment = 1\<rparr>)"

definition make_start_end :: "u64 \<Rightarrow> u64 \<Rightarrow> error + RegisterRange" where
  "make_start_end start stop =
     (if stop \<ge> start then newRegisterRange start (stop - start + 1) else Inl (AssertionFailed ''end >= start''))"

definition rr_contains :: "RegisterRange \<Rightarrow> u64 \<Rightarrow> bool" where
  "rr_contains r addr \<longleftrightarrow> rr_start r \<le> addr \<and> addr \<le> rr_end r"

definition to_local :: "RegisterRange \<Rightarrow> u64 \<Rightarrow> u64" where
  "to_local r addr = addr - rr_start r"

text \<open>
  The callbacks get the local address, the payload and the delay.  \<open>rr_get\<close> and \<open>rr_put\<close> locate the
  range in the state of the device it belongs to.
\<close>

record 's range_ops =
  rr_get :: "'s \<Rightarrow> RegisterRange"
  rr_put :: "RegisterRange \<Rightarrow> 's \<Rightarrow> 's"
  pre_write_callback :: "(u64 \<Rightarrow> tlm_payload \<Rightarrow> u64 \<Rightarrow> ('s, bool) M) option"
  post_write_callback :: "(u64 \<Rightarrow> tlm_payload \<Rightarrow> u64 \<Rightarrow> ('s, unit) M) option"
  pre_read_callback :: "(u64 \<Rightarrow> tlm_payload \<Rightarrow> u64 \<Rightarrow> ('s, bool) M) option"
  post_read_callback :: "(u64 \<Rightarrow> tlm_payload \<Rightarrow> u64 \<Rightarrow> ('s, unit) M) option"

definition put_bytes :: "nat \<Rightarrow> 'a list \<Rightarrow> 'a list \<Rightarrow> 'a list" where
  "put_bytes i src xs = take i xs @ src @ drop (i + length src) xs"

definition call_pre :: "(u64 \<Rightarrow> tlm_payload \<Rightarrow> u64 \<Rightarrow> ('s, bool) M) option \<Rightarrow> u64 \<Rightarrow> tlm_payload \<Rightarrow> u64 \<Rightarrow> ('s, bool) M" where
  "call_pre cb a pl d = (case cb of None \<Rightarrow> ret True | Some f \<Rightarrow> f a pl d)"

definition call_post :: "(u64 \<Rightarrow> tlm_payload \<Rightarrow> u64 \<Rightarrow> ('s, unit) M) option \<Rightarrow> u64 \<Rightarrow> tlm_payload \<Rightarrow> u64 \<Rightarrow> ('s, unit) M" where
  "call_post cb a pl d = (case cb of None \<Rightarrow> ret () | Some f \<Rightarrow> f a pl d)"

definition rr_check :: "RegisterRange \<Rightarrow> u64 \<Rightarrow> nat \<Rightarrow> ('s, unit) M" where
  "rr_check r addr len =
     seqM (assertM (rr_contains r addr) ''contains(addr)'')
       (assertM (to_local r addr + of_nat len \<le> of_nat (length (rr_mem r))) ''local_addr + len <= mem.size()'')"

definition rr_write :: "'s range_ops \<Rightarrow> u64 \<Rightarrow> u8 list \<Rightarrow> tlm_payload \<Rightarrow> u64 \<Rightarrow> ('s, unit) M" where
  "rr_write R addr src pl delay =
     bindM (gets (rr_get R)) (\<lambda>r.
     seqM (rr_check r addr (length src))
     (let local_addr = to_local r addr in
      bindM (call_pre (pre_write_callback R) local_addr pl delay) (\<lambda>go.
      whenM go
        (seqM (modify (\<lambda>s. rr_put R ((rr_get R s)\<lparr>rr_mem := put_bytes (unat local_addr) src (rr_mem (rr_get R s))\<rparr>) s))
          (call_post (post_write_callback R) local_addr pl delay)))))"

definition rr_read :: "'s range_ops \<Rightarrow> u64 \<Rightarrow> u8 list \<Rightarrow> tlm_payload \<Rightarrow> u64 \<Rightarrow> ('s, u8 list) M" where
  "rr_read R addr dst pl delay =
     bindM (gets (rr_get R)) (\<lambda>r.
     seqM (rr_check r addr (length dst))
     (let local_addr = to_local r addr in
      bindM (call_pre (pre_read_callback R) local_addr pl delay) (\<lambda>go.
      if go then
        bindM (gets (\<lambda>s. take (length dst) (drop (unat local_addr) (rr_mem (rr_get R s))))) (\<lambda>bs.
        seqM (call_post (post_read_callback R) local_addr pl delay) (ret bs))
      else ret dst)))"

definition ensure :: "bool \<Rightarrow> ('s, unit) M" where
  "ensure cond = whenM (\<not> cond) (throw (RuntimeError ''runtime assertion failed''))"

definition process :: "'s range_ops \<Rightarrow> tlm_payload \<Rightarrow> u64 \<Rightarrow> ('s, tlm_payload) M" where
  "process R pl delay =
     bindM (gets (rr_get R)) (\<lambda>r.
     seqM (ensure (tlm_addr pl mod rr_alignment r = 0 \<and> of_nat (length (tlm_data pl)) mod rr_alignment r = 0))
     (case tlm_cmd pl of
        TLM_READ_COMMAND \<Rightarrow>
          bindM (rr_read R (tlm_addr pl) (tlm_data pl) pl delay) (\<lambda>bs. ret (pl\<lparr>tlm_data := bs\<rparr>))
      | TLM_WRITE_COMMAND \<Rightarrow>
          seqM (ensure (\<not> rr_readonly r)) (seqM (rr_write R (tlm_addr pl) (tlm_data pl) pl delay) (ret pl))
      | TLM_IGNORE_COMMAND \<Rightarrow> throw (RuntimeError ''unsupported TLM command'')))"

primrec route :: "string \<Rightarrow> 's range_ops list \<Rightarrow> tlm_payload \<Rightarrow> u64 \<Rightarrow> ('s, tlm_payload) M" where
  "route name [] pl delay = throw (RuntimeError (name @ '' unable to route address '' @ to_string (unat (tlm_addr pl))))"
| "route name (R # Rs) pl delay =
     bindM (gets (rr_get R)) (\<lambda>r.
       if rr_contains r (tlm_addr pl) then process R pl delay else route name Rs pl delay)"

section \<open>Views\<close>

text \<open>\<open>view n idx\<close> is the integer of \<open>n\<close> bytes at index \<open>idx\<close> of the buffer, little endian.\<close>

definition view_read :: "nat \<Rightarrow> RegisterRange \<Rightarrow> nat \<Rightarrow> u64" where
  "view_read n r idx = of_bytes (take n (drop (n * idx) (rr_mem r)))"

definition view_write :: "nat \<Rightarrow> nat \<Rightarrow> u64 \<Rightarrow> RegisterRange \<Rightarrow> RegisterRange" where
  "view_write n idx v r = r\<lparr>rr_mem := put_bytes (n * idx) (to_bytes n v) (rr_mem r)\<rparr>"

definition view_at :: "nat \<Rightarrow> RegisterRange \<Rightarrow> nat \<Rightarrow> ('s, u64) M" where
  "view_at n r idx =
     (if idx \<ge> length (rr_mem r) div n then throw OutOfRange else ret (view_read n r idx))"

section \<open>The interruptor\<close>

record CLINT =
  regs_mtime :: RegisterRange
  regs_mtimecmp :: RegisterRange
  regs_msip :: RegisterRange

definition clint_range :: "u64 \<Rightarrow> nat \<Rightarrow> RegisterRange" where
  "clint_range start n = \<lparr>rr_start = start, rr_end = start + of_nat n - 1, rr_mem = replicate n 0,
     rr_readonly = False, rr_alignment = 4\<rparr>"

definition newCLINT :: "nat \<Rightarrow> CLINT" where
  "newCLINT NumberOfCores = \<lparr>regs_mtime = clint_range 0xBFF8 8,
     regs_mtimecmp = clint_range 0x4000 (8 * NumberOfCores), regs_msip = clint_range 0 (4 * NumberOfCores)\<rparr>"

definition mtime :: "CLINT \<Rightarrow> u64" where
  "mtime c = view_read 8 (regs_mtime c) 0"

definition put_mtime :: "u64 \<Rightarrow> CLINT \<Rightarrow> CLINT" where
  "put_mtime v c = c\<lparr>regs_mtime := view_write 8 0 v (regs_mtime c)\<rparr>"

definition mtimecmp :: "CLINT \<Rightarrow> nat \<Rightarrow> u64" where
  "mtimecmp c i = view_read 8 (regs_mtimecmp c) i"

text \<open>From picoseconds to microseconds.\<close>

definition scaler :: u64 where
  "scaler = 1000000"

definition clint_update_mtime :: "u64 \<Rightarrow> CLINT \<Rightarrow> CLINT" where
  "clint_update_mtime time_stamp c =
     (let now = time_stamp div scaler in if now > mtime c then put_mtime now c else c)"

text \<open>
  The body of the loop in \<open>run\<close>, after \<open>irq_event\<close> has been notified: the timer interrupts of the
  harts in order, and the delays after which the event is to be notified again.
\<close>

definition clint_hart :: "CLINT \<Rightarrow> nat \<Rightarrow> irq_event \<times> u64 option" where
  "clint_hart c i =
     (let cmp = mtimecmp c i in
      if cmp > 0 \<and> mtime c \<ge> cmp then (Timer_irq True, None)
      else (Timer_irq False, if cmp > 0 \<and> cmp < - 1 then Some (cmp * scaler - mtime c * scaler) else None))"

definition clint_run :: "nat \<Rightarrow> u64 \<Rightarrow> CLINT \<Rightarrow> CLINT \<times> (irq_event \<times> u64 option) list" where
  "clint_run NumberOfCores time_stamp c =
     (let c' = clint_update_mtime time_stamp c in (c', map (clint_hart c') [0..<NumberOfCores]))"

text \<open>
  The register map of the interruptor of a platform with one hart.  \<open>L\<close> locates the interruptor
  among the devices.
\<close>

type_synonym 'd clint_lens = "('d \<Rightarrow> CLINT) \<times> (CLINT \<Rightarrow> 'd \<Rightarrow> 'd)"

definition the_clint :: "'d clint_lens \<Rightarrow> ('q, 'd) core \<Rightarrow> CLINT" where
  "the_clint L s = fst L (devices (platform s))"

definition upd_clint :: "'d clint_lens \<Rightarrow> (CLINT \<Rightarrow> CLINT) \<Rightarrow> ('q, 'd) core \<Rightarrow> ('q, 'd) core" where
  "upd_clint L f = upd_soc (\<lambda>p. p\<lparr>devices := snd L (f (fst L (devices p))) (devices p)\<rparr>)"

definition pre_read_mtime ::
  "'q systemc \<Rightarrow> 'd clint_lens \<Rightarrow> u64 \<Rightarrow> tlm_payload \<Rightarrow> u64 \<Rightarrow> (('q, 'd) core, bool) M"
where
  "pre_read_mtime K L addr pl delay =
     seqM (modify (\<lambda>s. upd_clint L (put_mtime ((sc_time_stamp K (kernel (platform s)) + delay) div scaler)) s))
       (ret True)"

definition post_write_mtimecmp :: "'q systemc \<Rightarrow> u64 \<Rightarrow> tlm_payload \<Rightarrow> u64 \<Rightarrow> (('q, 'd) core, unit) M" where
  "post_write_mtimecmp K addr pl delay =
     modify (upd_soc (\<lambda>p. p\<lparr>kernel := notify_irq_event K delay (kernel p)\<rparr>))"

definition post_write_msip :: "'d clint_lens \<Rightarrow> u64 \<Rightarrow> tlm_payload \<Rightarrow> u64 \<Rightarrow> (('q, 'd) core, unit) M" where
  "post_write_msip L addr pl delay =
     seqM (assertM (addr mod 4 = 0) ''t.addr % 4 == 0'')
     (let idx = unat (addr div 4) in
      seqM (modify (upd_clint L (\<lambda>c. c\<lparr>regs_msip := view_write 4 idx (view_read 4 (regs_msip c) idx AND 1) (regs_msip c)\<rparr>)))
        (modify (\<lambda>s. trigger_software_interrupt (view_read 4 (regs_msip (the_clint L s)) idx \<noteq> 0) s)))"

definition range_of :: "'d clint_lens \<Rightarrow> (CLINT \<Rightarrow> RegisterRange) \<Rightarrow> ((RegisterRange \<Rightarrow> RegisterRange) \<Rightarrow> CLINT \<Rightarrow> CLINT) \<Rightarrow>
    ('q, 'd) core range_ops" where
  "range_of L g u = \<lparr>rr_get = \<lambda>s. g (the_clint L s), rr_put = \<lambda>r. upd_clint L (u (\<lambda>_. r)),
     pre_write_callback = None, post_write_callback = None, pre_read_callback = None, post_read_callback = None\<rparr>"

definition clint_ranges :: "'q systemc \<Rightarrow> 'd clint_lens \<Rightarrow> ('q, 'd) core range_ops list" where
  "clint_ranges K L =
     [(range_of L regs_mtime regs_mtime_update)\<lparr>pre_read_callback := Some (pre_read_mtime K L)\<rparr>,
      (range_of L regs_mtimecmp regs_mtimecmp_update)\<lparr>post_write_callback := Some (post_write_mtimecmp K)\<rparr>,
      (range_of L regs_msip regs_msip_update)\<lparr>post_write_callback := Some (post_write_msip L)\<rparr>]"

definition clint_transport :: "'q systemc \<Rightarrow> 'd clint_lens \<Rightarrow> ('q, 'd) core target" where
  "clint_transport K L pl delay =
     bindM (route ''CLINT'' (clint_ranges K L) pl (delay + 2 * 10000)) (\<lambda>pl'. ret (pl', delay + 2 * 10000))"

text \<open>\<open>update_and_get_mtime\<close>, and the process of the interruptor as the kernel wakes it up.\<close>

definition clint_update_and_get_mtime :: "'q systemc \<Rightarrow> 'd clint_lens \<Rightarrow> ('q, 'd) soc \<Rightarrow> u64 \<times> ('q, 'd) soc" where
  "clint_update_and_get_mtime K L p =
     (let c = clint_update_mtime (sc_time_stamp K (kernel p)) (fst L (devices p))
      in (mtime c, p\<lparr>devices := snd L c (devices p)\<rparr>))"

definition clint_wakeup :: "'q systemc \<Rightarrow> 'd clint_lens \<Rightarrow> u64 \<Rightarrow> ('q, 'd) soc \<times> irq_event list \<Rightarrow> ('q, 'd) soc \<times> irq_event list" where
  "clint_wakeup K L t r =
     (let (c, out) = clint_run 1 t (fst L (devices (fst r)));
          k = fold (\<lambda>d k. notify_irq_event K d k) (List.map_filter snd out) (kernel (fst r))
      in ((fst r)\<lparr>devices := snd L c (devices (fst r)), kernel := k\<rparr>, snd r @ map fst out))"

end
