(* ===== verification/VP_Syscall.thy ===== *)
theory VP_Syscall
  imports VP_Devices
begin

text \<open>
  The emulation of system calls (\<open>core/rv32/syscall.h\<close>, \<open>syscall.cpp\<close>).  The calls of the host's C
  library are the parameter \<open>host\<close>; they work on the host's own state and memory.  Both symbolic
  platforms pass a null pointer for the guest's memory, so that every call that has to touch it
  fails its assertion.
\<close>

section \<open>The host\<close>

record rv32_stat =
  st_dev :: u64
  st_ino :: u64
  st_mode :: u32
  st_nlink :: u32
  st_uid :: u32
  st_gid :: u32
  st_rdev :: u64
  st_size :: u64
  st_blksize :: u32
  st_blocks :: u64
  st_atim :: "u32 \<times> u32"
  st_mtim :: "u32 \<times> u32"
  st_ctim :: "u32 \<times> u32"

text \<open>
  \<open>h_poke\<close> stores bytes at an address of the host.  \<open>h_report\<close> is \<open>SC_REPORT_ERROR\<close>: it tells whether
  the report handler returns.
\<close>

record 'h host =
  h_fstat :: "int \<Rightarrow> 'h \<Rightarrow> (int \<times> rv32_stat) \<times> 'h"
  h_gettimeofday :: "'h \<Rightarrow> (int \<times> u32 \<times> u32) \<times> 'h"
  h_time :: "'h \<Rightarrow> int \<times> 'h"
  h_write :: "int \<Rightarrow> u64 \<Rightarrow> u64 \<Rightarrow> 'h \<Rightarrow> int \<times> 'h"
  h_read :: "int \<Rightarrow> u64 \<Rightarrow> u64 \<Rightarrow> 'h \<Rightarrow> int \<times> 'h"
  h_lseek :: "int \<Rightarrow> int \<Rightarrow> int \<Rightarrow> 'h \<Rightarrow> int \<times> 'h"
  h_open :: "u64 \<Rightarrow> int \<Rightarrow> u32 \<Rightarrow> 'h \<Rightarrow> int \<times> 'h"
  h_close :: "int \<Rightarrow> 'h \<Rightarrow> int \<times> 'h"
  h_poke_stat :: "u64 \<Rightarrow> rv32_stat \<Rightarrow> 'h \<Rightarrow> 'h"
  h_poke_words :: "u64 \<Rightarrow> u32 list \<Rightarrow> 'h \<Rightarrow> 'h"
  h_report :: "'h \<Rightarrow> bool \<times> 'h"
  h_rand :: "'h \<Rightarrow> nat \<times> 'h"

section \<open>The handler\<close>

record SyscallHandler =
  sys_cores :: "u64 set"
  sys_mem :: "u64 option"
  sys_mem_offset :: u64
  sys_hp :: u64
  sys_shall_exit :: bool
  sys_start_heap :: u64
  sys_max_heap :: u64

record 'h symex_devices =
  dev_mem :: SymbolicMemory
  dev_clint :: CLINT
  dev_sys :: SyscallHandler
  dev_host :: 'h

type_synonym ('q, 'h) symex_core = "('q, 'h symex_devices) core"

definition newSyscallHandler :: SyscallHandler where
  "newSyscallHandler = \<lparr>sys_cores = {}, sys_mem = None, sys_mem_offset = 0, sys_hp = 0, sys_shall_exit = False,
     sys_start_heap = 0, sys_max_heap = 0\<rparr>"

definition register_core :: "u64 \<Rightarrow> SyscallHandler \<Rightarrow> error + SyscallHandler" where
  "register_core hart_id h =
     (if hart_id \<in> sys_cores h then Inl (AssertionFailed ''cores.find(core->get_hart_id()) == cores.end()'')
      else Inr (h\<lparr>sys_cores := insert hart_id (sys_cores h)\<rparr>))"

definition sys_init :: "u64 option \<Rightarrow> u64 \<Rightarrow> u64 \<Rightarrow> SyscallHandler \<Rightarrow> SyscallHandler" where
  "sys_init host_memory_pointer mem_start_address heap_pointer_address h =
     h\<lparr>sys_mem := host_memory_pointer, sys_mem_offset := mem_start_address, sys_hp := heap_pointer_address,
       sys_start_heap := heap_pointer_address, sys_max_heap := heap_pointer_address\<rparr>"

definition get_max_heap_memory_consumption :: "SyscallHandler \<Rightarrow> u64" where
  "get_max_heap_memory_consumption h = sys_max_heap h - sys_start_heap h"

abbreviation the_sys :: "('q, 'h) symex_core \<Rightarrow> SyscallHandler" where
  "the_sys s \<equiv> dev_sys (devices (platform s))"

definition upd_sys :: "(SyscallHandler \<Rightarrow> SyscallHandler) \<Rightarrow> ('q, 'h) symex_core \<Rightarrow> ('q, 'h) symex_core" where
  "upd_sys f = upd_soc (\<lambda>p. p\<lparr>devices := (devices p)\<lparr>dev_sys := f (dev_sys (devices p))\<rparr>\<rparr>)"

definition host_call :: "('h \<Rightarrow> 'a \<times> 'h) \<Rightarrow> (('q, 'h) symex_core, 'a) M" where
  "host_call f = (\<lambda>s. case f (dev_host (devices (platform s))) of
     (x, h) \<Rightarrow> Ok x (upd_soc (\<lambda>p. p\<lparr>devices := (devices p)\<lparr>dev_host := h\<rparr>\<rparr>) s))"

definition host_do :: "('h \<Rightarrow> 'h) \<Rightarrow> (('q, 'h) symex_core, unit) M" where
  "host_do f = host_call (\<lambda>h. ((), f h))"

definition guest_to_host_pointer :: "u64 \<Rightarrow> (('q, 'h) symex_core, u64) M" where
  "guest_to_host_pointer addr = withS (\<lambda>s.
     case sys_mem (the_sys s) of
       None \<Rightarrow> throw (AssertionFailed ''mem != nullptr'')
     | Some mem \<Rightarrow> ret (mem + (addr - sys_mem_offset (the_sys s))))"

text \<open>Conversion of a 64-bit argument, and of a \<open>long\<close> result, to \<open>int\<close>.\<close>

definition to_int :: "u64 \<Rightarrow> int" where
  "to_int a = sint (ucast a :: u32)"

definition int_of_long :: "int \<Rightarrow> int" where
  "int_of_long a = sint (word_of_int a :: u32)"

text \<open>\<open>boost::lexical_cast<int>\<close> throws when the value is out of range.\<close>

definition lexical_cast_int :: "int \<Rightarrow> ('s, int) M" where
  "lexical_cast_int a = (if - (2 ^ 31) \<le> a \<and> a < 2 ^ 31 then ret a else throw BadLexicalCast)"

section \<open>The calls\<close>

definition sys_fstat :: "'h host \<Rightarrow> int \<Rightarrow> u64 \<Rightarrow> (('q, 'h) symex_core, int) M" where
  "sys_fstat H fd s_addr =
     bindM (host_call (h_fstat H fd)) (\<lambda>(ans, x).
     seqM (whenM (ans = 0) (bindM (guest_to_host_pointer s_addr) (\<lambda>p. host_do (h_poke_stat H p x)))) (ret ans))"

definition sys_gettimeofday :: "'h host \<Rightarrow> u64 \<Rightarrow> u64 \<Rightarrow> (('q, 'h) symex_core, int) M" where
  "sys_gettimeofday H tp tzp =
     seqM (assertM (tzp = 0) ''tzp == 0'')
     (bindM (host_call (h_gettimeofday H)) (\<lambda>(ans, sec, usec).
      bindM (guest_to_host_pointer tp) (\<lambda>p.
      seqM (host_do (h_poke_words H p [sec, usec])) (ret ans))))"

definition sys_time :: "'h host \<Rightarrow> u64 \<Rightarrow> (('q, 'h) symex_core, int) M" where
  "sys_time H tloc =
     bindM (host_call (h_time H)) (\<lambda>host_ans.
     bindM (lexical_cast_int host_ans) (\<lambda>guest_ans.
     seqM (whenM (tloc \<noteq> 0) (bindM (guest_to_host_pointer tloc) (\<lambda>p.
             host_do (h_poke_words H p [word_of_int guest_ans]))))
       (ret guest_ans)))"

text \<open>The flags of newlib and those of the host (Linux).\<close>

abbreviation rv_WRONLY :: u32 where "rv_WRONLY \<equiv> 0x1"
abbreviation rv_RDWR :: u32 where "rv_RDWR \<equiv> 0x2"
abbreviation rv_APPEND :: u32 where "rv_APPEND \<equiv> 0x8"
abbreviation rv_CREAT :: u32 where "rv_CREAT \<equiv> 0x200"
abbreviation rv_TRUNC :: u32 where "rv_TRUNC \<equiv> 0x400"

definition host_flag :: "u32 \<Rightarrow> u32 \<Rightarrow> u32 \<Rightarrow> u32" where
  "host_flag flags rv h = (if flags AND rv \<noteq> 0 then h else 0)"

definition translateRVFlagsToHost :: "u32 \<Rightarrow> ('s, u32) M" where
  "translateRVFlagsToHost flags =
     (let r = host_flag flags rv_WRONLY 0x1 OR host_flag flags rv_RDWR 0x2 OR host_flag flags rv_APPEND 0x400 OR
              host_flag flags rv_CREAT 0x40 OR host_flag flags rv_TRUNC 0x200
      in if r = 0 \<and> flags \<noteq> 0 then throw (RuntimeError ''unsupported flag'') else ret r)"

definition sys_brk :: "u64 \<Rightarrow> (('q, 'h) symex_core, int) M" where
  "sys_brk addr =
     (if addr = 0 then withS (\<lambda>s. lexical_cast_int (uint (sys_hp (the_sys s))))
      else seqM (modify (upd_sys (\<lambda>h. h\<lparr>sys_hp := addr, sys_max_heap := max addr (sys_max_heap h)\<rparr>)))
        (lexical_cast_int (uint addr)))"

definition sys_write :: "'h host \<Rightarrow> int \<Rightarrow> u64 \<Rightarrow> u64 \<Rightarrow> (('q, 'h) symex_core, int) M" where
  "sys_write H fd buf count =
     bindM (guest_to_host_pointer buf) (\<lambda>p.
     bindM (host_call (h_write H fd p count)) (\<lambda>ans.
     seqM (assertM (\<not> ans < 0) ''false'') (ret (int_of_long ans))))"

definition sys_read :: "'h host \<Rightarrow> int \<Rightarrow> u64 \<Rightarrow> u64 \<Rightarrow> (('q, 'h) symex_core, int) M" where
  "sys_read H fd buf count =
     bindM (guest_to_host_pointer buf) (\<lambda>p.
     bindM (host_call (h_read H fd p count)) (\<lambda>ans.
     seqM (assertM (ans \<ge> 0) ''ans >= 0'') (ret (int_of_long ans))))"

definition sys_lseek :: "'h host \<Rightarrow> int \<Rightarrow> int \<Rightarrow> int \<Rightarrow> (('q, 'h) symex_core, int) M" where
  "sys_lseek H fd offset whence = bindM (host_call (h_lseek H fd offset whence)) (\<lambda>ans. ret (int_of_long ans))"

definition sys_open :: "'h host \<Rightarrow> u64 \<Rightarrow> u32 \<Rightarrow> u32 \<Rightarrow> (('q, 'h) symex_core, int) M" where
  "sys_open H pathname flags mode =
     bindM (guest_to_host_pointer pathname) (\<lambda>host_pathname.
     bindM (translateRVFlagsToHost flags) (\<lambda>host_flags.
     host_call (h_open H host_pathname (sint host_flags) mode)))"

definition sys_close :: "'h host \<Rightarrow> int \<Rightarrow> (('q, 'h) symex_core, int) M" where
  "sys_close H fd = (if fd = 1 \<or> fd = 0 \<or> fd = 2 then ret 0 else host_call (h_close H fd))"

definition sys_sym_reg :: "('q, 'h symex_devices) soc ISS_env \<Rightarrow> u64 \<Rightarrow> (('q, 'h) symex_core, int) M" where
  "sys_sym_reg E index =
     (if index \<ge> 32 then ret (- 1) else seqM (make_symbolic_reg E (ucast index)) (ret 0))"

definition sys_sym_mem :: "('q, 'h symex_devices) soc ISS_env \<Rightarrow> u64 \<Rightarrow> u64 \<Rightarrow> (('q, 'h) symex_core, int) M" where
  "sys_sym_mem E addr sz = seqM (make_symbolic_mem E (ucast addr) (unat sz)) (ret 0)"

definition set_shall_exit :: "(('q, 'h) symex_core, int) M" where
  "set_shall_exit = seqM (modify (upd_sys (\<lambda>h. h\<lparr>sys_shall_exit := True\<rparr>))) (ret 0)"

definition sys_dispatch ::
  "'h host \<Rightarrow> ('q, 'h symex_devices) soc ISS_env \<Rightarrow> u64 \<Rightarrow> u64 \<Rightarrow> u64 \<Rightarrow> u64 \<Rightarrow> (('q, 'h) symex_core, int) M"
where
  "sys_dispatch H E n a0 a1 a2 =
     switch n [
       (80, sys_fstat H (to_int a0) a1),
       (169, sys_gettimeofday H a0 a1),
       (214, sys_brk a0),
       (1062, sys_time H a0),
       (64, sys_write H (to_int a0) a1 a2),
       (63, sys_read H (to_int a0) a1 a2),
       (62, sys_lseek H (to_int a0) (sint a1) (to_int a2)),
       (1024, sys_open H a0 (ucast a1) (ucast a2)),
       (57, sys_close H (to_int a0)),
       (95, sys_sym_reg E a0),
       (96, sys_sym_mem E a0 a1),
       (1, bindM (host_call (h_report H)) (\<lambda>returns.
             if returns then set_shall_exit else throw (RuntimeError ''SYS_host_error''))),
       (93, set_shall_exit),
       (2, set_shall_exit),
       (3, set_shall_exit)]
       (throw (RuntimeError (''unsupported syscall '' @ CHR 0x27 # to_string (unat n) @ [CHR 0x27])))"

text \<open>
  \<open>execute_syscall\<close> of the core: the result is an \<open>int\<close> that \<open>write_register\<close> takes as a \<open>uint64_t\<close>,
  so that a negative one is sign-extended to 64 bits.
\<close>

definition sys_execute_syscall ::
  "'h host \<Rightarrow> ('q, 'h symex_devices) soc ISS_env \<Rightarrow> (('q, 'h) symex_core, unit) M"
where
  "sys_execute_syscall H E =
     bindM (withS (\<lambda>s. read_register (get_syscall_register_index s))) (\<lambda>n.
     bindM (read_register 13) (\<lambda>a3.
     bindM (read_register 12) (\<lambda>a2.
     bindM (read_register 11) (\<lambda>a1.
     bindM (read_register 10) (\<lambda>a0.
     bindM (sys_dispatch H E n a0 a1 a2) (\<lambda>ans.
     seqM (write_register 10 (word_of_int ans))
       (withS (\<lambda>s. whenM (sys_shall_exit (the_sys s)) (modify sys_exit)))))))))"

text \<open>The memory-mapped register of the handler.\<close>

definition sys_transport :: "'h host \<Rightarrow> ('q, 'h symex_devices) soc ISS_env \<Rightarrow> ('q, 'h symex_devices) core target" where
  "sys_transport H E pl delay =
     seqM (assertM (tlm_addr pl mod 4 = 0) ''addr % 4 == 0'')
     (seqM (assertM (length (tlm_data pl) = 4) ''trans.get_data_length() == 4'')
     (bindM (gets (\<lambda>s. of_bytes (tlm_data pl) \<in> sys_cores (the_sys s))) (\<lambda>registered.
      seqM (assertM registered ''core not registered in syscall handler'')
      (seqM (sys_execute_syscall H E) (ret (pl, delay))))))"

end
