(* ===== verification/VP_Platform.thy ===== *)
theory VP_Platform
  imports VP_Syscall
begin

text \<open>
  The platform of the symbolic virtual prototype (\<open>platform/symex/symex_main.cpp\<close>): the bus with the
  symbolic memory, the interruptor and the system calls, the environment it gives to the core and
  the state before the first instruction.
\<close>

section \<open>Wiring\<close>

definition clint_of :: "'h symex_devices clint_lens" where
  "clint_of = (dev_clint, \<lambda>c d. d\<lparr>dev_clint := c\<rparr>)"

definition mem_transport :: "('q, 'h symex_devices) core target" where
  "mem_transport pl delay = (\<lambda>s.
     case sm_transport (dev_mem (devices (platform s))) pl delay of
       None \<Rightarrow> Throw NullPointer s
     | Some (m, pl', d) \<Rightarrow> Ok (pl', d) (upd_soc (\<lambda>p. p\<lparr>devices := (devices p)\<lparr>dev_mem := m\<rparr>\<rparr>) s))"

definition woken :: "'q systemc \<Rightarrow> ('q, 'h symex_devices) soc \<Rightarrow> 'q \<times> u64 list \<Rightarrow> ('q, 'h symex_devices) soc \<times> irq_event list" where
  "woken K p r = fold (clint_wakeup K clint_of) (snd r) (p\<lparr>kernel := fst r\<rparr>, [])"

definition board_env ::
  "klee \<Rightarrow> (u64 \<Rightarrow> error + SourceInfo list) \<Rightarrow> 'h host \<Rightarrow> ('q, 'h symex_devices) board \<Rightarrow> ('q, 'h symex_devices) soc ISS_env"
where
  "board_env k srcs H B = \<lparr>solver = k, get_sources = srcs, load_instr = cmi_load_instr B,
     load_word = load_sext B 4, load_half = load_sext B 2, load_byte = load_sext B 1,
     load_uhalf = load_zext B 2, load_ubyte = load_zext B 1,
     store_word = \<lambda>a v. cmi_store_data B a v 4, store_half = \<lambda>a v. cmi_store_data B a v 2,
     store_byte = \<lambda>a v. cmi_store_data B a v 1, symbolic_store_data = cmi_store_data B,
     update_and_get_mtime = \<lambda>p. case clint_update_and_get_mtime (sc B) clint_of p of (t, p') \<Rightarrow> (t, p', []),
     execute_syscall = None, qk_inc = keeper_inc B, need_sync = \<lambda>p. keeper_need_sync (sc B) (kernel p),
     qk_sync = \<lambda>p. woken (sc B) p (keeper_sync (sc B) (kernel p)),
     wait_event = \<lambda>p. map_option (woken (sc B) p) (sc_wait (sc B) (kernel p)),
     env_rand = \<lambda>p. case h_rand H (dev_host (devices p)) of
       (n, h) \<Rightarrow> (n, p\<lparr>devices := (devices p)\<lparr>dev_host := h\<rparr>\<rparr>)\<rparr>"

definition with_syscalls ::
  "'h host \<Rightarrow> ('q, 'h symex_devices) soc ISS_env \<Rightarrow> ('q, 'h symex_devices) soc ISS_env"
where
  "with_syscalls H E = E\<lparr>execute_syscall := Some (sys_execute_syscall H E)\<rparr>"

text \<open>
  The bus of the platform.  A system call through the memory-mapped register can store to the bus
  again; \<open>depth\<close> bounds how often it may do so before the stack is exhausted.
\<close>

primrec platform_board ::
  "klee \<Rightarrow> (u64 \<Rightarrow> error + SourceInfo list) \<Rightarrow> 'h host \<Rightarrow> 'q systemc \<Rightarrow> u64 \<Rightarrow> u64 \<Rightarrow> nat \<Rightarrow> ('q, 'h symex_devices) board"
where
  "platform_board k srcs H K mem_start_addr mem_end_addr 0 =
     \<lparr>sc = K, with_mmu = True, page_fault_on_AD = False, ports =
       [(\<lparr>port_start = mem_start_addr, port_end = mem_end_addr\<rparr>, mem_transport),
        (\<lparr>port_start = 0x02000000, port_end = 0x0200ffff\<rparr>, clint_transport K clint_of),
        (\<lparr>port_start = 0x02010000, port_end = 0x020103ff\<rparr>, \<lambda>pl delay. throw (RuntimeError ''stack overflow''))]\<rparr>"
| "platform_board k srcs H K mem_start_addr mem_end_addr (Suc depth) =
     \<lparr>sc = K, with_mmu = True, page_fault_on_AD = False, ports =
       [(\<lparr>port_start = mem_start_addr, port_end = mem_end_addr\<rparr>, mem_transport),
        (\<lparr>port_start = 0x02000000, port_end = 0x0200ffff\<rparr>, clint_transport K clint_of),
        (\<lparr>port_start = 0x02010000, port_end = 0x020103ff\<rparr>,
           sys_transport H (board_env k srcs H (platform_board k srcs H K mem_start_addr mem_end_addr depth)))]\<rparr>"

definition symex_board where
  "symex_board k srcs H K depth = platform_board k srcs H K 0 0x1FFFFFFF depth"

definition symex_env where
  "symex_env k srcs H K depth intercept_syscalls =
     (let E = board_env k srcs H (symex_board k srcs H K depth)
      in if intercept_syscalls then with_syscalls H E else E)"

definition rv32_align_address :: "u32 \<Rightarrow> u32" where
  "rv32_align_address addr = addr - addr mod 4"

text \<open>
  The state after the elaboration in \<open>sc_main\<close>: the image is loaded, the core is initialised, the
  handler knows the core, the coverage is attached.
\<close>

definition symex_soc :: "'q \<Rightarrow> 'h \<Rightarrow> SymbolicMemory \<Rightarrow> u64 \<Rightarrow> ('q, 'h symex_devices) soc" where
  "symex_soc q h m heap = \<lparr>kernel = q, tlb = flush_tlb (\<lambda>_ _ _. (0, 0)), bl_locked = False, bl_owner = 0,
     devices = \<lparr>dev_mem = m, dev_clint = newCLINT 1,
       dev_sys = (sys_init None 0 heap newSyscallHandler)\<lparr>sys_cores := {0}\<rparr>, dev_host = h\<rparr>\<rparr>"

definition symex_init ::
  "'q \<Rightarrow> 'h \<Rightarrow> SymbolicMemory \<Rightarrow> u64 \<Rightarrow> u32 \<Rightarrow> Coverage \<Rightarrow> Trace \<Rightarrow> ExecutionContext \<Rightarrow>
     (unit, ('q, 'h symex_devices) core) outcome"
where
  "symex_init q h m heap entrypoint cov tr c =
     seqM (iss_init entrypoint (rv32_align_address 0x1FFFFFFF)) (modify (\<lambda>s. s\<lparr>coverage := Some cov\<rparr>))
       (newISS 0 False (symex_soc q h m heap) tr c)"

section \<open>The contract\<close>

definition devices_ok :: "assignment \<Rightarrow> 'h symex_devices \<Rightarrow> bool" where
  "devices_ok \<sigma> d \<longleftrightarrow> mem_ok \<sigma> (sm_memory (dev_mem d))"

abbreviation soc_ok :: "assignment \<Rightarrow> ('q, 'h symex_devices) soc \<Rightarrow> bool" where
  "soc_ok \<sigma> \<equiv> \<lambda>p. devices_ok \<sigma> (devices p)"

lemma sm_transport_ok:
  assumes "mem_ok \<sigma> (sm_memory m)" and "payload_ok \<sigma> pl" and "sm_transport m pl d = Some (m', pl', d')"
  shows "mem_ok \<sigma> (sm_memory m') \<and> answer_ok \<sigma> pl pl' \<and> d' = d + 10000"
proof -
  let ?n = "length (tlm_data pl)" and ?a = "ucast (tlm_addr pl) :: u32"
  have n: "0 < ?n" using assms(2) by (simp add: payload_ok_def)
  have read: "answer_ok \<sigma> pl t" if "sm_read_data m pl = Some t" for t
    using that mem_load_bytes [OF assms(1), of ?n ?a] n BVCToBytes_ok [of \<sigma> _ _ ?n]
    by (auto simp: sm_read_data_def answer_ok_def split: option.splits)
  have "mem_ok \<sigma> (sm_memory t)" if t: "sm_write_data m pl = Some t" for t
  proof (cases "tlm_ext pl")
    case None
    obtain v where "BVC_bytes (tlm_data pl) = Some v" "cv_ok \<sigma> (8 * ?n) v"
      using n BVC_bytes_ok [of "tlm_data pl" \<sigma>] by (metis length_greater_0_conv)
    then show ?thesis using t None mem_store_ok(1) [OF assms(1)] by (auto simp: sm_write_data_def)
  next
    case (Some v)
    then obtain w where "cv_ok \<sigma> w v" using assms(2) by (auto simp: payload_ok_def)
    then show ?thesis using t Some mem_store_ok(1) [OF assms(1)] by (auto simp: sm_write_data_def)
  qed
  then show ?thesis using assms(1,3) read
    by (cases "tlm_cmd pl")
      (auto simp: sm_transport_def sm_transport_dbg_def Let_def answer_ok_def split: if_splits)
qed

lemma mem_transport_run:
  assumes "payload_ok \<sigma> pl"
  shows "env_run (soc_ok \<sigma>) \<sigma> (mem_transport pl d) (\<lambda>(pl', _). answer_ok \<sigma> pl pl')"
proof (rule env_runI)
  fix s :: "('q, 'h symex_devices) core" assume s: "core_inv (soc_ok \<sigma>) \<sigma> s"
  then have "mem_ok \<sigma> (sm_memory (dev_mem (devices (platform s))))" by (simp add: core_inv_def devices_ok_def)
  from sm_transport_ok [OF this assms, of d] env_post_refl [OF s]
  show "wp (mem_transport pl d) (\<lambda>x s'. (case x of (pl', _) \<Rightarrow> answer_ok \<sigma> pl pl') \<and> env_post (soc_ok \<sigma>) s s')
      (env_err (soc_ok \<sigma>) s) s"
    by (auto simp: mem_transport_def wp_def env_post_def devices_ok_def split: option.splits)
qed

locale vp_platform = tlm_bus B "\<lambda>p. devs (devices p)" \<sigma>
  for B :: "('q, 'h symex_devices) board" and devs :: "'h symex_devices \<Rightarrow> bool" and \<sigma> :: assignment +
  fixes k :: klee and srcs :: "u64 \<Rightarrow> error + SourceInfo list" and H :: "'h host"
  assumes vp_klee: "klee_ok k"
    and vp_sources: "srcs a = Inl e \<Longrightarrow> env_error e \<and> \<not> is_trap e"
    and devs_clint: "devs d \<Longrightarrow> devs (d\<lparr>dev_clint := c\<rparr>)"
begin

lemma woken_ok: "devs (devices p) \<Longrightarrow> devs (devices (fst (woken K p r)))"
proof -
  have "devs (devices (fst q)) \<Longrightarrow> devs (devices (fst (fold (clint_wakeup K clint_of) ts q)))" for ts q
    by (induction ts arbitrary: q)
      (simp_all add: clint_wakeup_def clint_of_def clint_run_def Let_def devs_clint)
  then show "devs (devices p) \<Longrightarrow> ?thesis" by (simp add: woken_def)
qed

end

sublocale vp_platform \<subseteq> iss_environment "board_env k srcs H B" "\<lambda>p. devs (devices p)" \<sigma>
proof (unfold_locales, goal_cases)
  case (2 s a)
  then show ?case using env_runD [OF fetch_run] by (simp add: board_env_def env_post_def)
next
  case (3 s addr ld)
  then show ?case
    using extended_load_run [OF 3(2), of 4, THEN env_runD, OF _ _ 3(1)] extended_load_run [OF 3(2), of 2, THEN env_runD, OF _ _ 3(1)]
      extended_load_run [OF 3(2), of 1, THEN env_runD, OF _ _ 3(1)]
    by (auto simp: board_env_def env_post_def)
next
  case (4 s addr v st)
  then show ?case
    using store_run [OF 4(2,3), THEN env_runD, OF _ 4(1)] by (auto simp: board_env_def env_post_def)
qed (auto simp: vp_klee vp_sources board_env_def clint_update_and_get_mtime_def clint_of_def devs_clint keeper_inc_def Let_def woken_ok,
     metis fst_conv woken_ok)

lemma decode_symex:
  "decode (ports (symex_board k srcs H K depth)) a =
     (if a \<le> 0x1FFFFFFF then Some (\<lparr>port_start = 0, port_end = 0x1FFFFFFF\<rparr>, mem_transport) else None)"
proof -
  have "a \<le> 0x0200FFFF \<Longrightarrow> a \<le> 0x1FFFFFFF" and "a \<le> 0x020103FF \<Longrightarrow> a \<le> 0x1FFFFFFF" by unat_arith+
  then show ?thesis by (cases depth) (auto simp: symex_board_def contains_def)
qed

locale symex_run =
  fixes k :: klee and srcs :: "u64 \<Rightarrow> error + SourceInfo list" and H :: "'h host" and K :: "'q systemc"
    and depth :: nat and \<sigma> :: assignment
  assumes run_klee: "klee_ok k" and run_sources: "srcs a = Inl e \<Longrightarrow> env_error e \<and> \<not> is_trap e"

sublocale symex_run \<subseteq> vp: vp_platform "symex_board k srcs H K depth" "devices_ok \<sigma>" \<sigma> k srcs H
proof unfold_locales
  fix a q and t :: "('q, 'h symex_devices) core target" and pl delay
  assume "decode (ports (symex_board k srcs H K depth)) a = Some (q, t)" "payload_ok \<sigma> pl"
  then show "env_run (soc_ok \<sigma>) \<sigma> (t pl delay) (\<lambda>(pl', _). answer_ok \<sigma> pl pl')"
    by (auto simp: decode_symex mem_transport_run split: if_splits)
qed (auto simp: run_klee run_sources devices_ok_def)

end
