(* ===== verification/VP_Platform_Props.thy ===== *)
theory VP_Platform_Props
  imports VP_Platform RV_ISS_Props
begin

text \<open>
  The platform as a whole: the core on the bus with the symbolic memory.  Between two instructions
  every register and every byte of memory is a well-formed concolic value, and no assertion of the
  core fails, from the state \<open>sc_main\<close> builds on; a value stored through the bus is loaded again.
\<close>

section \<open>Runs of the platform\<close>

definition sources_ok :: "(u64 \<Rightarrow> error + SourceInfo list) \<Rightarrow> bool" where
  "sources_ok srcs \<longleftrightarrow> (\<forall>a e. srcs a = Inl e \<longrightarrow> env_error e \<and> \<not> is_trap e)"

context symex_run
begin

lemma symex_environment:
  "iss_environment (symex_env k srcs H K depth False) (soc_ok \<sigma>) \<sigma>"
  unfolding symex_env_def Let_def if_False by (rule vp.iss_environment_axioms)

lemma translation_run: "env_run (soc_ok \<sigma>) \<sigma> (v2p (symex_board k srcs H K depth) va type) (\<lambda>_. True)"
  by (rule vp.v2p_run)

end

interpretation candidates: symex_run "candidate_klee cands" "\<lambda>_. Inr []" H K depth \<sigma>
  for cands H K depth \<sigma>
  by unfold_locales (simp_all add: candidate_klee_ok)

lemma platform_environment:
  assumes "klee_ok k" and "sources_ok srcs"
  shows "iss_environment (symex_env k srcs H K depth False) (soc_ok \<sigma>) \<sigma>"
  by (rule symex_run.symex_environment) (use assms in \<open>unfold_locales, auto simp: sources_ok_def\<close>)

text \<open>The state \<open>sc_main\<close> starts the simulation in.\<close>

lemma newISS_inv:
  assumes "soc_ok \<sigma> p" and "trace_ok \<sigma> tr"
  shows "iss_inv (soc_ok \<sigma>) \<sigma> (newISS h False p tr c)"
proof -
  have "csr_inv (csrs (newISS 0 False () newTrace c))" "aligned (csrs (newISS 0 False () newTrace c)) 0"
    by code_simp+
  then have "csr_inv (csr_table_init\<lparr>csr_mhartid := h\<rparr>)" "aligned (csr_table_init\<lparr>csr_mhartid := h\<rparr>) 0"
    by (simp_all add: newISS_def csr_inv_def align_defs)
  then show ?thesis using assms
    by (simp add: iss_inv_def newISS_def Let_def regs_ok_def newRegFile_def)
qed

lemma symex_init_works:
  assumes "mem_ok \<sigma> (sm_memory m)" and "trace_ok \<sigma> tr" and "even entrypoint"
  shows "\<exists>s. symex_init q h m heap entrypoint cov tr c = Ok () s \<and> iss_inv (soc_ok \<sigma>) \<sigma> s \<and> pc s = entrypoint \<and>
    cv_val (reg 2 s) = 0x1FFFFFFC \<and> prv s = MachineMode \<and> status s = Runnable"
proof -
  let ?p = "symex_soc q h m heap"
  let ?s0 = "newISS 0 False ?p tr c"
  have "soc_ok \<sigma> ?p" using assms(1) by (simp add: symex_soc_def devices_ok_def)
  then have inv: "iss_inv (soc_ok \<sigma>) \<sigma> ?s0" by (rule newISS_inv [OF _ assms(2)])
  then have r: "regs_ok \<sigma> (regs ?s0)" by (simp add: iss_inv_def)
  have a: "rv32_align_address 0x1FFFFFFF = 0x1FFFFFFC" by code_simp
  obtain v where w: "regs_write sp (BVC32 0x1FFFFFFC) ?s0 = Ok () (?s0\<lparr>regs := (regs ?s0)[2 := v]\<rparr>)"
    "cv_ok \<sigma> 32 v" "cv_val v = 0x1FFFFFFC"
    using wp_total [OF regs_write_wp [OF order_refl BVC32_ok [of \<sigma> "0x1FFFFFFC"], of sp ?s0, OF _ r]] by auto
  have C: "has_C_extension (csrs ?s0)"
    by (simp add: has_C_extension_def misa_extensions_def newISS_def csr_table_init_def) code_simp
  then have "aligned (csrs ?s0) entrypoint" using assms(3) by (simp add: aligned_iff and_one_iff)
  moreover have "length (regs ?s0) = 32" using r by (simp add: regs_ok_def)
  moreover have "prv ?s0 = MachineMode" "status ?s0 = Runnable" by (simp_all add: newISS_def Let_def)
  ultimately show ?thesis
    using inv w regs_ok_update [OF r w(2), of 2]
    by (simp add: symex_init_def iss_init_def a iss_inv_def reg_def)
qed

text \<open>
  A kernel that never preempts the core and a host without files, to run the platform on small
  examples.
\<close>

definition example_kernel :: "u64 systemc" where
  "example_kernel = \<lparr>get_local_time = \<lambda>q. q, set_local_time = \<lambda>t _. t, keeper_need_sync = \<lambda>_. False,
     keeper_sync = \<lambda>q. (q, []), sc_wait = \<lambda>_. None, sc_time_stamp = \<lambda>q. q, notify_irq_event = \<lambda>_ q. q\<rparr>"

definition example_host :: "nat host" where
  "example_host = \<lparr>h_fstat = \<lambda>_ n. ((- 1, \<lparr>st_dev = 0, st_ino = 0, st_mode = 0, st_nlink = 0, st_uid = 0, st_gid = 0,
       st_rdev = 0, st_size = 0, st_blksize = 0, st_blocks = 0, st_atim = (0, 0), st_mtim = (0, 0), st_ctim = (0, 0)\<rparr>), n),
     h_gettimeofday = \<lambda>n. ((0, 0, 0), n), h_time = \<lambda>n. (int n, n), h_write = \<lambda>_ _ c n. (uint c, n), h_read = \<lambda>_ _ _ n. (0, n),
     h_lseek = \<lambda>_ _ _ n. (- 1, n), h_open = \<lambda>_ _ _ n. (- 1, n), h_close = \<lambda>_ n. (- 1, n), h_poke_stat = \<lambda>_ _ n. n,
     h_poke_words = \<lambda>_ _ n. n, h_report = \<lambda>n. (True, n), h_rand = \<lambda>n. (n, n + 1)\<rparr>"

text \<open>A memory with the program \<open>addi x1, x0, 5; jal x0, 0\<close>, and the state before its first instruction.\<close>

definition example_memory :: SymbolicMemory where
  "example_memory = sm_load_data \<lparr>sm_size = 0x20000000, sm_memory = Map.empty\<rparr> [0x93, 0x00, 0x50, 0x00, 0x6F, 0, 0, 0] 0"

definition example_platform :: "(u64, nat symex_devices) core" where
  "example_platform = newISS 0 False (symex_soc 0 0 example_memory 0) newTrace \<lparr>next_run = Map.empty, last_run = Map.empty\<rparr>"

lemma sm_load_data_ok: "mem_ok \<sigma> (sm_memory m) \<Longrightarrow> mem_ok \<sigma> (sm_memory (sm_load_data m bs a))"
proof -
  have "mem_ok \<sigma> d \<Longrightarrow> mem_ok \<sigma> (foldl (\<lambda>d i. mem_store d (f i) (BVC None (U8 (g i))) 1) d is)" for d "is" f g
    by (induction "is" arbitrary: d) (use BVC_ok(1) [of None \<sigma>] in \<open>auto intro!: mem_store_ok(1)\<close>)
  then show "mem_ok \<sigma> (sm_memory m) \<Longrightarrow> ?thesis" by (simp add: sm_load_data_def)
qed

lemma example_memory_ok: "mem_ok \<sigma> (sm_memory example_memory)"
  unfolding example_memory_def by (rule sm_load_data_ok) (simp add: mem_ok_def)

lemma example_platform_inv: "iss_inv (soc_ok \<sigma>) \<sigma> example_platform"
  unfolding example_platform_def
  by (rule newISS_inv) (simp_all add: symex_soc_def devices_ok_def example_memory_ok newTrace_ok)





section \<open>Loads and stores\<close>

text \<open>The quantum keeper of TLM returns the local time it was last set to.\<close>

definition keeper_ok :: "'q systemc \<Rightarrow> bool" where
  "keeper_ok K \<longleftrightarrow> (\<forall>t q. get_local_time K (set_local_time K t q) = t)"

definition untranslated :: "MemoryAccessType \<Rightarrow> ('q, 'd) core \<Rightarrow> bool" where
  "untranslated type s \<longleftrightarrow> bget satp_mode (csr_satp (csrs s)) = 0 \<or> effective_mode type s = MachineMode"

lemma v2p_untranslated: "untranslated type s \<Longrightarrow> v2p B a type s = Ok a s"
  by (auto simp: v2p_def translate_virtual_to_physical_addr_def untranslated_def Let_def)

definition with_mem :: "SymbolicMemory \<Rightarrow> 'q \<Rightarrow> ('q, 'h symex_devices) core \<Rightarrow> ('q, 'h symex_devices) core" where
  "with_mem m q = upd_soc (\<lambda>p. p\<lparr>kernel := q, devices := (devices p)\<lparr>dev_mem := m\<rparr>\<rparr>)"

lemma with_mem_simps [simp]:
  "csrs (with_mem m q s) = csrs s" "prv (with_mem m q s) = prv s" "regs (with_mem m q s) = regs s"
  "dev_mem (devices (platform (with_mem m q s))) = m" "kernel (platform (with_mem m q s)) = q"
  "bl_locked (platform (with_mem m q s)) = bl_locked (platform s)"
  "with_mem m' q' (with_mem m q s) = with_mem m' q' s"
  by (simp_all add: with_mem_def upd_soc_def)

lemma memory_transaction:
  fixes s :: "('q, 'h symex_devices) core"
  assumes "keeper_ok K" and "tlm_addr pl \<le> 0x1FFFFFFF" and "now = get_local_time K (kernel (platform s))" and "now \<le> now + 10000"
    and "sm_transport (dev_mem (devices (platform s))) pl now = Some (m, pl', now + 10000)" and "tlm_status pl' = TLM_OK_RESPONSE"
  shows "do_transaction (symex_board k srcs H K depth) pl s = Ok pl' (with_mem m (set_local_time K (now + 10000) (kernel (platform s))) s)"
proof -
  let ?B = "symex_board k srcs H K depth :: ('q, 'h symex_devices) board"
  have sc: "sc ?B = K" by (cases depth) (simp_all add: symex_board_def)
  let ?u = "upd_soc (\<lambda>p. p\<lparr>devices := (devices p)\<lparr>dev_mem := m\<rparr>\<rparr>) s"
  have t: "transport (ports ?B) pl now s = Ok (pl', now + 10000) ?u"
    using assms(2,5) by (simp add: transport_def decode_symex global_to_local_def mem_transport_def)
  have u: "local_time ?B ?u = now" "local_time ?B s = now" using assms(3) sc by (simp_all add: local_time_def upd_soc_def)
  have w: "keeper_set ?B (now + 10000) ?u = with_mem m (set_local_time K (now + 10000) (kernel (platform s))) s"
    by (simp add: keeper_set_def sc with_mem_def upd_soc_def)
  have c: "check_response pl' x = Ok pl' x" for x :: "('q, 'h symex_devices) core"
    using assms(6) by (simp add: check_response_def is_response_error_def)
  show ?thesis unfolding do_transaction_def withS_apply u(2) bindM_def t
    using assms(4) by (simp add: u(1) w c bindM_def)
qed

text \<open>An access of the core to the memory it owns, without translation.\<close>

definition mem_access :: "MemoryAccessType \<Rightarrow> u32 \<Rightarrow> nat \<Rightarrow> ('q, 'h symex_devices) core \<Rightarrow> bool" where
  "mem_access type a n s \<longleftrightarrow> untranslated type s \<and> \<not> bl_locked (platform s) \<and> n \<in> {1, 2, 4} \<and>
     unat a + n \<le> unat (sm_size (dev_mem (devices (platform s)))) \<and> a \<le> 0x1FFFFFFF"

lemma range_words:
  assumes "unat a + n \<le> unat z" and "n \<in> {1, 2, 4}"
  shows "(ucast (a :: u32) :: u64) + of_nat n \<le> z" "ucast (ucast a :: u64) = a"
    "a \<le> 0x1FFFFFFF \<Longrightarrow> (ucast a :: u64) \<le> 0x1FFFFFFF"
proof -
  have lt: "unat a < 2 ^ 32" using unsigned_less [of a] by simp
  then have u: "unat (ucast a :: u64) = unat a" by (simp add: unsigned_ucast_eq take_bit_nat_eq_self_iff)
  have "unat (of_nat n :: u64) = n" using assms(2) by auto
  moreover have "unat a + n < 2 ^ 64" using lt assms(2) by auto
  ultimately have "unat ((ucast a :: u64) + of_nat n) = unat a + n" using u by (simp add: unat_word_ariths)
  then show "(ucast a :: u64) + of_nat n \<le> z" using assms(1) by (simp add: word_le_nat_alt)
  show "ucast (ucast a :: u64) = a" by (rule bit_word_eqI) (simp add: bit_simps)
  show "a \<le> 0x1FFFFFFF \<Longrightarrow> (ucast a :: u64) \<le> 0x1FFFFFFF" using u by (simp add: word_le_nat_alt)
qed

lemma bus_store:
  fixes s :: "('q, 'h symex_devices) core"
  assumes "keeper_ok K" and "mem_access STORE a n s" and "cv_ok \<sigma> 32 addr" and "a = word_of_int (cv_val addr)" and "cv_ok \<sigma> w v"
    and "now = get_local_time K (kernel (platform s))" and "now \<le> now + 10000" and "m = dev_mem (devices (platform s))"
  shows "cmi_store_data (symex_board k srcs H K depth) addr v n s =
    Ok () (with_mem (m\<lparr>sm_memory := mem_store (sm_memory m) a v n\<rparr>) (set_local_time K (now + 10000) (kernel (platform s))) s)"
proof -
  let ?B = "symex_board k srcs H K depth :: ('q, 'h symex_devices) board"
  have ac: "untranslated STORE s" "\<not> bl_locked (platform s)" "n \<in> {1, 2, 4}" "unat a + n \<le> unat (sm_size m)" "a \<le> 0x1FFFFFFF"
    using assms(2,8) by (simp_all add: mem_access_def)
  note rw = range_words [OF ac(4,3)]
  obtain bs where bs: "BVCToBytes v n = Some bs" "length bs = n" using BVCToBytes_ok [OF assms(5)] by simp
  let ?pl = "payload TLM_WRITE_COMMAND (ucast a) bs (Some v)"
  have "sm_transport m ?pl now = Some (m\<lparr>sm_memory := mem_store (sm_memory m) a v n\<rparr>, ?pl, now + 10000)"
    using rw bs(2) by (simp add: sm_transport_def sm_transport_dbg_def sm_write_data_def payload_def Let_def not_less)
  then have "do_transaction ?B ?pl s =
      Ok ?pl (with_mem (m\<lparr>sm_memory := mem_store (sm_memory m) a v n\<rparr>) (set_local_time K (now + 10000) (kernel (platform s))) s)"
    using rw(3) [OF ac(5)] assms(8)
    by (intro memory_transaction [OF assms(1) _ assms(6,7)]) (simp_all add: payload_def)
  moreover have "getValue32 addr s = Ok a s"
    using cv_ok_getValue [OF assms(3)] assms(4) by (simp add: getValue32_def of_option_def)
  ultimately show ?thesis
    using bs ac(1,2) by (simp add: cmi_store_data_def do_write_def wait_for_access_rights_def is_locked_def
        v2p_untranslated of_option_def)
qed

lemma bus_load:
  fixes s :: "('q, 'h symex_devices) core"
  assumes "keeper_ok K" and "mem_access STORE a n s" and "cv_ok \<sigma> 32 addr" and "a = word_of_int (cv_val addr)"
    and "now = get_local_time K (kernel (platform s))" and "now \<le> now + 10000" and "m = dev_mem (devices (platform s))"
    and "mem_load (sm_memory m) a n = Some v" and "cv_ok \<sigma> w v"
  shows "cmi_load_data (symex_board k srcs H K depth) addr n s =
    Ok v (with_mem m (set_local_time K (now + 10000) (kernel (platform s))) s)"
proof -
  let ?B = "symex_board k srcs H K depth :: ('q, 'h symex_devices) board"
  have ac: "untranslated STORE s" "\<not> bl_locked (platform s)" "n \<in> {1, 2, 4}" "unat a + n \<le> unat (sm_size m)" "a \<le> 0x1FFFFFFF"
    using assms(2,7) by (simp_all add: mem_access_def)
  note rw = range_words [OF ac(4,3)]
  obtain bs where bs: "BVCToBytes v n = Some bs" using BVCToBytes_ok [OF assms(9)] by simp
  let ?pl = "payload TLM_READ_COMMAND (ucast a) (replicate n 0) None"
  let ?pl' = "?pl\<lparr>tlm_data := bs, tlm_ext := Some v\<rparr>"
  have "sm_transport m ?pl now = Some (m, ?pl', now + 10000)"
    using rw bs assms(8) by (simp add: sm_transport_def sm_transport_dbg_def sm_read_data_def payload_def Let_def not_less)
  then have "do_transaction ?B ?pl s = Ok ?pl' (with_mem m (set_local_time K (now + 10000) (kernel (platform s))) s)"
    using rw(3) [OF ac(5)] assms(7)
    by (intro memory_transaction [OF assms(1) _ assms(5,6)]) (simp_all add: payload_def)
  moreover have "getValue32 addr s = Ok a s"
    using cv_ok_getValue [OF assms(3)] assms(4) by (simp add: getValue32_def of_option_def)
  ultimately show ?thesis
    using ac(1,2) by (simp add: cmi_load_data_def do_read_def wait_for_access_rights_def is_locked_def v2p_untranslated)
qed


lemma le_plus_twice: "now \<le> now + 10000 \<and> now + 10000 \<le> now + 20000" if "unat now + 20000 < 2 ^ 64" for now :: u64
proof -
  have "unat (now + 10000) = unat now + 10000" "unat (now + 20000) = unat now + 20000"
    using that by (simp_all add: unat_word_ariths)
  then show ?thesis by (simp add: word_le_nat_alt)
qed

text \<open>
  C10: a value stored through the core's memory interface, the bus and the symbolic memory is what a
  load of the same size and address returns: the unsigned load zero-extends it, the signed load
  sign-extends it, and both results are well formed, symbolic parts included.
\<close>

theorem bus_store_load:
  fixes s :: "('q, 'h symex_devices) core"
  assumes "keeper_ok K" and "iss_inv (soc_ok \<sigma>) \<sigma> s" and "mem_access STORE a n s"
    and "cv_ok \<sigma> 32 addr" and "a = word_of_int (cv_val addr)" and "cv_ok \<sigma> 32 v"
    and "unat (get_local_time K (kernel (platform s))) + 20000 < 2 ^ 64"
    and B: "B = symex_board k srcs H K depth"
  shows "\<exists>s' s'' x y. cmi_store_data B addr v n s = Ok () s' \<and>
    load_zext B n addr s' = Ok x s'' \<and> cv_ok \<sigma> 32 x \<and> cv_val x = take_bit (8 * n) (cv_val v) \<and>
    load_sext B n addr s' = Ok y s'' \<and> cv_ok \<sigma> 32 y \<and> cv_val y = take_bit 32 (signed_take_bit (8 * n - 1) (cv_val v))"
proof -
  let ?now = "get_local_time K (kernel (platform s))" and ?m = "dev_mem (devices (platform s))"
  let ?m' = "?m\<lparr>sm_memory := mem_store (sm_memory ?m) a v n\<rparr>"
  let ?s' = "with_mem ?m' (set_local_time K (?now + 10000) (kernel (platform s))) s"
  have n: "n \<in> {1, 2, 4}" using assms(3) by (simp add: mem_access_def)
  note t = le_plus_twice [OF assms(7)]
  have st: "cmi_store_data B addr v n s = Ok () ?s'"
    unfolding B by (rule bus_store [OF assms(1,3,4,5,6) refl conjunct1 [OF t] refl])
  have "mem_ok \<sigma> (sm_memory ?m)" using assms(2) by (simp add: iss_inv_def devices_ok_def)
  then obtain r where r: "mem_load (sm_memory ?m') a n = Some r" "cv_ok \<sigma> (8 * n) r"
    "cv_val r = take_bit (8 * n) (cv_val v)"
    using cm.load_store_same [of \<sigma> "sm_memory ?m" 32 v n a] assms(6) n by auto
  have ac: "mem_access STORE a n ?s'"
    using assms(3) by (auto simp: mem_access_def untranslated_def effective_mode_def split: if_splits)
  have now: "?now + 10000 = get_local_time K (kernel (platform ?s'))" using assms(1) by (simp add: keeper_ok_def)
  have "cmi_load_data B addr n ?s' = Ok r (with_mem ?m' (set_local_time K (?now + 10000 + 10000) (kernel (platform ?s'))) ?s')"
    unfolding B by (rule bus_load [OF assms(1) ac assms(4,5) now _ _ r(1,2)]) (use t in \<open>simp_all add: add.assoc\<close>)
  note ld = this
  have z: "cv_ok \<sigma> 32 (if cv_getWidth r < 32 then cv_zext r 32 else r) \<and>
      cv_val (if cv_getWidth r < 32 then cv_zext r 32 else r) = cv_val r"
    using n cv_zext_widen [OF r(2), of 32] r(2) by (auto simp: cv_ok_widths [OF r(2)])
  have "8 * n \<le> 32" "0 < n" using n by auto
  then have sx: "cv_ok \<sigma> 32 (cv_sext r 32)" "cv_val (cv_sext r 32) = take_bit 32 (signed_take_bit (8 * n - 1) (cv_val v))"
    using cv_sext_ok [OF r(2), of 32] r(3) by (auto simp: sgn_of_def signed_take_bit_take_bit)
  show ?thesis using st ld z sx r(3) by (auto simp: load_zext_def load_sext_def)
qed

theorem bus_store_load_witness:
  "let B = symex_board (candidate_klee []) (\<lambda>_. Inr []) example_host example_kernel 0 in
   \<exists>s' s'' x y. cmi_store_data B (BVC32 0x100) (BVC32 0xFFFE) 2 example_platform = Ok () s' \<and>
     load_zext B 2 (BVC32 0x100) s' = Ok x s'' \<and> cv_val x = 0xFFFE \<and>
     load_sext B 2 (BVC32 0x100) s' = Ok y s'' \<and> cv_val y = 0xFFFFFFFE"
proof -
  have k: "keeper_ok example_kernel" by (simp add: keeper_ok_def example_kernel_def)
  have a: "mem_access STORE 0x100 2 example_platform"
    by (simp add: mem_access_def untranslated_def effective_mode_def example_platform_def newISS_def Let_def
        csr_table_init_def symex_soc_def example_memory_def sm_load_data_def bget_def)
  have t: "unat (get_local_time example_kernel (kernel (platform example_platform))) + 20000 < 2 ^ 64"
    by (simp add: example_kernel_def example_platform_def newISS_def Let_def symex_soc_def)
  have v: "take_bit 16 (0xFFFE :: int) = 0xFFFE" "take_bit 32 (signed_take_bit 15 (0xFFFE :: int)) = 0xFFFFFFFE"
    by code_simp+
  show ?thesis unfolding Let_def
    using bus_store_load [OF k example_platform_inv [of "\<lambda>_ _. 0"] a BVC32_ok _ BVC32_ok [of _ "0xFFFE"] t refl, of "0x100"
        "candidate_klee []" "\<lambda>_. Inr []" example_host 0] v by auto
qed

end
