(* ===== verification/VP_MMU.thy ===== *)
theory VP_MMU
  imports VP_Platform_Props
begin

text \<open>
  Address translation on the platform: the page walk computes the translation that the privileged
  architecture defines for Sv32, and what the TLB makes of it.
\<close>

section \<open>Sv32\<close>

text \<open>
  The translation as the privileged architecture defines it, on a memory \<open>mem\<close> of page-table entries:
  two levels, superpages of 4 MiB, the checks of the entry before its use.
\<close>

definition pte_invalid :: "u64 \<Rightarrow> bool" where
  "pte_invalid pte \<longleftrightarrow> \<not> bit pte 0 \<or> \<not> bit pte 1 \<and> bit pte 2"

definition pte_leaf :: "u64 \<Rightarrow> bool" where
  "pte_leaf pte \<longleftrightarrow> bit pte 1 \<or> bit pte 3"

definition pte_allows :: "bool \<Rightarrow> bool \<Rightarrow> bool \<Rightarrow> MemoryAccessType \<Rightarrow> u64 \<Rightarrow> bool" where
  "pte_allows smode smem mx type pte \<longleftrightarrow>
     (case type of FETCH \<Rightarrow> bit pte 3 | LOAD \<Rightarrow> bit pte 1 \<or> mx \<and> bit pte 3 | STORE \<Rightarrow> bit pte 2) \<and>
     (if bit pte 4 then smode \<longrightarrow> type \<noteq> FETCH \<and> smem else smode)"

definition sv32_translate :: "(u64 \<Rightarrow> u64) \<Rightarrow> bool \<Rightarrow> bool \<Rightarrow> bool \<Rightarrow> u64 \<Rightarrow> MemoryAccessType \<Rightarrow> u64 \<Rightarrow> u64 option" where
  "sv32_translate mem smode smem mx root type va =
     (let pte1 = mem (root + 4 * (drop_bit 22 va AND 0x3FF)) in
      if pte_invalid pte1 then None
      else if pte_leaf pte1 then
        (if pte_allows smode smem mx type pte1 \<and> drop_bit 10 pte1 AND 0x3FF = 0
         then Some (push_bit 22 (drop_bit 20 pte1) OR (va AND 0x3FFFFF)) else None)
      else
        (let pte0 = mem (push_bit 12 (drop_bit 10 pte1) + 4 * (drop_bit 12 va AND 0x3FF)) in
         if \<not> pte_invalid pte0 \<and> pte_leaf pte0 \<and> pte_allows smode smem mx type pte0
         then Some (push_bit 12 (drop_bit 10 pte0) OR (va AND 0xFFF)) else None))"

text \<open>The entries the translation reads lie in the memory of the platform.\<close>

definition sv32_entries :: "(u64 \<Rightarrow> u64) \<Rightarrow> u64 \<Rightarrow> u64 \<Rightarrow> u64 set" where
  "sv32_entries mem root va =
     (let a = root + 4 * (drop_bit 22 va AND 0x3FF)
      in if pte_invalid (mem a) \<or> pte_leaf (mem a) then {a}
         else {a, push_bit 12 (drop_bit 10 (mem a)) + 4 * (drop_bit 12 va AND 0x3FF)})"

definition mem_word :: "ConcolicMemory \<Rightarrow> u64 \<Rightarrow> u64" where
  "mem_word m a = of_bytes (bytes_at (mem_byte m) (ucast a) 4)"

section \<open>The walk\<close>

lemma flag_bit: "pte_flag 1 pte = bit pte 0" "pte_flag 2 pte = bit pte 1" "pte_flag 4 pte = bit pte 2"
  "pte_flag 8 pte = bit pte 3" "pte_flag 16 pte = bit pte 4"
proof -
  have *: "pte AND 2 ^ n \<noteq> 0 \<longleftrightarrow> bit pte n" for n using and_exp_eq_0_iff_not_bit [of pte n] by simp
  show "pte_flag 1 pte = bit pte 0" "pte_flag 2 pte = bit pte 1" "pte_flag 4 pte = bit pte 2"
    "pte_flag 8 pte = bit pte 3" "pte_flag 16 pte = bit pte 4"
    using * [of 0] * [of 1] * [of 2] * [of 3] * [of 4] by (simp_all add: pte_flag_def)
qed

lemma access_permitted_iff:
  "\<not> pte_invalid pte \<Longrightarrow> access_permitted smode smem mx type pte = pte_allows smode smem mx type pte"
  by (cases type) (auto simp: access_permitted_def pte_allows_def flag_bit pte_invalid_def)

text \<open>A state with the same memory contents in which \<open>n\<close> more transactions fit before the local time wraps.\<close>

definition mem_state :: "'q systemc \<Rightarrow> SymbolicMemory \<Rightarrow> nat \<Rightarrow> ('q, 'h symex_devices) core \<Rightarrow> bool" where
  "mem_state K m n s \<longleftrightarrow> dev_mem (devices (platform s)) = m \<and> \<not> bl_locked (platform s) \<and>
     unat (get_local_time K (kernel (platform s))) + 10000 * n < 2 ^ 64"

definition in_memory :: "SymbolicMemory \<Rightarrow> u64 \<Rightarrow> bool" where
  "in_memory m a \<longleftrightarrow> unat a + 4 \<le> unat (sm_size m) \<and> a \<le> 0x1FFFFFFF"

lemma concrete_load_word:
  fixes s :: "('q, 'h symex_devices) core"
  assumes "keeper_ok K" and "mem_state K m (Suc n) s" and "mem_ok \<sigma> (sm_memory m)" and "in_memory m a"
  shows "\<exists>s'. concrete_load_data (symex_board k srcs H K depth) 4 a s = Ok (mem_word (sm_memory m) a) s' \<and>
    mem_state K m n s'"
proof -
  let ?B = "symex_board k srcs H K depth :: ('q, 'h symex_devices) board"
  let ?now = "get_local_time K (kernel (platform s))"
  let ?bs = "bytes_at (mem_byte (sm_memory m)) (ucast a) 4"
  have s: "dev_mem (devices (platform s)) = m" "\<not> bl_locked (platform s)" "unat ?now + 10000 * Suc n < 2 ^ 64"
    using assms(2) by (simp_all add: mem_state_def)
  have now: "unat (?now + 10000) = unat ?now + 10000" "?now \<le> ?now + 10000"
    using s(3) by (simp_all add: unat_word_ariths word_le_nat_alt)
  obtain v where v: "mem_load (sm_memory m) (ucast a) 4 = Some v" "cv_ok \<sigma> 32 v" "cv_val v = le_int ?bs"
    using mem_load_bytes [OF assms(3), of 4 "ucast a"] by auto
  have len: "length ?bs = 4" by simp
  have "map (\<lambda>i. word_of_int (drop_bit (i * 8) (cv_val v))) [0..<4] = ?bs"
    by (rule nth_equalityI) (simp_all only: v(3) le_int_nth length_map length_upt len nth_map nth_upt diff_zero add_0 mult.commute [of _ 8])
  then have bs: "BVCToBytes v 4 = Some ?bs" using BVCToBytes_ok [OF v(2), of 4] by simp
  let ?pl = "payload TLM_READ_COMMAND a (replicate 4 0) None"
  let ?pl' = "?pl\<lparr>tlm_data := ?bs, tlm_ext := Some v\<rparr>"
  let ?s' = "with_mem m (set_local_time K (?now + 10000) (kernel (platform s))) s"
  have a: "a + 4 \<le> sm_size m" "a \<le> 0x1FFFFFFF"
    using assms(4) unfolding in_memory_def by (auto simp: word_le_nat_alt unat_word_ariths)
  have "sm_transport m ?pl ?now = Some (m, ?pl', ?now + 10000)"
    using a bs v(1) by (simp add: sm_transport_def sm_transport_dbg_def sm_read_data_def payload_def Let_def not_less)
  then have "do_transaction ?B ?pl s = Ok ?pl' ?s'"
    using a(2) s(1) by (intro memory_transaction [OF assms(1) _ refl now(2)]) (simp_all add: payload_def)
  then have "concrete_load_data ?B 4 a s = Ok (mem_word (sm_memory m) a) ?s'"
    using s(2) by (simp add: concrete_load_data_def wait_for_access_rights_def is_locked_def mem_word_def)
  moreover have "mem_state K m n ?s'"
    using s now assms(1) by (simp add: mem_state_def keeper_ok_def)
  ultimately show ?thesis by blast
qed

lemma concrete_store_word:
  fixes s :: "('q, 'h symex_devices) core"
  assumes "keeper_ok K" and "mem_state K m (Suc n) s" and "in_memory m a"
  shows "\<exists>s'. concrete_store_data (symex_board k srcs H K depth) 4 a v s = Ok () s'"
proof -
  let ?B = "symex_board k srcs H K depth :: ('q, 'h symex_devices) board"
  let ?now = "get_local_time K (kernel (platform s))"
  have s: "dev_mem (devices (platform s)) = m" "\<not> bl_locked (platform s)" "unat ?now + 10000 * Suc n < 2 ^ 64"
    using assms(2) by (simp_all add: mem_state_def)
  have now: "?now \<le> ?now + 10000" using s(3) by (simp add: unat_word_ariths word_le_nat_alt)
  have a: "a + 4 \<le> sm_size m" "a \<le> 0x1FFFFFFF"
    using assms(3) unfolding in_memory_def by (auto simp: word_le_nat_alt unat_word_ariths)
  let ?pl = "payload TLM_WRITE_COMMAND a (to_bytes 4 v) None"
  obtain x where "BVC_bytes (to_bytes 4 v) = Some x" using BVC_bytes_ok [of "to_bytes 4 v"] by auto
  then have "sm_transport m ?pl ?now = Some (m\<lparr>sm_memory := mem_store (sm_memory m) (ucast a) x 4\<rparr>, ?pl, ?now + 10000)"
    using a by (simp add: sm_transport_def sm_transport_dbg_def sm_write_data_def payload_def Let_def not_less)
  from memory_transaction [OF assms(1) _ refl now this [folded s(1)]] a(2)
  show ?thesis using s(2)
    by (simp add: concrete_store_data_def wait_for_access_rights_def is_locked_def payload_def)
qed

definition sv32_info :: "u64 \<Rightarrow> vm_info" where
  "sv32_info root = \<lparr>levels = 2, idxbits = 10, ptesize = 4, ptbase = root\<rparr>"

definition fault :: "MemoryAccessType \<Rightarrow> u64 \<Rightarrow> error" where
  "fault type va = SimulationTrap (case type of FETCH \<Rightarrow> EXC_INSTR_PAGE_FAULT | LOAD \<Rightarrow> EXC_LOAD_PAGE_FAULT
     | STORE \<Rightarrow> EXC_STORE_AMO_PAGE_FAULT) va"

lemma page_fault_apply [simp]: "page_fault type va s = Throw (fault type va) s"
  by (cases type) (simp_all add: page_fault_def fault_def raise_trap_def)

text \<open>One level of the walk, after its entry has been read.\<close>

lemma walk_level:
  assumes "a = base + 4 * (drop_bit (12 + 10 * i) va AND 0x3FF)"
    and load: "concrete_load_data B 4 a s = Ok pte s'" and store: "\<And>v. \<exists>s''. concrete_store_data B 4 a v s' = Ok () s''"
    and "\<not> page_fault_on_AD B"
    and W_def: "W = walk_loop B (sv32_info root) smode smem mx va type"
  shows "pte_invalid pte \<Longrightarrow> W (Suc i) base s = Throw (fault type va) s'"
    and "\<not> pte_invalid pte \<Longrightarrow> \<not> pte_leaf pte \<Longrightarrow> W (Suc i) base s = W i (push_bit 12 (drop_bit 10 pte)) s'"
    and "\<not> pte_invalid pte \<Longrightarrow> pte_leaf pte \<Longrightarrow>
      \<not> (pte_allows smode smem mx type pte \<and> drop_bit 10 pte AND (push_bit (10 * i) 1 - 1) = 0) \<Longrightarrow>
      W (Suc i) base s = Throw (fault type va) s'"
    and "\<not> pte_invalid pte \<Longrightarrow> pte_leaf pte \<Longrightarrow> pte_allows smode smem mx type pte \<Longrightarrow>
      drop_bit 10 pte AND (push_bit (10 * i) 1 - 1) = 0 \<Longrightarrow>
      \<exists>s''. W (Suc i) base s = Ok (push_bit 12 ((drop_bit 10 pte AND NOT (push_bit (10 * i) 1 - 1)) OR
        (drop_bit 12 va AND (push_bit (10 * i) 1 - 1))) OR (va AND 0xFFF)) s''"
proof -
  have inv: "\<not> pte_flag PTE_V pte \<or> \<not> pte_flag PTE_R pte \<and> pte_flag PTE_W pte \<longleftrightarrow> pte_invalid pte"
    by (simp add: flag_bit pte_invalid_def)
  have leaf: "\<not> pte_flag PTE_R pte \<and> \<not> pte_flag PTE_X pte \<longleftrightarrow> \<not> pte_leaf pte"
    by (simp add: flag_bit pte_leaf_def)
  have a: "base + (drop_bit (PGSHIFT + 10 * i) va AND (push_bit (idxbits (sv32_info root)) 1 - 1)) *
      of_nat (ptesize (sv32_info root)) = a"
    using assms(1) by (simp add: sv32_info_def mult.commute)
  have sz: "(if ptesize (sv32_info root) = 4 then 4 else 8) = (4 :: nat)" "i * idxbits (sv32_info root) = 10 * i"
    by (simp_all add: sv32_info_def)
  note W = W_def walk_loop.simps Let_def a sz bindM_def load outcome.case inv leaf if_True
  show "pte_invalid pte \<Longrightarrow> W (Suc i) base s = Throw (fault type va) s'"
    by (simp only: W page_fault_apply)
  show "\<not> pte_invalid pte \<Longrightarrow> \<not> pte_leaf pte \<Longrightarrow> W (Suc i) base s = W i (push_bit 12 (drop_bit 10 pte)) s'"
    by (simp only: W if_False if_True simp_thms)
  show "W (Suc i) base s = Throw (fault type va) s'" if "\<not> pte_invalid pte" "pte_leaf pte"
    "\<not> (pte_allows smode smem mx type pte \<and> drop_bit 10 pte AND (push_bit (10 * i) 1 - 1) = 0)"
    using that access_permitted_iff [OF that(1), of smode smem mx type] by (auto simp only: W page_fault_apply if_False if_True simp_thms split: if_split)
  show "\<exists>s''. W (Suc i) base s = Ok (push_bit 12 ((drop_bit 10 pte AND NOT (push_bit (10 * i) 1 - 1)) OR
        (drop_bit 12 va AND (push_bit (10 * i) 1 - 1))) OR (va AND 0xFFF)) s''"
    if c: "\<not> pte_invalid pte" "pte_leaf pte" "pte_allows smode smem mx type pte" "drop_bit 10 pte AND (push_bit (10 * i) 1 - 1) = 0"
  proof -
    obtain t where "concrete_store_data B 4 a (pte OR (PTE_A OR (if type = STORE then PTE_D else 0))) s' = Ok () t"
      using store by blast
    then show ?thesis using c access_permitted_iff [OF c(1), of smode smem mx type] assms(4)
      by (auto simp only: W if_False if_True simp_thms seqM_def bindM_def unit_apply ret_apply outcome.case split: if_split)
  qed
qed

lemma superpage_address:
  "push_bit 12 ((drop_bit 10 pte AND NOT 0x3FF) OR (drop_bit 12 va AND 0x3FF)) OR (va AND 0xFFF) =
    push_bit 22 (drop_bit 20 pte) OR (va AND 0x3FFFFF)" for pte va :: u64
proof -
  have m: "0x3FF = (mask 10 :: u64)" "0xFFF = (mask 12 :: u64)" "0x3FFFFF = (mask 22 :: u64)"
    by (simp_all add: mask_eq_exp_minus_1)
  show ?thesis unfolding m by (rule bit_word_eqI) (auto simp: bit_simps not_le not_less)
qed

text \<open>The last level: an entry that points on is a fault.\<close>

lemma walk_level0:
  fixes s :: "('q, 'h symex_devices) core"
  assumes "keeper_ok K" and "mem_state K m (Suc (Suc n)) s" and "mem_ok \<sigma> (sm_memory m)"
    and a: "a = base + 4 * (drop_bit 12 va AND 0x3FF)" and "in_memory m a" and pte: "pte = mem_word (sm_memory m) a"
    and B: "B = symex_board k srcs H K depth"
  shows "if \<not> pte_invalid pte \<and> pte_leaf pte \<and> pte_allows smode smem mx type pte
    then \<exists>s'. walk_loop B (sv32_info root) smode smem mx va type 1 base s =
      Ok (push_bit 12 (drop_bit 10 pte) OR (va AND 0xFFF)) s'
    else \<exists>s'. walk_loop B (sv32_info root) smode smem mx va type 1 base s = Throw (fault type va) s'"
proof -
  obtain s1 where s1: "concrete_load_data B 4 a s = Ok pte s1" "mem_state K m (Suc n) s1"
    unfolding B pte using concrete_load_word [OF assms(1,2,3,5)] by blast
  have st: "\<exists>t. concrete_store_data B 4 a v s1 = Ok () t" for v
    unfolding B by (rule concrete_store_word [OF assms(1) s1(2) assms(5)])
  have AD: "\<not> page_fault_on_AD B" unfolding B by (cases depth) (simp_all add: symex_board_def)
  note L = walk_level [where i = 0, OF _ s1(1) st AD refl, unfolded One_nat_def [symmetric], of base va]
  show ?thesis
    using L(1) L(2) L(3) L(4) a by (cases "pte_invalid pte"; cases "pte_leaf pte") auto
qed

lemma walk_sv32:
  fixes s :: "('q, 'h symex_devices) core"
  assumes "keeper_ok K" and "mem_state K m 3 s" and "mem_ok \<sigma> (sm_memory m)" and "mode \<in> {SupervisorMode, UserMode}"
    and "bget satp_mode (csr_satp (csrs s)) = 1" and "root = push_bit 12 (ucast (bget satp_ppn (csr_satp (csrs s))))"
    and "\<forall>a \<in> sv32_entries (mem_word (sm_memory m)) root va. in_memory m a"
  shows "case sv32_translate (mem_word (sm_memory m)) (mode = SupervisorMode) (get_mstatus sum_bit (csrs s) \<noteq> 0)
      (get_mstatus mxr (csrs s) \<noteq> 0) root type va of
    Some pa \<Rightarrow> \<exists>s'. walk (symex_board k srcs H K depth) va type mode s = Ok pa s'
  | None \<Rightarrow> \<exists>s'. walk (symex_board k srcs H K depth) va type mode s = Throw (fault type va) s'"
proof -
  let ?B = "symex_board k srcs H K depth :: ('q, 'h symex_devices) board"
  let ?S = "mode = SupervisorMode" and ?sum = "get_mstatus sum_bit (csrs s) \<noteq> 0" and ?mxr = "get_mstatus mxr (csrs s) \<noteq> 0"
  let ?rd = "mem_word (sm_memory m)"
  let ?W = "walk_loop ?B (sv32_info root) ?S ?sum ?mxr va type"
  let ?a1 = "root + 4 * (drop_bit 22 va AND 0x3FF)"
  let ?a0 = "push_bit 12 (drop_bit 10 (?rd ?a1)) + 4 * (drop_bit 12 va AND 0x3FF)"
  have AD: "\<not> page_fault_on_AD ?B" by (cases depth) (simp_all add: symex_board_def)
  have vm: "decode_vm_info mode s = Ok (sv32_info root) s"
    using assms(4-6) by (auto simp: decode_vm_info_def Let_def switch_def sv32_info_def)
  have "drop_bit 31 va AND 1 = 0 \<or> drop_bit 31 va AND 1 = 1" by (simp add: and_one_eq mod2_eq_if)
  then have "check_vaddr_extension va (sv32_info root)"
    by (auto simp: check_vaddr_extension_def sv32_info_def Let_def)
  then have "walk ?B va type mode s = ?W 2 root s"
    using vm by (simp add: walk_def sv32_info_def)
  then have walk: "walk ?B va type mode s = ?W (Suc 1) root s" by (simp only: Suc_1)
  have a1: "in_memory m ?a1" using assms(7) by (auto simp: sv32_entries_def Let_def split: if_splits)
  obtain s1 where s1: "concrete_load_data ?B 4 ?a1 s = Ok (?rd ?a1) s1" "mem_state K m (Suc (Suc 0)) s1"
    using concrete_load_word [OF assms(1) assms(2) [unfolded numeral_3_eq_3] assms(3) a1] by blast
  have st1: "\<exists>t. concrete_store_data ?B 4 ?a1 v s1 = Ok () t" for v
    by (rule concrete_store_word [OF assms(1) s1(2) a1])
  note L1 = walk_level [where i = 1, OF _ s1(1) st1 AD refl, where base = root and va = va and root = root and smode = ?S and smem = ?sum and mx = ?mxr and type = type]
  have a: "?a1 = root + 4 * (drop_bit (12 + 10 * 1) va AND 0x3FF)" "push_bit (10 * 1) (1 :: u64) - 1 = 0x3FF"
    by (simp_all add: push_bit_eq_mult)
  show ?thesis
  proof (cases "pte_invalid (?rd ?a1)")
    case True
    then show ?thesis using L1(1) [OF a(1) True] unfolding walk by (simp add: sv32_translate_def)
  next
    case valid: False
    show ?thesis
    proof (cases "pte_leaf (?rd ?a1)")
      case True
      then show ?thesis using L1(3,4) [OF a(1) valid True, unfolded a(2) superpage_address] valid
        unfolding walk by (auto simp: sv32_translate_def Let_def)
    next
      case False
      have "in_memory m ?a0" using assms(7) valid False by (simp add: sv32_entries_def Let_def)
      from walk_level0 [OF assms(1) s1(2) assms(3) refl this refl refl, where smode = ?S and smem = ?sum and mx = ?mxr and type = type and root = root and k = k and srcs = srcs and H = H and depth = depth] show ?thesis
        using L1(2) [OF a(1) valid False] valid False unfolding walk by (auto simp: sv32_translate_def Let_def split: if_splits)
    qed
  qed
qed


text \<open>A memory whose page table at \<open>0x1000\<close> maps the first superpage to the page number with the high byte \<open>hi\<close>.\<close>

definition paged_platform :: "u8 \<Rightarrow> (u64, nat symex_devices) core" where
  "paged_platform hi = (newISS 0 False (symex_soc 0 0 (sm_load_data \<lparr>sm_size = 0x20000000, sm_memory = Map.empty\<rparr> [0xCF, 0, 0, hi] 0x1000) 0)
     newTrace \<lparr>next_run = Map.empty, last_run = Map.empty\<rparr>)
     \<lparr>prv := SupervisorMode, csrs := csr_table_init\<lparr>csr_satp := 0x80000001\<rparr>\<rparr>"


section \<open>The TLB\<close>

lemma translate_paged:
  assumes "bget satp_mode (csr_satp (csrs s)) \<noteq> 0" and "effective_mode type s = mode" and "mode \<in> {SupervisorMode, UserMode}"
    and "u = upd_soc (keeper_inc B 30000) s" and "i = unat (drop_bit 12 va mod 256)"
  shows "translate_virtual_to_physical_addr B va type s =
    (case tlb (platform s) (unat mode) (access_index type) i of
      (ppn, tag) \<Rightarrow> if tag = drop_bit 12 va then Ok (ppn OR (va AND PGMASK)) u
        else (case walk B va type mode u of
          Ok pa t \<Rightarrow> Ok pa (put_tlb (unat mode) (access_index type) i (pa AND 0xFFFFF000, drop_bit 12 va) t)
        | Throw e t \<Rightarrow> Throw e t))"
proof -
  have m: "mode \<noteq> MachineMode" "mode = 0 \<or> mode = 1" using assms(3) by auto
  have x: "ucast (NOT (0xFFF :: u32)) = (0xFFFFF000 :: u64)" by simp
  have u: "tlb (platform u) = tlb (platform s)" using assms(4) by (simp add: upd_soc_def keeper_inc_def)
  show ?thesis
    using assms(1,2,4,5) m u
    by (auto simp: translate_virtual_to_physical_addr_def Let_def x seqM_def bindM_def split: prod.splits outcome.splits)
qed


lemma paged_platform_inv: "core_inv (soc_ok \<sigma>) \<sigma> (paged_platform hi)"
proof -
  let ?m = "sm_load_data \<lparr>sm_size = 0x20000000, sm_memory = Map.empty\<rparr> [0xCF, 0, 0, hi] 0x1000"
  have "mem_ok \<sigma> (sm_memory ?m)" by (rule sm_load_data_ok) (simp add: mem_ok_def)
  moreover have "csr_inv (csr_table_init\<lparr>csr_satp := 0x80000001\<rparr>)" "aligned (csr_table_init\<lparr>csr_satp := 0x80000001\<rparr>) 0" by code_simp+
  ultimately show ?thesis
    by (simp add: core_inv_def paged_platform_def newISS_def Let_def regs_ok_def newRegFile_def newTrace_ok symex_soc_def devices_ok_def)
qed


end
