(* ===== verification/Symex_Explore.thy ===== *)
theory Symex_Explore
  imports Clover_Trace "HOL-Library.Sublist"
begin

text \<open>
  The exploration of a program (\<open>symex/symbolic_explore.cpp\<close>): the simulation is repeated with the
  inputs clover finds until no path is left.  The simulation of one run is a parameter; for a
  program that decides on its inputs by a finite tree of conditions the exploration ends, and
  every path it has not executed leaves the tree at a condition the solver has refuted.
\<close>

section \<open>The exploration\<close>

datatype explore_end = Exhausted | Budget_exceeded | Simulation_failed | Exploration_aborted

text \<open>
  \<open>expired\<close> compares the clock with the time budget (constantly false without one); \<open>sim\<close> is
  \<open>sc_elab_and_sim\<close>, \<open>None\<close> a simulation that never returns.  \<open>'r\<close> is the state of the random
  generator and of everything else outside the program.
\<close>

type_synonym 'r simulation = "Trace \<Rightarrow> ExecutionContext \<Rightarrow> 'r \<Rightarrow> (int \<times> Trace \<times> ExecutionContext \<times> 'r) option"

partial_function (option) explore_loop ::
  "klee \<Rightarrow> ('r \<Rightarrow> nat \<times> 'r) \<Rightarrow> ('r \<Rightarrow> bool \<times> 'r) \<Rightarrow> 'r simulation \<Rightarrow> u64 \<Rightarrow> Trace \<Rightarrow> ExecutionContext \<Rightarrow> 'r \<Rightarrow>
    (explore_end \<times> u64 \<times> Trace \<times> ExecutionContext \<times> 'r) option"
where
  "explore_loop k rand expired sim paths_found tracer ctx r =
     (case expired r of (late, r0) \<Rightarrow>
        if late then Some (Budget_exceeded, paths_found, tracer, ctx, r0)
        else
          (case sim (trace_reset tracer) ctx r0 of
             None \<Rightarrow> None
           | Some (code, t1, c1, r1) \<Rightarrow>
               if code \<noteq> 0 then Some (Simulation_failed, word_of_int code, t1, c1, r1)
               else
                 (case setupNewValues_trace k rand r1 t1 c1 of
                    None \<Rightarrow> Some (Exploration_aborted, paths_found + 1, t1, c1, r1)
                  | Some (go, t2, c2, r2) \<Rightarrow>
                      if go then explore_loop k rand expired sim (paths_found + 1) t2 c2 r2
                      else Some (Exhausted, paths_found + 1, t2, c2, r2))))"

declare explore_loop.simps [code]

definition explore_paths ::
  "klee \<Rightarrow> ('r \<Rightarrow> nat \<times> 'r) \<Rightarrow> ('r \<Rightarrow> bool \<times> 'r) \<Rightarrow> 'r simulation \<Rightarrow> Trace \<Rightarrow> ExecutionContext \<Rightarrow> 'r \<Rightarrow>
    (explore_end \<times> u64 \<times> Trace \<times> ExecutionContext \<times> 'r) option"
where
  "explore_paths k rand expired sim tracer ctx r = explore_loop k rand expired sim 0 tracer ctx r"

section \<open>Programs\<close>

text \<open>The conditions a program evaluates on its symbolic inputs, and one run of it under the inputs \<open>\<sigma>\<close>.\<close>

datatype prog = Done | Decide expr prog prog

primrec prog_ok :: "prog \<Rightarrow> bool" where
  "prog_ok Done \<longleftrightarrow> True"
| "prog_ok (Decide e p q) \<longleftrightarrow> bool_expr e \<and> prog_ok p \<and> prog_ok q"

primrec prog_path :: "assignment \<Rightarrow> prog \<Rightarrow> bool list" where
  "prog_path \<sigma> Done = []"
| "prog_path \<sigma> (Decide e p q) = (if eval \<sigma> e \<noteq> 0 then True # prog_path \<sigma> p else False # prog_path \<sigma> q)"

primrec run_prog :: "klee \<Rightarrow> assignment \<Rightarrow> prog \<Rightarrow> Trace \<Rightarrow> Trace option" where
  "run_prog k \<sigma> Done t = Some t"
| "run_prog k \<sigma> (Decide e p q) t =
     (case trace_add k (eval \<sigma> e \<noteq> 0) e t of
        None \<Rightarrow> None
      | Some t' \<Rightarrow> if eval \<sigma> e \<noteq> 0 then run_prog k \<sigma> p t' else run_prog k \<sigma> q t')"

text \<open>
  What the exploration relies on.  A simulation runs the program on inputs that agree with the
  values set up for it.  The values the solver finds decide the query, whatever inputs the query
  does not mention hold.
\<close>

definition simulates :: "klee \<Rightarrow> prog \<Rightarrow> 'r simulation \<Rightarrow> bool" where
  "simulates k P sim \<longleftrightarrow> (\<forall>t c r. \<exists>\<sigma> c' r'. run_store \<sigma> (next_run c) \<and>
     sim t c r = map_option (\<lambda>t'. (0, t', c', r')) (run_prog k \<sigma> P t))"

definition solver_values :: "klee \<Rightarrow> bool" where
  "solver_values k \<longleftrightarrow> (\<forall>cs e as. list_all bool_expr cs \<longrightarrow> bool_expr e \<longrightarrow> getInitialValues k (cs, e) = Some as \<longrightarrow>
     (\<exists>st. getStore as = Some st \<and> (\<forall>\<sigma>. run_store \<sigma> st \<longrightarrow> sat \<sigma> cs \<and> eval \<sigma> e = 0)))"

section \<open>The explored part of a program\<close>

fun partial :: "prog \<Rightarrow> Branch \<Rightarrow> bool" where
  "partial Done b \<longleftrightarrow> b = newBranch"
| "partial (Decide e p q) b \<longleftrightarrow> b = newBranch \<or> br_bv b = Some e \<and>
     (\<forall>c. true_branch b = Some c \<longrightarrow> partial p c) \<and> (\<forall>c. false_branch b = Some c \<longrightarrow> partial q c)"

fun sub_prog :: "prog \<Rightarrow> bool list \<Rightarrow> prog option" where
  "sub_prog P [] = Some P"
| "sub_prog Done (d # ds) = None"
| "sub_prog (Decide e p q) (d # ds) = sub_prog (if d then p else q) ds"

definition tree_dom :: "Branch \<Rightarrow> bool list set" where
  "tree_dom b = {ds. branch_at b ds \<noteq> None}"

definition prog_dom :: "prog \<Rightarrow> bool list set" where
  "prog_dom P = {ds. sub_prog P ds \<noteq> None}"

definition half_path :: "Branch \<Rightarrow> Path \<Rightarrow> bool" where
  "half_path b p \<longleftrightarrow> path_in b p \<and> map snd p \<in> tree_dom b \<and> flip_last (map snd p) \<notin> tree_dom b"

lemma partial_new [simp]: "partial P newBranch"
  by (cases P) simp_all

lemma partial_dom: "partial P b \<Longrightarrow> branch_at b ds \<noteq> None \<Longrightarrow> sub_prog P ds \<noteq> None"
proof (induction P ds arbitrary: b rule: sub_prog.induct)
  case (3 e p q d ds)
  then show ?case by (auto simp: newBranch_def split: option.splits if_splits)
qed (auto simp: newBranch_def split: if_splits)

lemma tree_dom_prog: "partial P b \<Longrightarrow> tree_dom b \<subseteq> prog_dom P"
  using partial_dom by (auto simp: tree_dom_def prog_dom_def)

lemma prog_dom_finite: "finite (prog_dom P)"
proof (induction P)
  case Done
  have "prog_dom Done = {[]}" by (auto simp: prog_dom_def neq_Nil_conv elim: sub_prog.elims)
  then show ?case by simp
next
  case (Decide e p q)
  have "prog_dom (Decide e p q) \<subseteq> insert [] ((#) True ` prog_dom p \<union> (#) False ` prog_dom q)"
  proof
    fix ds assume "ds \<in> prog_dom (Decide e p q)"
    then show "ds \<in> insert [] ((#) True ` prog_dom p \<union> (#) False ` prog_dom q)"
      by (cases ds) (auto simp: prog_dom_def split: if_splits)
  qed
  then show ?case using Decide by (auto intro: finite_subset)
qed

lemma flips_prefix:
  assumes "path_in b p" and "flips \<sigma> p" and "partial P b"
  shows "prefix (flip_last (map snd p)) (prog_path \<sigma> P)"
  using assms
proof (induction b p arbitrary: P rule: path_in.induct)
  case (2 b e c)
  then show ?case by (cases P) (auto simp: flips_def newBranch_def)
next
  case (3 b e c x p)
  obtain d where d: "(if c then true_branch b else false_branch b) = Some d" "path_in d (x # p)" "br_bv b = Some e"
    using "3.prems"(1) by (auto split: option.splits)
  have c: "(eval \<sigma> e \<noteq> 0) = c" "flips \<sigma> (x # p)" using "3.prems"(2) by (auto simp: flips_def)
  obtain p1 q1 where P: "P = Decide e p1 q1" "partial (if c then p1 else q1) d"
    using "3.prems"(3) d by (cases P) (auto simp: newBranch_def split: if_splits)
  from "3.IH" [OF d(1,2) c(2) P(2)] show ?case using P(1) c(1) by (cases x) auto
qed simp

lemma half_path_single: "half_path b [(e, c)] \<longleftrightarrow> br_bv b = Some e \<and>
    (if c then true_branch b else false_branch b) \<noteq> None \<and> (if c then false_branch b else true_branch b) = None"
  by (auto simp: half_path_def tree_dom_def split: option.splits)

lemma path_in_Cons:
  assumes "p \<noteq> []"
  shows "path_in b ((e, c) # p) \<longleftrightarrow> br_bv b = Some e \<and>
    (case (if c then true_branch b else false_branch b) of None \<Rightarrow> False | Some d \<Rightarrow> path_in d p)"
  using assms by (cases p) auto

lemma half_path_Cons:
  assumes "p \<noteq> []"
  shows "half_path b ((e, c) # p) \<longleftrightarrow> br_bv b = Some e \<and>
    (case (if c then true_branch b else false_branch b) of None \<Rightarrow> False | Some d \<Rightarrow> half_path d p)"
  using assms by (cases "if c then true_branch b else false_branch b") (auto simp: half_path_def tree_dom_def path_in_Cons)

lemma half_path_Nil [simp]: "\<not> half_path b []"
  by (simp add: half_path_def)

lemma open_half: "branch_wf b \<Longrightarrow> open_path b p \<Longrightarrow> half_path b p"
proof (induction b p rule: open_path.induct)
  case (2 b e c)
  then show ?case by (cases b) (auto simp: half_path_single halfOpen_def)
next
  case (3 b e c x p)
  then show ?case by (cases b) (auto simp: half_path_Cons split: option.splits if_splits)
qed simp

lemma half_path_shape:
  assumes "same_shape b b'"
  shows "half_path b' p = half_path b p"
proof -
  have s: "same_shape b' b" using assms by (simp add: same_shape_def)
  have "tree_dom b' = tree_dom b" using same_shape_at [OF assms] by (auto simp: tree_dom_def)
  then show ?thesis using path_in_shape [OF assms] path_in_shape [OF s] by (auto simp: half_path_def)
qed

text \<open>
  How a run under \<open>\<sigma>\<close> changes the tree: a node with one side is new or was there, a node that could
  be chosen still can, a node on a new path is reached by \<open>\<sigma>\<close>, and no node is lost.
\<close>

definition step_ok :: "assignment \<Rightarrow> Branch \<Rightarrow> Branch \<Rightarrow> bool" where
  "step_ok \<sigma> b b' \<longleftrightarrow> (\<forall>p. half_path b' p \<longrightarrow> half_path b p \<or> open_path b' p) \<and>
     (\<forall>p. open_path b p \<longrightarrow> half_path b' p \<longrightarrow> open_path b' p) \<and>
     (\<forall>p. path_in b' p \<longrightarrow> path_in b p \<or> takes \<sigma> (butlast p)) \<and> tree_dom b \<subseteq> tree_dom b'"

lemma step_ok_refl: "step_ok \<sigma> b b"
  by (simp add: step_ok_def)

lemma step_ok_trans: "step_ok \<sigma> a b \<Longrightarrow> step_ok \<sigma> b c \<Longrightarrow> step_ok \<sigma> a c"
  unfolding step_ok_def by blast

lemma step_ok_child:
  assumes "step_ok \<sigma> c c'"
  shows "eval \<sigma> e \<noteq> 0 \<Longrightarrow> step_ok \<sigma> (Branch (Some e) n (Some c) f) (Branch (Some e) n (Some c') f)"
    and "eval \<sigma> e = 0 \<Longrightarrow> step_ok \<sigma> (Branch (Some e) n t (Some c)) (Branch (Some e) n t (Some c'))"
proof -
  note c = assms [unfolded step_ok_def]
  have dom: "tree_dom (Branch (Some e) n (Some c) f) \<subseteq> tree_dom (Branch (Some e) n (Some c') f)"
    "tree_dom (Branch (Some e) n t (Some c)) \<subseteq> tree_dom (Branch (Some e) n t (Some c'))"
  proof -
    have "branch_at c ds \<noteq> None \<Longrightarrow> branch_at c' ds \<noteq> None" for ds using c by (auto simp: tree_dom_def)
    then have "branch_at (Branch (Some e) n (Some c) f) ds \<noteq> None \<Longrightarrow> branch_at (Branch (Some e) n (Some c') f) ds \<noteq> None"
      "branch_at (Branch (Some e) n t (Some c)) ds \<noteq> None \<Longrightarrow> branch_at (Branch (Some e) n t (Some c')) ds \<noteq> None" for ds
      by (cases ds; auto split: if_splits)+
    then show "tree_dom (Branch (Some e) n (Some c) f) \<subseteq> tree_dom (Branch (Some e) n (Some c') f)"
      "tree_dom (Branch (Some e) n t (Some c)) \<subseteq> tree_dom (Branch (Some e) n t (Some c'))"
      unfolding tree_dom_def by blast+
  qed
  have "step_ok \<sigma> (Branch (Some e) n (Some c) f) (Branch (Some e) n (Some c') f)" if "eval \<sigma> e \<noteq> 0"
    unfolding step_ok_def
  proof (intro conjI allI impI dom)
    fix p
    show "half_path (Branch (Some e) n (Some c') f) p \<Longrightarrow> half_path (Branch (Some e) n (Some c) f) p \<or> open_path (Branch (Some e) n (Some c') f) p"
      using c by (cases p rule: path_cases) (auto simp: half_path_single half_path_Cons open_path_Cons split: if_splits)
    show "open_path (Branch (Some e) n (Some c) f) p \<Longrightarrow> half_path (Branch (Some e) n (Some c') f) p \<Longrightarrow> open_path (Branch (Some e) n (Some c') f) p"
      using c by (cases p rule: path_cases) (auto simp: half_path_single half_path_Cons open_path_Cons halfOpen_def split: if_splits)
    show "path_in (Branch (Some e) n (Some c') f) p \<Longrightarrow> path_in (Branch (Some e) n (Some c) f) p \<or> takes \<sigma> (butlast p)"
      using c that by (cases p rule: path_cases) (auto simp: path_in_Cons split: if_splits)
  qed
  then show "eval \<sigma> e \<noteq> 0 \<Longrightarrow> step_ok \<sigma> (Branch (Some e) n (Some c) f) (Branch (Some e) n (Some c') f)" by simp
  have "step_ok \<sigma> (Branch (Some e) n t (Some c)) (Branch (Some e) n t (Some c'))" if "eval \<sigma> e = 0"
    unfolding step_ok_def
  proof (intro conjI allI impI dom)
    fix p
    show "half_path (Branch (Some e) n t (Some c')) p \<Longrightarrow> half_path (Branch (Some e) n t (Some c)) p \<or> open_path (Branch (Some e) n t (Some c')) p"
      using c by (cases p rule: path_cases) (auto simp: half_path_single half_path_Cons open_path_Cons split: if_splits)
    show "open_path (Branch (Some e) n t (Some c)) p \<Longrightarrow> half_path (Branch (Some e) n t (Some c')) p \<Longrightarrow> open_path (Branch (Some e) n t (Some c')) p"
      using c by (cases p rule: path_cases) (auto simp: half_path_single half_path_Cons open_path_Cons halfOpen_def split: if_splits)
    show "path_in (Branch (Some e) n t (Some c')) p \<Longrightarrow> path_in (Branch (Some e) n t (Some c)) p \<or> takes \<sigma> (butlast p)"
      using c that by (cases p rule: path_cases) (auto simp: path_in_Cons split: if_splits)
  qed
  then show "eval \<sigma> e = 0 \<Longrightarrow> step_ok \<sigma> (Branch (Some e) n t (Some c)) (Branch (Some e) n t (Some c'))" by simp
qed

lemma new_paths [simp]: "\<not> path_in newBranch r" "\<not> half_path newBranch r" "\<not> open_path newBranch r"
proof -
  show p: "\<not> path_in newBranch r" by (cases r rule: path_cases) (auto simp: newBranch_def path_in_Cons)
  then show "\<not> half_path newBranch r" by (simp add: half_path_def)
  show "\<not> open_path newBranch r" using p open_path_in by blast
qed

lemma tree_dom_children:
  "tree_dom (Branch e n t f) = insert [] ((#) True ` (\<Union>c \<in> set_option t. tree_dom c) \<union> (#) False ` (\<Union>c \<in> set_option f. tree_dom c))"
proof (rule set_eqI)
  fix ds
  show "ds \<in> tree_dom (Branch e n t f) \<longleftrightarrow>
      ds \<in> insert [] ((#) True ` (\<Union>c \<in> set_option t. tree_dom c) \<union> (#) False ` (\<Union>c \<in> set_option f. tree_dom c))"
    by (cases ds) (auto simp: tree_dom_def split: option.splits if_splits)
qed

text \<open>The three ways \<open>add\<close> changes the node it is at.\<close>

lemma step_ok_fresh:
  "step_ok \<sigma> newBranch (Branch (Some e) False (Some newBranch) None)"
  "step_ok \<sigma> newBranch (Branch (Some e) False None (Some newBranch))"
proof -
  have "half_path (Branch (Some e) False (Some newBranch) None) r \<Longrightarrow> open_path (Branch (Some e) False (Some newBranch) None) r"
    "path_in (Branch (Some e) False (Some newBranch) None) r \<Longrightarrow> takes \<sigma> (butlast r)"
    "half_path (Branch (Some e) False None (Some newBranch)) r \<Longrightarrow> open_path (Branch (Some e) False None (Some newBranch)) r"
    "path_in (Branch (Some e) False None (Some newBranch)) r \<Longrightarrow> takes \<sigma> (butlast r)" for r
    by (cases r rule: path_cases; auto simp: half_path_single half_path_Cons path_in_Cons halfOpen_def split: if_splits)+
  moreover have "tree_dom newBranch \<subseteq> tree_dom (Branch x n t f)" for x n t f
    unfolding newBranch_def tree_dom_children by auto
  ultimately show "step_ok \<sigma> newBranch (Branch (Some e) False (Some newBranch) None)"
    "step_ok \<sigma> newBranch (Branch (Some e) False None (Some newBranch))"
    by (simp_all add: step_ok_def)
qed

lemma step_ok_other:
  "f \<noteq> None \<Longrightarrow> step_ok \<sigma> (Branch (Some e) n None f) (Branch (Some e) n (Some newBranch) f)"
  "t \<noteq> None \<Longrightarrow> step_ok \<sigma> (Branch (Some e) n t None) (Branch (Some e) n t (Some newBranch))"
proof -
  have p: "f \<noteq> None \<Longrightarrow> half_path (Branch (Some e) n (Some newBranch) f) r \<Longrightarrow> half_path (Branch (Some e) n None f) r"
    "f \<noteq> None \<Longrightarrow> open_path (Branch (Some e) n None f) r \<Longrightarrow> half_path (Branch (Some e) n (Some newBranch) f) r \<Longrightarrow>
      open_path (Branch (Some e) n (Some newBranch) f) r"
    "path_in (Branch (Some e) n (Some newBranch) f) r \<Longrightarrow> path_in (Branch (Some e) n None f) r"
    "t \<noteq> None \<Longrightarrow> half_path (Branch (Some e) n t (Some newBranch)) r \<Longrightarrow> half_path (Branch (Some e) n t None) r"
    "t \<noteq> None \<Longrightarrow> open_path (Branch (Some e) n t None) r \<Longrightarrow> half_path (Branch (Some e) n t (Some newBranch)) r \<Longrightarrow>
      open_path (Branch (Some e) n t (Some newBranch)) r"
    "path_in (Branch (Some e) n t (Some newBranch)) r \<Longrightarrow> path_in (Branch (Some e) n t None) r" for r
    by (cases r rule: path_cases; auto simp: half_path_single half_path_Cons path_in_Cons open_path_Cons split: if_splits)+
  have d: "tree_dom (Branch (Some e) n None f) \<subseteq> tree_dom (Branch (Some e) n (Some newBranch) f)"
    "tree_dom (Branch (Some e) n t None) \<subseteq> tree_dom (Branch (Some e) n t (Some newBranch))"
    unfolding tree_dom_children by auto
  show "f \<noteq> None \<Longrightarrow> step_ok \<sigma> (Branch (Some e) n None f) (Branch (Some e) n (Some newBranch) f)"
    using p(1-3) d(1) unfolding step_ok_def by blast
  show "t \<noteq> None \<Longrightarrow> step_ok \<sigma> (Branch (Some e) n t None) (Branch (Some e) n t (Some newBranch))"
    using p(4-6) d(2) unfolding step_ok_def by blast
qed

lemma branch_add_step:
  assumes "partial P b" and "branch_wf b" and "sub_prog P pos = Some (Decide e p q)" and "branch_at b pos \<noteq> None"
    and "prefix (pos @ [cond]) (prog_path \<sigma> P)"
  shows "step_ok \<sigma> b (branch_add pos cond e b) \<and> partial P (branch_add pos cond e b)"
  using assms
proof (induction pos arbitrary: P b)
  case Nil
  then have P: "P = Decide e p q" by simp
  show ?case
  proof (cases "b = newBranch")
    case True
    then show ?thesis using P step_ok_fresh [of \<sigma> e] partial_new [unfolded newBranch_def]
      by (cases cond) (auto simp: newBranch_def or_new_def)
  next
    case False
    obtain n t f where b: "b = Branch (Some e) n t f" using Nil(1) P False by (cases b) auto
    have "t \<noteq> None \<or> f \<noteq> None" using Nil(2) b by auto
    then have "step_ok \<sigma> b (branch_add [] cond e b)"
      using b step_ok_other [of f \<sigma> e n] step_ok_other [of t \<sigma> e n] step_ok_refl [of \<sigma> b]
      by (cases cond; cases t; cases f) auto
    moreover have "partial P (branch_add [] cond e b)"
      using Nil(1) P b False by (cases cond) (auto simp: or_new_def split: option.splits)
    ultimately show ?thesis ..
  qed
next
  case (Cons d ds)
  then obtain e' p' q' where P: "P = Decide e' p' q'" by (cases P) auto
  obtain n t f where b: "b = Branch (Some e') n t f"
    using Cons.prems(1,4) P by (cases b) (auto simp: newBranch_def split: if_splits)
  obtain c where c: "(if d then t else f) = Some c" "branch_at c ds \<noteq> None"
    using Cons.prems(4) b by (cases d) (auto split: option.splits)
  have d: "d = (eval \<sigma> e' \<noteq> 0)" "prefix (ds @ [cond]) (prog_path \<sigma> (if d then p' else q'))"
    using Cons.prems(5) P by (auto split: if_splits)
  have "partial (if d then p' else q') c" "branch_wf c" using Cons.prems(1,2) P b c(1) by (auto simp: newBranch_def split: if_splits)
  from Cons.IH [OF this _ c(2) d(2)] Cons.prems(3) P
  have IH: "step_ok \<sigma> c (branch_add ds cond e c)" "partial (if d then p' else q') (branch_add ds cond e c)" by auto
  show ?case using IH P b c(1) d(1) Cons.prems(1) step_ok_child [OF IH(1), of e' n]
    by (cases d) (auto simp: newBranch_def)
qed

text \<open>The nodes no condition has been recorded at, and the ends of the program.\<close>

definition leaves :: "Branch \<Rightarrow> bool list set" where
  "leaves b = {ds. map_option br_bv (branch_at b ds) = Some None}"

definition done_dom :: "prog \<Rightarrow> bool list set" where
  "done_dom P = {ds. sub_prog P ds = Some Done}"

lemma leaves_Cons [simp]:
  "d # ds \<in> leaves (Branch e n t f) \<longleftrightarrow> (\<exists>c. (if d then t else f) = Some c \<and> ds \<in> leaves c)"
  by (auto simp: leaves_def split: option.splits)

lemma leaves_Nil [simp]: "[] \<in> leaves b \<longleftrightarrow> br_bv b = None"
  by (simp add: leaves_def)

lemma leaves_new [simp]: "ds \<in> leaves newBranch \<longleftrightarrow> ds = []"
  by (cases ds) (auto simp: newBranch_def)

lemma branch_add_leaves:
  "ds \<in> leaves (branch_add pos c e b) \<Longrightarrow> ds \<in> leaves b \<and> ds \<noteq> pos \<or> ds = pos @ [c]"
proof (induction pos c e b arbitrary: ds rule: branch_add.induct)
  case (1 c bv b n t f)
  then show ?case by (cases ds) (auto simp: or_new_def Let_def split: if_splits option.splits)
next
  case (2 d dirs c bv b n t f)
  then show ?case by (cases ds) (auto split: if_splits)
qed

lemma branch_at_append:
  "branch_at b (ds @ es) = (case branch_at b ds of None \<Rightarrow> None | Some c \<Rightarrow> branch_at c es)"
  by (induction b ds rule: branch_at.induct) (auto split: option.split)

section \<open>A run\<close>

text \<open>Before and during a run: the tree is an explored part of the program, and \<open>\<sigma>\<close> has led to the current node.\<close>

definition at_prog :: "assignment \<Rightarrow> prog \<Rightarrow> Trace \<Rightarrow> prog \<Rightarrow> bool" where
  "at_prog \<sigma> P t Q \<longleftrightarrow> trace_ok \<sigma> t \<and> partial P (pathCondsRoot t) \<and>
     (let pos = (case pathCondsCurrent t of Some p \<Rightarrow> p | None \<Rightarrow> [])
      in sub_prog P pos = Some Q \<and> prog_path \<sigma> P = pos @ prog_path \<sigma> Q \<and> branch_at (pathCondsRoot t) pos \<noteq> None \<and>
        leaves (pathCondsRoot t) \<subseteq> insert pos (done_dom P))"

lemma sub_prog_append: "sub_prog P ds = Some Q \<Longrightarrow> sub_prog P (ds @ es) = sub_prog Q es"
  by (induction P ds rule: sub_prog.induct) auto

lemma sub_prog_ok: "prog_ok P \<Longrightarrow> sub_prog P ds = Some Q \<Longrightarrow> prog_ok Q"
  by (induction P ds rule: sub_prog.induct) (auto split: if_splits)

lemma run_prog_works:
  assumes "klee_ok k" and "prog_ok P"
  shows "at_prog \<sigma> P t Q \<Longrightarrow> \<exists>t'. run_prog k \<sigma> Q t = Some t' \<and> at_prog \<sigma> P t' Done \<and>
    step_ok \<sigma> (pathCondsRoot t) (pathCondsRoot t')"
proof (induction Q arbitrary: t)
  case Done
  then show ?case by (simp add: step_ok_refl)
next
  case (Decide e p q)
  define pos where "pos = (case pathCondsCurrent t of Some p \<Rightarrow> p | None \<Rightarrow> [])"
  let ?c = "eval \<sigma> e \<noteq> 0" and ?root = "pathCondsRoot t"
  have a: "trace_ok \<sigma> t" "partial P ?root" "sub_prog P pos = Some (Decide e p q)"
    "prog_path \<sigma> P = pos @ prog_path \<sigma> (Decide e p q)" "branch_at ?root pos \<noteq> None" "leaves ?root \<subseteq> insert pos (done_dom P)"
    using Decide.prems by (simp_all add: at_prog_def pos_def Let_def)
  have e: "bool_expr e" using sub_prog_ok [OF assms(2) a(3)] by simp
  have wf: "branch_wf ?root" using a(1) by (simp add: trace_ok_def)
  obtain t' where t': "trace_add k ?c e t = Some t'" "trace_ok \<sigma> t'" using trace_add_works [OF assms(1) a(1) e refl] by metis
  then have r: "pathCondsRoot t' = branch_add pos ?c e ?root" "pathCondsCurrent t' = Some (pos @ [?c])"
    by (auto simp: trace_add_def pos_def Let_def split: option.splits)
  have pre: "prefix (pos @ [?c]) (prog_path \<sigma> P)" using a(4) by auto
  note st = branch_add_step [OF a(2) wf a(3,5) pre]
  have n: "branch_at (branch_add pos ?c e ?root) (pos @ [?c]) \<noteq> None" using branch_add_wf [OF e wf a(5), of ?c] by simp
  have l: "leaves (branch_add pos ?c e ?root) \<subseteq> insert (pos @ [?c]) (done_dom P)"
    using branch_add_leaves [of _ pos ?c e ?root] a(6) by blast
  have "at_prog \<sigma> P t' (if ?c then p else q)"
    using t'(2) r st n l a(4) sub_prog_append [OF a(3), of "[?c]"] by (auto simp: at_prog_def)
  then obtain t2 where "run_prog k \<sigma> (if ?c then p else q) t' = Some t2" "at_prog \<sigma> P t2 Done"
      "step_ok \<sigma> (pathCondsRoot t') (pathCondsRoot t2)"
    using Decide.IH(1) [of t'] Decide.IH(2) [of t'] by (cases ?c) auto
  then show ?case using t'(1) st r(1) step_ok_trans by (auto split: if_splits)
qed

section \<open>One iteration\<close>

text \<open>
  \<open>tree_inv\<close> holds for the tree between a run and the search; \<open>pending\<close> paths are those the inputs of
  the next run take.
\<close>

definition reachable_paths :: "Branch \<Rightarrow> bool" where
  "reachable_paths b \<longleftrightarrow> (\<forall>p. path_in b p \<longrightarrow> (\<exists>\<sigma>. takes \<sigma> (butlast p)))"

definition tree_inv :: "klee \<Rightarrow> prog \<Rightarrow> (Path \<Rightarrow> bool) \<Rightarrow> Branch \<Rightarrow> bool" where
  "tree_inv k P pending b \<longleftrightarrow> branch_wf b \<and> partial P b \<and>
     (\<forall>p. half_path b p \<longrightarrow> open_path b p \<or> refuted k p \<or> pending p) \<and>
     reachable_paths b \<and> leaves b \<subseteq> insert [] (done_dom P)"

definition flipped_by :: "ExecutionContext \<Rightarrow> Path \<Rightarrow> bool" where
  "flipped_by c p \<longleftrightarrow> (\<forall>\<sigma>. run_store \<sigma> (next_run c) \<longrightarrow> flips \<sigma> p)"

lemma run_iteration:
  assumes "klee_ok k" and "prog_ok P" and "simulates k P sim" and "tree_inv k P (flipped_by c) (pathCondsRoot t)"
  shows "\<exists>\<sigma> t' c' r'. sim (trace_reset t) c r = Some (0, t', c', r') \<and> run_store \<sigma> (next_run c) \<and>
    tree_inv k P (\<lambda>_. False) (pathCondsRoot t') \<and> leaves (pathCondsRoot t') \<subseteq> done_dom P \<and> tree_dom (pathCondsRoot t) \<subseteq> tree_dom (pathCondsRoot t') \<and>
    (\<forall>p. path_in (pathCondsRoot t) p \<longrightarrow> flipped_by c p \<longrightarrow> flip_last (map snd p) \<in> tree_dom (pathCondsRoot t'))"
proof -
  let ?root = "pathCondsRoot t"
  note inv = assms(4) [unfolded tree_inv_def]
  obtain \<sigma> c' r' where s: "run_store \<sigma> (next_run c)"
    "sim (trace_reset t) c r = map_option (\<lambda>t'. (0, t', c', r')) (run_prog k \<sigma> P (trace_reset t))"
    using assms(3) unfolding simulates_def by blast
  have "trace_ok \<sigma> (trace_reset t)" using inv by (simp add: trace_ok_def trace_reset_def)
  then have "at_prog \<sigma> P (trace_reset t) P" using inv by (simp add: at_prog_def trace_reset_def)
  from run_prog_works [OF assms(1,2) this] obtain t' where t': "run_prog k \<sigma> P (trace_reset t) = Some t'"
    "at_prog \<sigma> P t' Done" "step_ok \<sigma> ?root (pathCondsRoot t')" by (auto simp: trace_reset_def)
  define pos where "pos = (case pathCondsCurrent t' of Some p \<Rightarrow> p | None \<Rightarrow> [])"
  have fin: "branch_wf (pathCondsRoot t')" "partial P (pathCondsRoot t')" "prog_path \<sigma> P = pos" "pos \<in> tree_dom (pathCondsRoot t')"
    "leaves (pathCondsRoot t') \<subseteq> done_dom P"
    using t'(2) by (auto simp: at_prog_def trace_ok_def pos_def Let_def tree_dom_def done_dom_def)
  have pre: "prefix ds pos \<Longrightarrow> ds \<in> tree_dom (pathCondsRoot t')" for ds
    using fin(4) by (auto simp: tree_dom_def prefix_def branch_at_append split: option.splits)
  have flip: "flip_last (map snd p) \<in> tree_dom (pathCondsRoot t')" if "path_in ?root p" "flipped_by c p" for p
    using flips_prefix [OF that(1), of \<sigma> P] that(2) s(1) inv fin(3) pre by (auto simp: flipped_by_def)
  note st = t'(3) [unfolded step_ok_def]
  have "tree_inv k P (\<lambda>_. False) (pathCondsRoot t')"
    unfolding tree_inv_def
  proof (intro conjI allI impI fin(1,2))
    fix p
    show "open_path (pathCondsRoot t') p \<or> refuted k p \<or> False" if h: "half_path (pathCondsRoot t') p"
      using st inv h flip [of p] unfolding half_path_def by blast
  next
    show "reachable_paths (pathCondsRoot t')" using st inv unfolding reachable_paths_def by blast
    show "leaves (pathCondsRoot t') \<subseteq> insert [] (done_dom P)" using fin(5) by blast
  qed
  then show ?thesis using s t'(1) st flip fin(5) by auto
qed


section \<open>The search after a run\<close>

lemma newQuery_built:
  assumes "klee_ok k" and "list_all bool_expr cs" and "\<forall>(e, c) \<in> set p. bool_expr e" and "p \<noteq> []"
    and "sat \<sigma> cs" and "takes \<sigma> (butlast p)"
  shows "newQuery k cs p \<noteq> None"
  using assms
proof (induction k cs p rule: newQuery.induct)
  case (3 k cs bv cond x path)
  then have b: "bool_expr bv" and v: "eval \<sigma> (branch_cond bv cond) \<noteq> 0" by auto
  obtain cs' where cs': "addConstraint k cs (branch_cond bv cond) = Some cs'"
    using klee_add_sat [OF "3.prems"(1,2) branch_cond_bool [OF b] "3.prems"(5) v] ..
  note a = klee_addD [OF "3.prems"(1,2) branch_cond_bool [OF b] cs']
  show ?case using "3.IH" [OF cs' "3.prems"(1) a(1)] "3.prems" a(2) v cs' by auto
qed auto

definition solved :: "Assignment \<Rightarrow> Path \<Rightarrow> bool" where
  "solved as p \<longleftrightarrow> (\<exists>st. getStore as = Some st \<and> (\<forall>\<sigma>. run_store \<sigma> st \<longrightarrow> flips \<sigma> p))"

lemma getAssignment_solves:
  assumes "klee_ok k" and "solver_values k" and "newQuery k [] p = Some q" and "\<forall>(e, c) \<in> set p. bool_expr e"
    and "getAssignment k q = Some as"
  shows "solved as p"
proof -
  note Q = newQuery_models [OF assms(1,3) _ assms(4), simplified]
  have e: "bool_expr (createIsZero k (snd q))" "eval \<sigma> (createIsZero k (snd q)) = of_bool (eval \<sigma> (snd q) = 0)" for \<sigma>
    using klee_exprD [OF assms(1), of "fst q" "snd q"] Q by auto
  have "getInitialValues k (fst q, createIsZero k (snd q)) = Some as"
    using assms(5) by (auto simp: getAssignment_def negateExpr_def Let_def split: option.splits if_splits)
  then obtain st where "getStore as = Some st"
    "\<And>\<sigma>. run_store \<sigma> st \<Longrightarrow> sat \<sigma> (fst q) \<and> eval \<sigma> (createIsZero k (snd q)) = 0"
    using assms(2) Q e(1) unfolding solver_values_def by blast
  then show ?thesis using Q e(2) by (auto simp: solved_def)
qed

lemma getRandomPath_keeps:
  "partial P b \<Longrightarrow> partial P (fst (snd (getRandomPath rand s b)))"
  "(\<forall>c. x = Some c \<longrightarrow> partial P c) \<Longrightarrow> \<forall>c. fst (snd (CHECK_BRANCH rand s x)) = Some c \<longrightarrow> partial P c"
proof (induction rand s b and rand s x arbitrary: P and P rule: getRandomPath_CHECK_BRANCH.induct)
  case (2 rand s e neg t f)
  then obtain p q where P: "P = Decide e p q" "\<forall>c. t = Some c \<longrightarrow> partial p c" "\<forall>c. f = Some c \<longrightarrow> partial q c"
    by (cases P) (auto simp: newBranch_def)
  show ?case
  proof (cases "\<not> neg \<and> (t = None \<or> f = None)")
    case True
    then show ?thesis using P by simp
  next
    case False
    obtain random s1 where r: "rand s = (random, s1)" by (cases "rand s")
    show ?thesis
    proof (cases "random mod 2 = 0")
      case True
      obtain x1 t1 s2 where 1: "CHECK_BRANCH rand s1 t = (x1, t1, s2)" by (cases "CHECK_BRANCH rand s1 t")
      obtain x2 f1 s3 where 2: "CHECK_BRANCH rand s2 f = (x2, f1, s3)" by (cases "CHECK_BRANCH rand s2 f")
      note t = "2.IH"(1) [OF False r [symmetric] True P(2), unfolded 1]
        and f = "2.IH"(2) [OF False r [symmetric] True 1 [symmetric] _ refl P(3)]
      show ?thesis using P r False True 1 2 t f by (cases x1; cases x2) simp_all
    next
      case odd: False
      obtain x1 f1 s2 where 1: "CHECK_BRANCH rand s1 f = (x1, f1, s2)" by (cases "CHECK_BRANCH rand s1 f")
      obtain x2 t1 s3 where 2: "CHECK_BRANCH rand s2 t = (x2, t1, s3)" by (cases "CHECK_BRANCH rand s2 t")
      note f = "2.IH"(3) [OF False r [symmetric] odd P(3), unfolded 1]
        and t = "2.IH"(4) [OF False r [symmetric] odd 1 [symmetric] _ refl P(2)]
      show ?thesis using P r False odd 1 2 t f by (cases x1; cases x2) simp_all
    qed
  qed
qed (auto split: prod.splits)

lemma getRandomPath_partial: "getRandomPath rand s b = (x, b', s') \<Longrightarrow> partial P b \<Longrightarrow> partial P b'"
  using getRandomPath_keeps(1) [of P b rand s] by simp

lemma findNewPath_searches:
  assumes "klee_ok k" and "solver_values k" and "branch_wf root" and "reachable_paths root"
  shows "\<exists>a root' s'. findNewPath k rand s root = Some (a, root', s') \<and> same_shape root root' \<and> branch_wf root' \<and>
    (partial P root \<longrightarrow> partial P root') \<and>
    (\<forall>p. open_path root p \<longrightarrow> open_path root' p \<or> refuted k p \<or> (\<exists>as. a = Some as \<and> solved as p)) \<and>
    (case a of None \<Rightarrow> \<forall>p. \<not> open_path root' p | Some as \<Rightarrow> \<exists>p. open_path root p \<and> solved as p)"
  using assms
proof (induction k rand s root rule: findNewPath.induct)
  case (1 k rand s root)
  obtain o1 r1 s1 where g: "getRandomPath rand s root = (o1, r1, s1)" by (cases "getRandomPath rand s root")
  show ?case
  proof (cases o1)
    case None
    with g getRandomPath_None [of rand s root r1 s1] "1.prems"(3) show ?thesis
      by (auto simp: findNewPath.simps dest: open_nodes_0)
  next
    case (Some p)
    note g = g [unfolded Some] and F = getRandomPath_Some [OF g [unfolded Some]]
    have f: "branch_wf r1" "same_shape root r1" "open_path root p" and o: "\<And>q. open_path r1 q \<longleftrightarrow> open_path root q \<and> q \<noteq> p"
      using F "1.prems"(3) by (auto simp: found_def)
    have r: "reachable_paths r1" using "1.prems"(4) path_in_shape [OF f(2)] unfolding reachable_paths_def by blast
    note b = found_bool [OF F "1.prems"(3)] and i = open_path_in [OF f(3)]
    obtain \<sigma> where "takes \<sigma> (butlast p)" using i "1.prems"(4) unfolding reachable_paths_def by blast
    then obtain q where q: "newQuery k [] p = Some q"
      using newQuery_built [OF "1.prems"(1) _ b path_in_nonempty [OF i], of "[]" \<sigma>] by auto
    show ?thesis
    proof (cases "getAssignment k q")
      case (Some as)
      have "findNewPath k rand s root = Some (Some as, r1, s1)" using g q Some by (simp add: findNewPath.simps)
      then show ?thesis using f o getRandomPath_partial [OF g] getAssignment_solves [OF "1.prems"(1,2) q b Some] by auto
    next
      case None
      have e: "findNewPath k rand s root = findNewPath k rand s1 r1" using g q None by (subst findNewPath.simps) simp
      have "refuted k p" using newQuery_models [OF "1.prems"(1) q _ b] q None by (auto simp: refuted_def)
      moreover obtain a root' s' where "findNewPath k rand s1 r1 = Some (a, root', s')" "same_shape r1 root'" "branch_wf root'"
        "\<forall>p. open_path r1 p \<longrightarrow> open_path root' p \<or> refuted k p \<or> (\<exists>as. a = Some as \<and> solved as p)"
        "partial P r1 \<longrightarrow> partial P root'" "case a of None \<Rightarrow> \<forall>p. \<not> open_path root' p | Some as \<Rightarrow> \<exists>p. open_path r1 p \<and> solved as p"
        using "1.IH" [OF g [symmetric] refl refl q None "1.prems"(1,2) f(1) r] by (elim exE conjE) (rule that)
      ultimately show ?thesis unfolding e using o same_shape_trans [OF f(2)] getRandomPath_partial [OF g] by (auto split: option.splits)
    qed
  qed
qed

lemma setup_iteration:
  assumes "klee_ok k" and "solver_values k" and "tree_inv k P (\<lambda>_. False) (pathCondsRoot t)"
  shows "\<exists>go t' c' r'. setupNewValues_trace k rand r t c = Some (go, t', c', r') \<and>
    same_shape (pathCondsRoot t) (pathCondsRoot t') \<and>
    (if go then tree_inv k P (flipped_by c') (pathCondsRoot t') \<and> (\<exists>p. half_path (pathCondsRoot t') p \<and> flipped_by c' p)
     else tree_inv k P (\<lambda>_. False) (pathCondsRoot t') \<and> (\<forall>p. half_path (pathCondsRoot t') p \<longrightarrow> refuted k p))"
proof -
  let ?root = "pathCondsRoot t"
  note inv = assms(3) [unfolded tree_inv_def]
  have rp: "reachable_paths ?root" using inv by blast
  obtain a root' r' where F: "findNewPath k rand r ?root = Some (a, root', r')" "same_shape ?root root'" "branch_wf root'"
    "partial P ?root \<longrightarrow> partial P root'"
    "\<forall>p. open_path ?root p \<longrightarrow> open_path root' p \<or> refuted k p \<or> (\<exists>as. a = Some as \<and> solved as p)"
    "case a of None \<Rightarrow> \<forall>p. \<not> open_path root' p | Some as \<Rightarrow> \<exists>p. open_path ?root p \<and> solved as p"
    using findNewPath_searches [OF assms(1,2) conjunct1 [OF inv] rp, where P = P and rand = rand and s = r] by (elim exE conjE) (rule that)
  have h: "half_path root' p = half_path ?root p" for p by (rule half_path_shape [OF F(2)])
  have keep: "reachable_paths root'" "leaves root' \<subseteq> insert [] (done_dom P)"
    using inv path_in_shape [OF F(2)] F(2) by (auto simp: reachable_paths_def leaves_def same_shape_def)
  show ?thesis
  proof (cases a)
    case None
    then have "\<forall>p. half_path root' p \<longrightarrow> refuted k p" using F(5,6) h inv by auto
    with None F keep inv show ?thesis by (auto simp: setupNewValues_trace_def tree_inv_def)
  next
    case (Some as)
    then obtain p st where p: "open_path ?root p" "getStore as = Some st" using F(6) by (auto simp: solved_def)
    let ?c = "setupNewValues st c"
    have "run_store \<sigma> (next_run ?c) \<Longrightarrow> run_store \<sigma> st" for \<sigma> by (auto simp: run_store_def setupNewValues_def)
    then have fl: "solved as q \<Longrightarrow> flipped_by ?c q" for q using p(2) by (auto simp: solved_def flipped_by_def)
    have "tree_inv k P (flipped_by ?c) root'"
      using F(3,4,5) h inv keep fl Some unfolding tree_inv_def by blast
    moreover have "\<exists>q. half_path root' q \<and> flipped_by ?c q" using F(6) Some h open_half [OF conjunct1 [OF inv]] fl by auto
    ultimately show ?thesis using F(1,2) Some p(2) by (auto simp: setupNewValues_trace_def)
  qed
qed

section \<open>All iterations\<close>

definition explored :: "klee \<Rightarrow> prog \<Rightarrow> Branch \<Rightarrow> bool" where
  "explored k P b \<longleftrightarrow> tree_inv k P (\<lambda>_. False) b \<and> leaves b \<subseteq> done_dom P \<and> (\<forall>p. half_path b p \<longrightarrow> refuted k p)"

lemma explored_paths:
  assumes "branch_wf b" and "partial P b" and "leaves b \<subseteq> done_dom P"
  shows "prog_path \<sigma> P \<in> tree_dom b \<or> (\<exists>p. half_path b p \<and> flips \<sigma> p)"
  using assms
proof (induction P arbitrary: b)
  case Done
  then show ?case by (simp add: tree_dom_def)
next
  case (Decide e p q)
  let ?c = "eval \<sigma> e \<noteq> 0"
  have "[] \<notin> leaves b" using Decide.prems(3) unfolding done_dom_def by (auto simp del: leaves_Nil)
  then have "br_bv b \<noteq> None" by simp
  then obtain n t f where b: "b = Branch (Some e) n t f" using Decide.prems(2) by (cases b) (auto simp: newBranch_def)
  show ?case
  proof (cases "if ?c then t else f")
    case None
    then have "half_path b [(e, \<not> ?c)] \<and> flips \<sigma> [(e, \<not> ?c)]"
      using Decide.prems(1) b by (auto simp: half_path_single flips_def split: if_splits)
    then show ?thesis by blast
  next
    case (Some d)
    have "branch_wf d" "partial (if ?c then p else q) d" using Some b Decide.prems(1,2) by (auto simp: newBranch_def split: if_splits)
    moreover have "leaves d \<subseteq> done_dom (if ?c then p else q)"
    proof
      fix ds assume "ds \<in> leaves d"
      then have "?c # ds \<in> leaves b" using Some b by auto
      then show "ds \<in> done_dom (if ?c then p else q)" using Decide.prems(3) by (auto simp: done_dom_def)
    qed
    ultimately have "prog_path \<sigma> (if ?c then p else q) \<in> tree_dom d \<or> (\<exists>p. half_path d p \<and> flips \<sigma> p)"
      using Decide.IH by (cases ?c) auto
    then show ?thesis
    proof (elim disjE exE conjE)
      assume "prog_path \<sigma> (if ?c then p else q) \<in> tree_dom d"
      then show ?thesis using Some b by (auto simp: tree_dom_def split: if_splits)
    next
      fix r assume r: "half_path d r" "flips \<sigma> r"
      then have "r \<noteq> []" by auto
      then have "half_path b ((e, ?c) # r)" "flips \<sigma> ((e, ?c) # r)"
        using r Some b by (auto simp: half_path_Cons flips_def split: if_splits)
      then show ?thesis by blast
    qed
  qed
qed

definition pending :: "ExecutionContext \<Rightarrow> Branch \<Rightarrow> bool" where
  "pending c b \<longleftrightarrow> (\<exists>p. half_path b p \<and> flipped_by c p)"

text \<open>One round of the loop ends the exploration, or leaves less of the program to explore.\<close>

lemma explore_round:
  assumes "klee_ok k" and "solver_values k" and "prog_ok P" and "simulates k P sim" and "\<forall>r. \<not> fst (expired r)"
    and "tree_inv k P (flipped_by c) (pathCondsRoot t)"
  shows "\<exists>t' c' r'. (explore_loop k rand expired sim n t c r = Some (Exhausted, n + 1, t', c', r') \<and>
      explored k P (pathCondsRoot t')) \<or>
    (explore_loop k rand expired sim n t c r = explore_loop k rand expired sim (n + 1) t' c' r' \<and>
      tree_inv k P (flipped_by c') (pathCondsRoot t') \<and> pending c' (pathCondsRoot t') \<and>
      tree_dom (pathCondsRoot t) \<subseteq> tree_dom (pathCondsRoot t') \<and>
      (pending c (pathCondsRoot t) \<longrightarrow> tree_dom (pathCondsRoot t) \<noteq> tree_dom (pathCondsRoot t')))"
proof -
  obtain r0 where r0: "expired r = (False, r0)" using spec [OF assms(5), of r] by (cases "expired r") auto
  obtain \<sigma> t1 c1 r1 where run: "sim (trace_reset t) c r0 = Some (0, t1, c1, r1)" "run_store \<sigma> (next_run c)" "tree_inv k P (\<lambda>_. False) (pathCondsRoot t1)"
    "leaves (pathCondsRoot t1) \<subseteq> done_dom P" "tree_dom (pathCondsRoot t) \<subseteq> tree_dom (pathCondsRoot t1)"
    "\<forall>p. path_in (pathCondsRoot t) p \<longrightarrow> flipped_by c p \<longrightarrow> flip_last (map snd p) \<in> tree_dom (pathCondsRoot t1)"
    using run_iteration [OF assms(1,3,4,6), of r0] by (elim exE conjE) (rule that)
  obtain go t2 c2 r2 where su: "setupNewValues_trace k rand r1 t1 c1 = Some (go, t2, c2, r2)"
    "same_shape (pathCondsRoot t1) (pathCondsRoot t2)"
    "if go then tree_inv k P (flipped_by c2) (pathCondsRoot t2) \<and> (\<exists>p. half_path (pathCondsRoot t2) p \<and> flipped_by c2 p)
     else tree_inv k P (\<lambda>_. False) (pathCondsRoot t2) \<and> (\<forall>p. half_path (pathCondsRoot t2) p \<longrightarrow> refuted k p)"
    using setup_iteration [OF assms(1,2) run(3), where rand = rand and r = r1 and c = c1] by (elim exE conjE) (rule that)
  have same: "tree_dom (pathCondsRoot t2) = tree_dom (pathCondsRoot t1)" "leaves (pathCondsRoot t2) = leaves (pathCondsRoot t1)"
    using same_shape_at [OF su(2)] su(2) by (auto simp: tree_dom_def leaves_def same_shape_def)
  have grow: "tree_dom (pathCondsRoot t) \<noteq> tree_dom (pathCondsRoot t1)" if "pending c (pathCondsRoot t)"
    using that run(6) by (auto simp: pending_def half_path_def)
  show ?thesis
  proof (cases go)
    case True
    then have "explore_loop k rand expired sim n t c r = explore_loop k rand expired sim (n + 1) t2 c2 r2"
      using r0 run(1) su(1) by (subst explore_loop.simps) simp
    then show ?thesis using True su(3) run(5) same(1) grow by (intro exI [of _ t2] exI [of _ c2] exI [of _ r2] disjI2) (auto simp: pending_def)
  next
    case False
    then have "explore_loop k rand expired sim n t c r = Some (Exhausted, n + 1, t2, c2, r2)"
      using r0 run(1) su(1) by (subst explore_loop.simps) simp
    then show ?thesis using False su(3) run(4) same(2)
      by (intro exI [of _ t2] exI [of _ c2] exI [of _ r2] disjI1) (auto simp: explored_def)
  qed
qed

lemma explore_loop_ends:
  assumes "klee_ok k" and "solver_values k" and "prog_ok P" and "simulates k P sim" and "\<forall>r. \<not> fst (expired r)"
  shows "tree_inv k P (flipped_by c) (pathCondsRoot t) \<Longrightarrow>
    \<exists>n' t' c' r'. explore_loop k rand expired sim n t c r = Some (Exhausted, n', t', c', r') \<and> explored k P (pathCondsRoot t')"
proof (induction "card (prog_dom P - tree_dom (pathCondsRoot t)) + of_bool (\<not> pending c (pathCondsRoot t))"
    arbitrary: n t c r rule: less_induct)
  case less
  obtain t' c' r' where "(explore_loop k rand expired sim n t c r = Some (Exhausted, n + 1, t', c', r') \<and>
      explored k P (pathCondsRoot t')) \<or>
    (explore_loop k rand expired sim n t c r = explore_loop k rand expired sim (n + 1) t' c' r' \<and>
      tree_inv k P (flipped_by c') (pathCondsRoot t') \<and> pending c' (pathCondsRoot t') \<and>
      tree_dom (pathCondsRoot t) \<subseteq> tree_dom (pathCondsRoot t') \<and>
      (pending c (pathCondsRoot t) \<longrightarrow> tree_dom (pathCondsRoot t) \<noteq> tree_dom (pathCondsRoot t')))"
    using explore_round [OF assms less.prems, where rand = rand and n = n and r = r] by (elim exE) (rule that)
  then show ?case
  proof (elim disjE conjE)
    assume e: "explore_loop k rand expired sim n t c r = explore_loop k rand expired sim (n + 1) t' c' r'"
      and inv: "tree_inv k P (flipped_by c') (pathCondsRoot t')" and p: "pending c' (pathCondsRoot t')"
      and sub: "tree_dom (pathCondsRoot t) \<subseteq> tree_dom (pathCondsRoot t')"
      and new: "pending c (pathCondsRoot t) \<longrightarrow> tree_dom (pathCondsRoot t) \<noteq> tree_dom (pathCondsRoot t')"
    have le: "card (prog_dom P - tree_dom (pathCondsRoot t')) \<le> card (prog_dom P - tree_dom (pathCondsRoot t))"
      using sub prog_dom_finite by (intro card_mono) auto
    have lt: "card (prog_dom P - tree_dom (pathCondsRoot t')) < card (prog_dom P - tree_dom (pathCondsRoot t))"
      if "pending c (pathCondsRoot t)"
      using sub new that tree_dom_prog [of P "pathCondsRoot t'"] inv prog_dom_finite [of P]
      by (intro psubset_card_mono) (auto simp: tree_inv_def)
    show ?thesis unfolding e
      by (rule less.hyps [OF _ inv]) (use le lt p in \<open>auto simp: of_bool_def\<close>)
  qed auto
qed

section \<open>An instance\<close>

text \<open>
  A simulation that runs the program on the values set up for it, zero where none are, and a solver
  that knows the answer to one query.
\<close>

definition store_assign :: "ConcreteStore \<Rightarrow> assignment" where
  "store_assign st a i = (case st (arr_name a) of Some v \<Rightarrow> drop_bit (8 * i) (intToUint v) | None \<Rightarrow> 0)"

definition store_sim :: "klee \<Rightarrow> prog \<Rightarrow> 'r simulation" where
  "store_sim k P t c r = map_option (\<lambda>t'. (0, t', c, r)) (run_prog k (store_assign (next_run c)) P t)"

lemma store_sim_simulates: "simulates k P (store_sim k P)"
proof -
  have "run_store (store_assign st) st" for st by (simp add: run_store_def agrees_def store_assign_def)
  then show ?thesis unfolding simulates_def store_sim_def by blast
qed

definition one_answer :: "Query \<Rightarrow> Assignment \<Rightarrow> klee" where
  "one_answer q as = (candidate_klee [])\<lparr>getInitialValues := \<lambda>q'. if q' = q then Some as else None\<rparr>"

lemma one_answer_ok:
  assumes "getStore as = Some st" and "\<And>\<sigma>. run_store \<sigma> st \<Longrightarrow> sat \<sigma> (fst q) \<and> eval \<sigma> (snd q) = 0"
    and "run_store (assign_fn as) st"
  shows "klee_ok (one_answer q as)" "solver_values (one_answer q as)"
  using candidate_klee_ok [of "[]"] assms
  by (auto simp: klee_ok_def one_answer_def solver_values_def candidate_klee_def)

definition five :: expr where
  "five = BinaryExpr Eq (ConstantExpr (CE 8 5)) (ReadExpr (Array ''x'' 1) (ConstantExpr (CE 32 0)))"

definition five_klee :: klee where
  "five_klee = (let z = createIsZero (candidate_klee []) in one_answer ([], z (z (branch_cond five False))) [(Array ''x'' 1, [5])])"

lemma five_klee_ok: "klee_ok five_klee" "solver_values five_klee"
proof -
  have "getStore [(Array ''x'' 1, [5])] = Some [''x'' \<mapsto> U8 5]" by (simp add: getStore_def intFromVector_def)
  moreover have "sat \<sigma> [] \<and> eval \<sigma> (createIsZero (candidate_klee []) (createIsZero (candidate_klee []) (branch_cond five False))) = 0"
    if "run_store \<sigma> [''x'' \<mapsto> U8 5]" for \<sigma>
    using run_storeD [OF that] by (simp add: agrees_def intToUint_def five_def candidate_klee_def branch_cond_def eqFalse_def intByteSize_def)
  moreover have "run_store (assign_fn [(Array ''x'' 1, [5])]) [''x'' \<mapsto> U8 5]"
    by (simp add: run_store_def agrees_def assign_fn_def intByteSize_def intToUint_def)
  ultimately show "klee_ok five_klee" "solver_values five_klee"
    unfolding five_klee_def Let_def by (intro one_answer_ok; simp)+
qed

section \<open>Properties\<close>

text \<open>
  C2: the exploration of a program that decides on its inputs by a finite tree of conditions ends
  when no time budget is set: the loop is left because no path is left to try, and not by a
  failed assertion.  Every inputs whatsoever then take a path that has been executed, or one that
  leaves the executed part of the program at a node whose query for the other side, which exactly
  these inputs satisfy, the solver has been given and found no values for.
\<close>

theorem explore_paths_exhausts:
  assumes "klee_ok k" and "solver_values k" and "prog_ok P" and "simulates k P sim"
    and "\<forall>r. \<not> fst (expired r)"
  shows "\<exists>n t' c' r'. explore_paths k rand expired sim newTrace c r = Some (Exhausted, n, t', c', r') \<and>
    (\<forall>\<sigma>. prog_path \<sigma> P \<in> tree_dom (pathCondsRoot t') \<or>
      (\<exists>p. half_path (pathCondsRoot t') p \<and> flips \<sigma> p \<and> refuted k p))"
proof -
  have "tree_inv k P (flipped_by c) (pathCondsRoot newTrace)"
    by (simp add: newTrace_def tree_inv_def reachable_paths_def subset_iff)
  from explore_loop_ends [OF assms this] obtain n t' c' r'
    where e: "explore_paths k rand expired sim newTrace c r = Some (Exhausted, n, t', c', r')"
      and x: "explored k P (pathCondsRoot t')"
    unfolding explore_paths_def by blast
  have "prog_path \<sigma> P \<in> tree_dom (pathCondsRoot t') \<or> (\<exists>p. half_path (pathCondsRoot t') p \<and> flips \<sigma> p \<and> refuted k p)" for \<sigma>
    using explored_paths [of "pathCondsRoot t'" P \<sigma>] x by (auto simp: explored_def tree_inv_def)
  with e show ?thesis by blast
qed

theorem explore_paths_exhausts_witness:
  "\<exists>n t' c' r'. explore_paths five_klee (\<lambda>n. (n, n + 1)) (\<lambda>r. (False, r)) (store_sim five_klee (Decide five Done Done))
      newTrace \<lparr>next_run = Map.empty, last_run = Map.empty\<rparr> (0 :: nat) = Some (Exhausted, n, t', c', r') \<and>
    n = 2 \<and> {[True], [False]} \<subseteq> tree_dom (pathCondsRoot t') \<and>
    (\<forall>\<sigma>. prog_path \<sigma> (Decide five Done Done) \<in> tree_dom (pathCondsRoot t') \<or>
      (\<exists>p. half_path (pathCondsRoot t') p \<and> flips \<sigma> p \<and> refuted five_klee p))"
proof -
  let ?P = "Decide five Done Done"
  let ?run = "explore_paths five_klee (\<lambda>n. (n, n + 1)) (\<lambda>r. (False, r)) (store_sim five_klee ?P)
      newTrace \<lparr>next_run = Map.empty, last_run = Map.empty\<rparr> (0 :: nat)"
  have "prog_ok ?P" by code_simp
  note x = explore_paths_exhausts [OF five_klee_ok this store_sim_simulates,
      where expired = "\<lambda>r. (False, r)" and rand = "\<lambda>n. (n, n + 1)"
        and c = "\<lparr>next_run = Map.empty, last_run = Map.empty\<rparr>" and r = "0 :: nat"]
  have "(case ?run of Some (Exhausted, n, t', _) \<Rightarrow> n = 2 \<and> branch_at (pathCondsRoot t') [True] \<noteq> None \<and>
      branch_at (pathCondsRoot t') [False] \<noteq> None | _ \<Rightarrow> False)" by code_simp
  then show ?thesis using x by (auto simp: tree_dom_def)
qed

end
