(* ===== verification/Klee_Create.thy ===== *)
theory Klee_Create
  imports Klee_ExprBuilder
begin

text \<open>
  The \<open>create\<close> methods of the expression classes (\<open>lib/Expr/Expr.cpp\<close>), which KLEE itself builds
  expressions with: the rewriting of constraints, the negation of a query and the solvers use them.
  They are one more implementation of the interface of the builders.  An assertion on the widths of
  the operands is never violated by well-formed operands; where it would be, the functions here
  return the plain node.
\<close>

section \<open>A weight that no simplification increases\<close>

text \<open>
  Constants weigh nothing, every other node something; replacing an operand by a constant makes
  an expression lighter, and \<open>create\<close> never returns more than the weight of the plain node.
\<close>

definition kind_weight :: "binkind \<Rightarrow> nat" where
  "kind_weight k = (if k \<in> {Or, Shl, LShr, AShr, Ne, Ult, Ugt, Slt, Sgt} then 2
     else if k \<in> {Ule, Uge, Sle, Sge} then 3 else 1)"

primrec expr_weight :: "expr \<Rightarrow> nat" where
  "expr_weight (ConstantExpr c) = 0"
| "expr_weight (NotOptimizedExpr e) = expr_weight e + 1"
| "expr_weight (ReadExpr a i) = expr_weight i + 1"
| "expr_weight (SelectExpr c t f) = expr_weight c + expr_weight t + expr_weight f + 3"
| "expr_weight (ConcatExpr l r) = expr_weight l + expr_weight r + 1"
| "expr_weight (ExtractExpr e off w) = 2 * expr_weight e + 1"
| "expr_weight (ZExtExpr e w) = 2 * expr_weight e + 1"
| "expr_weight (SExtExpr e w) = 2 * expr_weight e + 1"
| "expr_weight (NotExpr e) = expr_weight e + 1"
| "expr_weight (BinaryExpr k l r) = expr_weight l + expr_weight r + kind_weight k"

lemma kind_weight_simps [simp]:
  "kind_weight Add = 1" "kind_weight Sub = 1" "kind_weight Mul = 1" "kind_weight UDiv = 1" "kind_weight SDiv = 1"
  "kind_weight URem = 1" "kind_weight SRem = 1" "kind_weight And = 1" "kind_weight Or = 2" "kind_weight Xor = 1"
  "kind_weight Shl = 2" "kind_weight LShr = 2" "kind_weight AShr = 2" "kind_weight Eq = 1" "kind_weight Ne = 2"
  "kind_weight Ult = 2" "kind_weight Ule = 3" "kind_weight Ugt = 2" "kind_weight Uge = 3" "kind_weight Slt = 2"
  "kind_weight Sle = 3" "kind_weight Sgt = 2" "kind_weight Sge = 3"
  by (simp_all add: kind_weight_def)

lemma expr_weight_pos: "\<not> isConstant e \<Longrightarrow> 0 < expr_weight e"
  by (cases e) (auto simp: isConstant_def kind_weight_def)

section \<open>Conjunction, disjunction and equality\<close>

definition BCREATE_R :: "binkind \<Rightarrow> (expr \<Rightarrow> cexpr \<Rightarrow> expr) \<Rightarrow> (cexpr \<Rightarrow> expr \<Rightarrow> expr) \<Rightarrow> (expr \<Rightarrow> expr \<Rightarrow> expr) \<Rightarrow>
    expr \<Rightarrow> expr \<Rightarrow> expr" where
  "BCREATE_R k partialL partialR create l r =
     (if getWidth l \<noteq> getWidth r then BinaryExpr k l r
      else case dc_const l of
        Some cl \<Rightarrow>
          (case dc_const r of
             Some cr \<Rightarrow> ConstantExpr (CE_binop k cl cr)
           | None \<Rightarrow> partialR cl r)
      | None \<Rightarrow>
          (case dc_const r of
             Some cr \<Rightarrow> partialL l cr
           | None \<Rightarrow> create l r))"

definition BCREATE :: "binkind \<Rightarrow> (expr \<Rightarrow> expr \<Rightarrow> expr) \<Rightarrow> expr \<Rightarrow> expr \<Rightarrow> expr" where
  "BCREATE k create l r =
     (if getWidth l \<noteq> getWidth r then BinaryExpr k l r
      else case dc_const l of
        Some cl \<Rightarrow>
          (case dc_const r of
             Some cr \<Rightarrow> ConstantExpr (CE_binop k cl cr)
           | None \<Rightarrow> create l r)
      | None \<Rightarrow> create l r)"

definition AndExpr_createPartial :: "expr \<Rightarrow> cexpr \<Rightarrow> expr" where
  "AndExpr_createPartial l cr =
     (if isAllOnes cr then l
      else if isZero cr then ConstantExpr cr
      else BinaryExpr And l (ConstantExpr cr))"

definition create_And :: "expr \<Rightarrow> expr \<Rightarrow> expr" where
  "create_And = BCREATE_R And AndExpr_createPartial (\<lambda>cl r. AndExpr_createPartial r cl) (BinaryExpr And)"

definition OrExpr_createPartial :: "expr \<Rightarrow> cexpr \<Rightarrow> expr" where
  "OrExpr_createPartial l cr =
     (if isAllOnes cr then ConstantExpr cr
      else if isZero cr then l
      else BinaryExpr Or l (ConstantExpr cr))"

definition create_Or :: "expr \<Rightarrow> expr \<Rightarrow> expr" where
  "create_Or = BCREATE_R Or OrExpr_createPartial (\<lambda>cl r. OrExpr_createPartial r cl) (BinaryExpr Or)"

definition EqExpr_create :: "expr \<Rightarrow> expr \<Rightarrow> expr" where
  "EqExpr_create l r = (if l = r then ConstantExpr (CE_alloc 1 1) else BinaryExpr Eq l r)"

definition dc_SExt :: "expr \<Rightarrow> expr option" where
  "dc_SExt e = (case e of SExtExpr s w \<Rightarrow> Some s | _ \<Rightarrow> None)"

definition dc_ZExt :: "expr \<Rightarrow> expr option" where
  "dc_ZExt e = (case e of ZExtExpr s w \<Rightarrow> Some s | _ \<Rightarrow> None)"

lemma dc_ext_Some: "dc_SExt e = Some s \<longleftrightarrow> (\<exists>w. e = SExtExpr s w)" "dc_ZExt e = Some s \<longleftrightarrow> (\<exists>w. e = ZExtExpr s w)"
  by (cases e; auto simp: dc_SExt_def dc_ZExt_def)+

text \<open>
  The branch of the source for a read of an array with constant contents does not apply to the
  symbolic arrays of clover.
\<close>

function create_Eq :: "expr \<Rightarrow> expr \<Rightarrow> expr" and EqExpr_createPartialR :: "cexpr \<Rightarrow> expr \<Rightarrow> expr"
where
  "create_Eq l r =
     (if getWidth l \<noteq> getWidth r then BinaryExpr Eq l r
      else case dc_const l of
        Some cl \<Rightarrow>
          (case dc_const r of
             Some cr \<Rightarrow> ConstantExpr (CE_binop Eq cl cr)
           | None \<Rightarrow> EqExpr_createPartialR cl r)
      | None \<Rightarrow>
          (case dc_const r of
             Some cr \<Rightarrow> EqExpr_createPartialR cr l
           | None \<Rightarrow> EqExpr_create l r))"
| "EqExpr_createPartialR cl r =
     (if ce_width cl = 1 then
        (if isTrue cl then r
         else case dc_bin Eq r of
           Some p \<Rightarrow>
             (case dc_const (fst p) of
                Some ce \<Rightarrow> (if isFalse ce then snd p else EqExpr_create (ConstantExpr cl) r)
              | None \<Rightarrow> EqExpr_create (ConstantExpr cl) r)
         | None \<Rightarrow>
             (case dc_bin Or r of
                Some p \<Rightarrow>
                  create_And (create_Eq (fst p) (ConstantExpr (CE_alloc 0 (getWidth (fst p)))))
                    (create_Eq (snd p) (ConstantExpr (CE_alloc 0 (getWidth (snd p)))))
              | None \<Rightarrow> EqExpr_create (ConstantExpr cl) r))
      else case dc_SExt r of
        Some s \<Rightarrow>
          (let trunc = CE_ZExt cl (getWidth s) in
           if cl = CE_SExt trunc (ce_width cl) then create_Eq s (ConstantExpr trunc)
           else ConstantExpr (CE_alloc 0 1))
      | None \<Rightarrow>
          (case dc_ZExt r of
             Some s \<Rightarrow>
               (let trunc = CE_ZExt cl (getWidth s) in
                if cl = CE_ZExt trunc (ce_width cl) then create_Eq s (ConstantExpr trunc)
                else ConstantExpr (CE_alloc 0 1))
           | None \<Rightarrow>
               (case dc_bin Add r of
                  Some p \<Rightarrow>
                    (case dc_const (fst p) of
                       Some c \<Rightarrow> EqExpr_createPartialR (CE_binop Sub cl c) (snd p)
                     | None \<Rightarrow> EqExpr_create (ConstantExpr cl) r)
                | None \<Rightarrow>
                    (case dc_bin Sub r of
                       Some p \<Rightarrow>
                         (case dc_const (fst p) of
                            Some c \<Rightarrow> EqExpr_createPartialR (CE_binop Sub c cl) (snd p)
                          | None \<Rightarrow> EqExpr_create (ConstantExpr cl) r)
                     | None \<Rightarrow> EqExpr_create (ConstantExpr cl) r))))"
  by pat_completeness auto

termination
  by (relation "measure (case_sum (\<lambda>(l, r). 2 * (expr_weight l + expr_weight r) + 1) (\<lambda>(c, r). 2 * expr_weight r))")
    (auto simp: dc_simps dc_ext_Some)

declare create_Eq.simps [simp del] EqExpr_createPartialR.simps [simp del]

definition createIsZero_expr :: "expr \<Rightarrow> expr" where
  "createIsZero_expr e = create_Eq e (ConstantExpr (CE_alloc 0 (getWidth e)))"

lemma BCREATE_R_impl:
  assumes "wt (BinaryExpr k l r)"
    and "\<And>a. l = ConstantExpr a \<Longrightarrow> impl (partialR a r) (BinaryExpr k l r)"
    and "\<And>b. r = ConstantExpr b \<Longrightarrow> impl (partialL l b) (BinaryExpr k l r)"
    and "impl (create l r) (BinaryExpr k l r)"
  shows "impl (BCREATE_R k partialL partialR create l r) (BinaryExpr k l r)"
  using cs_bin_impl [where CN = partialR and NC = partialL and NN = create, OF assms] assms(1) by (simp add: BCREATE_R_def cs_bin_def)

lemma BCREATE_impl:
  assumes "wt (BinaryExpr k l r)" and "impl (create l r) (BinaryExpr k l r)"
  shows "impl (BCREATE k create l r) (BinaryExpr k l r)"
  using assms by (auto simp: BCREATE_def impl_def dc_simps intro: ce_ok_binop split: option.split)

lemma AndOr_createPartial_impl:
  assumes "ce_ok a" "wt l" "ce_width a = getWidth l"
  shows "impl (AndExpr_createPartial l a) (BinaryExpr And l (ConstantExpr a))"
    "impl (OrExpr_createPartial l a) (BinaryExpr Or l (ConstantExpr a))"
proof -
  have m: "eval \<sigma> l AND mask (getWidth l) = eval \<sigma> l" "eval \<sigma> l OR mask (getWidth l) = mask (getWidth l)" for \<sigma>
    using and_mask_fits [OF wt_fits [OF assms(2)], of \<sigma>] or_mask_fits [OF wt_fits [OF assms(2)], of \<sigma>]
    by (simp_all only: and.commute or.commute)
  show "impl (AndExpr_createPartial l a) (BinaryExpr And l (ConstantExpr a))"
    "impl (OrExpr_createPartial l a) (BinaryExpr Or l (ConstantExpr a))"
    using assms m by (simp_all add: AndExpr_createPartial_def OrExpr_createPartial_def impl_def isZero_def isAllOnes_def)
qed

lemma create_And_impl:
  assumes "wt (BinaryExpr And l r)"
  shows "impl (create_And l r) (BinaryExpr And l r)"
  unfolding create_And_def
proof (rule BCREATE_R_impl [OF assms])
  show "impl (AndExpr_createPartial r a) (BinaryExpr And l r)" if "l = ConstantExpr a" for a
    using AndOr_createPartial_impl(1) [of a r] assms that by (simp add: impl_def and.commute)
  show "impl (AndExpr_createPartial l b) (BinaryExpr And l r)" if "r = ConstantExpr b" for b
    using AndOr_createPartial_impl(1) [of b l] assms that by simp
qed (use assms in \<open>rule impl_refl\<close>)

lemma create_Or_impl:
  assumes "wt (BinaryExpr Or l r)"
  shows "impl (create_Or l r) (BinaryExpr Or l r)"
  unfolding create_Or_def
proof (rule BCREATE_R_impl [OF assms])
  show "impl (OrExpr_createPartial r a) (BinaryExpr Or l r)" if "l = ConstantExpr a" for a
    using AndOr_createPartial_impl(2) [of a r] assms that by (simp add: impl_def or.commute)
  show "impl (OrExpr_createPartial l b) (BinaryExpr Or l r)" if "r = ConstantExpr b" for b
    using AndOr_createPartial_impl(2) [of b l] assms that by simp
qed (use assms in \<open>rule impl_refl\<close>)

lemma create_AndOr_weight:
  "expr_weight (create_And l r) \<le> expr_weight l + expr_weight r + 1"
  "expr_weight (create_Or l r) \<le> expr_weight l + expr_weight r + 2"
  by (auto simp: create_And_def create_Or_def BCREATE_R_def AndExpr_createPartial_def OrExpr_createPartial_def dc_simps
      split: option.split)

lemma create_Eq_weight:
  "expr_weight (create_Eq l r) \<le> expr_weight l + expr_weight r + 1"
  "expr_weight (EqExpr_createPartialR cl r) \<le> expr_weight r + 1"
proof (induction l r and cl r rule: create_Eq_EqExpr_createPartialR.induct)
  case (1 l r)
  then show ?case by (subst create_Eq.simps) (auto simp: EqExpr_create_def dc_simps split: option.split)
next
  case (2 cl r)
  have alloc: "expr_weight (EqExpr_create (ConstantExpr cl) r) \<le> expr_weight r + 1" by (simp add: EqExpr_create_def)
  show ?case
  proof (cases "ce_width cl = 1")
    case True
    have "expr_weight (create_And (create_Eq (fst p) (ConstantExpr (CE_alloc 0 (getWidth (fst p)))))
        (create_Eq (snd p) (ConstantExpr (CE_alloc 0 (getWidth (snd p)))))) \<le> expr_weight r + 1"
      if "\<not> isTrue cl" "dc_bin Eq r = None" "dc_bin Or r = Some p" for p
      using "2.IH"(1,2) [OF True that] that(3) create_AndOr_weight(1) [of "create_Eq (fst p) (ConstantExpr (CE_alloc 0 (getWidth (fst p))))"
          "create_Eq (snd p) (ConstantExpr (CE_alloc 0 (getWidth (snd p))))"]
      by (simp add: dc_simps)
    then show ?thesis using True alloc
      by (subst EqExpr_createPartialR.simps) (auto simp: dc_bin_Some split: option.split)
  next
    case False
    note IH = "2.IH"(3-6) [OF False]
    show ?thesis using False alloc IH
      by (subst EqExpr_createPartialR.simps) (fastforce simp: dc_simps dc_ext_Some Let_def split: option.split)
  qed
qed

text \<open>The arithmetic of the rewritings of an equality with a constant.\<close>

lemma take_bit_add_eq_iff: "fits w a \<Longrightarrow> fits w b \<Longrightarrow> a = take_bit w (c + b) \<longleftrightarrow> b = take_bit w (a - c)"
  for a b c :: int
proof (intro iffI)
  assume "fits w a" "a = take_bit w (c + b)" "fits w b"
  then show "b = take_bit w (a - c)" by (simp add: fits_def)
next
  assume "fits w a" "b = take_bit w (a - c)" "fits w b"
  then show "a = take_bit w (c + b)" by (simp add: fits_def)
qed

lemma take_bit_diff_eq_iff: "fits w a \<Longrightarrow> fits w b \<Longrightarrow> a = take_bit w (c - b) \<longleftrightarrow> b = take_bit w (c - a)"
  for a b c :: int
proof (intro iffI)
  assume "fits w a" "a = take_bit w (c - b)" "fits w b"
  then show "b = take_bit w (c - a)" by (simp add: fits_def)
next
  assume "fits w a" "b = take_bit w (c - a)" "fits w b"
  then show "a = take_bit w (c - b)" by (simp add: fits_def)
qed

lemma sext_eq_iff:
  assumes "0 < v" "v \<le> w" "fits v a" "fits w c"
  shows "c = take_bit w (sgn_of v a) \<longleftrightarrow> c = take_bit w (sgn_of v (take_bit v c)) \<and> a = take_bit v c"
proof -
  have "take_bit v (sgn_of v a) = a" using assms(1,3) by (cases v) (simp_all add: sgn_of_def take_bit_signed_take_bit fits_def)
  then have "c = take_bit w (sgn_of v a) \<Longrightarrow> a = take_bit v c" using assms(2) by (simp add: min_def)
  then show ?thesis by auto
qed

lemma zext_eq_iff:
  assumes "v \<le> w" "fits v a" "fits w c"
  shows "c = take_bit w a \<longleftrightarrow> c = take_bit w (take_bit v c) \<and> a = take_bit v c"
proof -
  have "c = take_bit w a \<Longrightarrow> a = take_bit v c" using assms(1,2) by (simp add: fits_def min_def)
  then show ?thesis by (auto simp del: take_bit_take_bit)
qed

lemma EqExpr_create_impl: "wt (BinaryExpr Eq l r) \<Longrightarrow> impl (EqExpr_create l r) (BinaryExpr Eq l r)"
  by (simp add: EqExpr_create_def impl_def ce_ok_alloc)

lemma bool_val: "wt e \<Longrightarrow> getWidth e = 1 \<Longrightarrow> eval \<sigma> e = 0 \<or> eval \<sigma> e = 1"
  using wt_fits [of e \<sigma>] by (simp add: fits_1)

lemma EqExpr_false_impl:
  assumes "ce_ok cl" "wt r" "getWidth r = 1" "ce_width cl = 1" "\<not> isTrue cl" "\<And>\<sigma>. eval \<sigma> e = of_bool (eval \<sigma> r = 0)" "wt e" "getWidth e = 1"
  shows "impl e (BinaryExpr Eq (ConstantExpr cl) r)"
  using assms by (auto simp: impl_def isTrue_def)

lemma create_Eq_impl:
  "wt (BinaryExpr Eq l r) \<Longrightarrow> impl (create_Eq l r) (BinaryExpr Eq l r)"
  "ce_ok cl \<Longrightarrow> wt r \<Longrightarrow> getWidth r = ce_width cl \<Longrightarrow> impl (EqExpr_createPartialR cl r) (BinaryExpr Eq (ConstantExpr cl) r)"
proof (induction l r and cl r rule: create_Eq_EqExpr_createPartialR.induct)
  case (1 l r)
  have w: "\<not> getWidth l \<noteq> getWidth r" using "1.prems" by simp
  note IH = "1.IH" [OF w]
  show ?case
  proof (cases "dc_const l"; cases "dc_const r")
    fix cl assume l: "dc_const l = Some cl" and r: "dc_const r = None"
    then show ?thesis using IH(2) [OF l r] "1.prems" by (subst create_Eq.simps) (simp add: dc_simps impl_def)
  next
    fix cr assume l: "dc_const l = None" and r: "dc_const r = Some cr"
    then show ?thesis using IH(1) [OF l r] "1.prems" by (subst create_Eq.simps) (auto simp: dc_simps impl_def)
  next
    assume "dc_const l = None" "dc_const r = None"
    then show ?thesis using w EqExpr_create_impl [OF "1.prems"] by (subst create_Eq.simps) simp
  next
    fix cl cr assume "dc_const l = Some cl" "dc_const r = Some cr"
    then show ?thesis using w "1.prems" by (subst create_Eq.simps) (simp add: dc_simps impl_def ce_ok_binop)
  qed
next
  case (2 cl r)
  have alloc: "impl (EqExpr_create (ConstantExpr cl) r) (BinaryExpr Eq (ConstantExpr cl) r)"
    using "2.prems" by (intro EqExpr_create_impl) simp
  show ?case
  proof (cases "ce_width cl = 1")
    case True
    have b: "getWidth r = 1" "\<And>\<sigma>. eval \<sigma> r = 0 \<or> eval \<sigma> r = 1" using "2.prems" True bool_val by auto
    have "impl r (BinaryExpr Eq (ConstantExpr cl) r)" if "isTrue cl"
      using "2.prems" True that b unfolding impl_def isTrue_def by (auto simp: ce_ok_def fits_1)
    moreover have "impl (snd p) (BinaryExpr Eq (ConstantExpr cl) r)"
      if "\<not> isTrue cl" "dc_bin Eq r = Some p" "dc_const (fst p) = Some ce" "isFalse ce" for p ce
    proof (rule EqExpr_false_impl [OF "2.prems"(1,2) b(1) True that(1)])
      have r: "r = BinaryExpr Eq (ConstantExpr ce) (snd p)" using that(2,3) by (simp add: dc_simps)
      show w: "wt (snd p)" "getWidth (snd p) = 1" using r "2.prems"(2) that(4) by (auto simp: isFalse_def)
      show "eval \<sigma> (snd p) = of_bool (eval \<sigma> r = 0)" for \<sigma> using r that(4) bool_val [OF w, of \<sigma>] by (auto simp: isFalse_def)
    qed
    moreover have "impl (create_And (create_Eq (fst p) (ConstantExpr (CE_alloc 0 (getWidth (fst p)))))
        (create_Eq (snd p) (ConstantExpr (CE_alloc 0 (getWidth (snd p)))))) (BinaryExpr Eq (ConstantExpr cl) r)"
      if n: "\<not> isTrue cl" "dc_bin Eq r = None" "dc_bin Or r = Some p" for p
    proof -
      let ?z = "\<lambda>e. create_Eq e (ConstantExpr (CE_alloc 0 (getWidth e)))"
      have r: "r = BinaryExpr Or (fst p) (snd p)" using n(3) by (simp add: dc_simps)
      then have w: "wt (fst p)" "wt (snd p)" "getWidth (fst p) = 1" "getWidth (snd p) = 1" using "2.prems"(2) b(1) by auto
      have z: "impl (?z (fst p)) (BinaryExpr Eq (fst p) (ConstantExpr (CE_alloc 0 1)))"
        "impl (?z (snd p)) (BinaryExpr Eq (snd p) (ConstantExpr (CE_alloc 0 1)))"
        using "2.IH"(1,2) [OF True n] w by (simp_all add: ce_ok_alloc)
      note c = create_And_impl [of "?z (fst p)" "?z (snd p)"]
      have "eval \<sigma> (create_And (?z (fst p)) (?z (snd p))) = of_bool (eval \<sigma> r = 0)" for \<sigma>
        using c z r bool_val [OF w(1,3), of \<sigma>] bool_val [OF w(2,4), of \<sigma>] by (auto simp: impl_def)
      then show ?thesis using c z by (intro EqExpr_false_impl [OF "2.prems"(1,2) b(1) True n(1)]) (auto simp: impl_def)
    qed
    ultimately show ?thesis using True alloc
      by (subst EqExpr_createPartialR.simps) (auto split: option.split)
  next
    case False
    have s: "impl (let trunc = CE_ZExt cl (getWidth e) in if cl = CE_SExt trunc (ce_width cl)
        then create_Eq e (ConstantExpr trunc) else ConstantExpr (CE_alloc 0 1)) (BinaryExpr Eq (ConstantExpr cl) r)"
      if n: "dc_SExt r = Some e" for e
    proof -
      obtain r: "r = SExtExpr e (ce_width cl)" using n "2.prems"(3) by (auto simp: dc_ext_Some)
      then have w: "wt e" "getWidth e \<le> ce_width cl" "0 < getWidth e" using "2.prems"(2) wt_width_pos by auto
      have iff: "ce_value cl = eval \<sigma> r \<longleftrightarrow> cl = CE_SExt (CE_ZExt cl (getWidth e)) (ce_width cl) \<and>
          eval \<sigma> e = take_bit (getWidth e) (ce_value cl)" for \<sigma>
        using sext_eq_iff [OF w(3,2) wt_fits [OF w(1)], of "ce_value cl" \<sigma>] "2.prems"(1) r
        by (cases cl) (auto simp: ce_ok_def CE_SExt_def CE_ZExt_def CE_alloc_def simp del: take_bit_take_bit)
      show ?thesis using "2.IH"(6) [OF False n refl] iff w "2.prems"
        by (auto simp: impl_def Let_def ce_ok_unops ce_ok_alloc)
    qed
    have z: "impl (let trunc = CE_ZExt cl (getWidth e) in if cl = CE_ZExt trunc (ce_width cl)
        then create_Eq e (ConstantExpr trunc) else ConstantExpr (CE_alloc 0 1)) (BinaryExpr Eq (ConstantExpr cl) r)"
      if n: "dc_SExt r = None" "dc_ZExt r = Some e" for e
    proof -
      obtain r: "r = ZExtExpr e (ce_width cl)" using n "2.prems"(3) by (auto simp: dc_ext_Some)
      then have w: "wt e" "getWidth e \<le> ce_width cl" "0 < getWidth e" using "2.prems"(2) wt_width_pos by auto
      have iff: "ce_value cl = eval \<sigma> r \<longleftrightarrow> cl = CE_ZExt (CE_ZExt cl (getWidth e)) (ce_width cl) \<and>
          eval \<sigma> e = take_bit (getWidth e) (ce_value cl)" for \<sigma>
        using zext_eq_iff [OF w(2) wt_fits [OF w(1)], of "ce_value cl" \<sigma>] "2.prems"(1) r
        by (cases cl) (auto simp: ce_ok_def CE_ZExt_def CE_alloc_def simp del: take_bit_take_bit)
      show ?thesis using "2.IH"(5) [OF False n refl] iff w "2.prems"
        by (auto simp: impl_def Let_def ce_ok_unops ce_ok_alloc)
    qed
    have a: "impl (EqExpr_createPartialR (CE_binop Sub cl c) (snd p)) (BinaryExpr Eq (ConstantExpr cl) r)"
      if n: "dc_SExt r = None" "dc_ZExt r = None" "dc_bin Add r = Some p" "dc_const (fst p) = Some c" for p c
    proof -
      have r: "r = BinaryExpr Add (ConstantExpr c) (snd p)" using n(3,4) by (simp add: dc_simps)
      then have w: "wt (snd p)" "ce_ok c" "ce_width c = ce_width cl" "getWidth (snd p) = ce_width cl" using "2.prems"(2,3) by auto
      have "ce_value cl = eval \<sigma> r \<longleftrightarrow> eval \<sigma> (snd p) = take_bit (ce_width cl) (ce_value cl - ce_value c)" for \<sigma>
        using take_bit_add_eq_iff [of "ce_width cl" "ce_value cl" "eval \<sigma> (snd p)" "ce_value c"] "2.prems"(1) wt_fits [OF w(1), of \<sigma>] w r
        by (simp add: ce_ok_def)
      then show ?thesis using "2.IH"(4) [OF False n] w "2.prems" ce_ok_binop [of cl c Sub] by (auto simp: impl_def)
    qed
    have d: "impl (EqExpr_createPartialR (CE_binop Sub c cl) (snd p)) (BinaryExpr Eq (ConstantExpr cl) r)"
      if n: "dc_SExt r = None" "dc_ZExt r = None" "dc_bin Add r = None" "dc_bin Sub r = Some p" "dc_const (fst p) = Some c" for p c
    proof -
      have r: "r = BinaryExpr Sub (ConstantExpr c) (snd p)" using n(4,5) by (simp add: dc_simps)
      then have w: "wt (snd p)" "ce_ok c" "ce_width c = ce_width cl" "getWidth (snd p) = ce_width cl" using "2.prems"(2,3) by auto
      have "ce_value cl = eval \<sigma> r \<longleftrightarrow> eval \<sigma> (snd p) = take_bit (ce_width cl) (ce_value c - ce_value cl)" for \<sigma>
        using take_bit_diff_eq_iff [of "ce_width cl" "ce_value cl" "eval \<sigma> (snd p)" "ce_value c"] "2.prems"(1) wt_fits [OF w(1), of \<sigma>] w r
        by (simp add: ce_ok_def)
      then show ?thesis using "2.IH"(3) [OF False n] w "2.prems" ce_ok_binop [of c cl Sub] by (auto simp: impl_def)
    qed
    show ?thesis using False alloc s z a d
      by (subst EqExpr_createPartialR.simps) (auto split: option.split)
  qed
qed

section \<open>Sums and differences\<close>

definition XorExpr_createPartialR :: "cexpr \<Rightarrow> expr \<Rightarrow> expr" where
  "XorExpr_createPartialR cl r =
     (if isZero cl then r
      else if ce_width cl = 1 then EqExpr_createPartialR (CE_alloc 0 1) r
      else BinaryExpr Xor (ConstantExpr cl) r)"

definition create_Xor :: "expr \<Rightarrow> expr \<Rightarrow> expr" where
  "create_Xor = BCREATE_R Xor (\<lambda>l cr. XorExpr_createPartialR cr l) XorExpr_createPartialR (BinaryExpr Xor)"

definition kid_const :: "binkind \<Rightarrow> expr \<Rightarrow> (cexpr \<times> expr) option" where
  "kid_const k e = (case dc_bin k e of Some p \<Rightarrow> map_option (\<lambda>c. (c, snd p)) (dc_const (fst p)) | None \<Rightarrow> None)"

lemma kid_const_Some: "kid_const k e = Some p \<longleftrightarrow> e = BinaryExpr k (ConstantExpr (fst p)) (snd p)"
  by (cases p; cases e) (auto simp: kid_const_def dc_bin_def dc_const_Some split: option.split)

text \<open>\<open>kid_const\<close> is the test \<open>getKind() == k && isa<ConstantExpr>(getKid(0))\<close> with the two operands.\<close>

function
  create_Add :: "expr \<Rightarrow> expr \<Rightarrow> expr" and
  AddExpr_createPartialR :: "cexpr \<Rightarrow> expr \<Rightarrow> expr" and
  AddExpr_create :: "expr \<Rightarrow> expr \<Rightarrow> expr" and
  create_Sub :: "expr \<Rightarrow> expr \<Rightarrow> expr" and
  SubExpr_createPartialR :: "cexpr \<Rightarrow> expr \<Rightarrow> expr" and
  SubExpr_create :: "expr \<Rightarrow> expr \<Rightarrow> expr"
where
  "create_Add l r =
     (if getWidth l \<noteq> getWidth r then BinaryExpr Add l r
      else case dc_const l of
        Some cl \<Rightarrow>
          (case dc_const r of
             Some cr \<Rightarrow> ConstantExpr (CE_binop Add cl cr)
           | None \<Rightarrow> AddExpr_createPartialR cl r)
      | None \<Rightarrow>
          (case dc_const r of
             Some cr \<Rightarrow> AddExpr_createPartialR cr l
           | None \<Rightarrow> AddExpr_create l r))"
| "AddExpr_createPartialR cl r =
     (if ce_width cl = 1 then XorExpr_createPartialR cl r
      else if isZero cl then r
      else case kid_const Add r of
        Some p \<Rightarrow> create_Add (ConstantExpr (CE_binop Add cl (fst p))) (snd p)
      | None \<Rightarrow>
          (case kid_const Sub r of
             Some p \<Rightarrow> create_Sub (ConstantExpr (CE_binop Add cl (fst p))) (snd p)
           | None \<Rightarrow> BinaryExpr Add (ConstantExpr cl) r))"
| "AddExpr_create l r =
     (if getWidth l = 1 then BinaryExpr Xor l r
      else case kid_const Add l of
        Some p \<Rightarrow> create_Add (ConstantExpr (fst p)) (create_Add (snd p) r)
      | None \<Rightarrow>
          (case kid_const Sub l of
             Some p \<Rightarrow> create_Add (ConstantExpr (fst p)) (create_Sub r (snd p))
           | None \<Rightarrow>
               (case kid_const Add r of
                  Some p \<Rightarrow> create_Add (ConstantExpr (fst p)) (create_Add l (snd p))
                | None \<Rightarrow>
                    (case kid_const Sub r of
                       Some p \<Rightarrow> create_Add (ConstantExpr (fst p)) (create_Sub l (snd p))
                     | None \<Rightarrow> BinaryExpr Add l r))))"
| "create_Sub l r =
     (if getWidth l \<noteq> getWidth r then BinaryExpr Sub l r
      else case dc_const l of
        Some cl \<Rightarrow>
          (case dc_const r of
             Some cr \<Rightarrow> ConstantExpr (CE_binop Sub cl cr)
           | None \<Rightarrow> SubExpr_createPartialR cl r)
      | None \<Rightarrow>
          (case dc_const r of
             Some cr \<Rightarrow> AddExpr_createPartialR (CE_binop Sub (CE_alloc 0 (ce_width cr)) cr) l
           | None \<Rightarrow> SubExpr_create l r))"
| "SubExpr_createPartialR cl r =
     (if ce_width cl = 1 then XorExpr_createPartialR cl r
      else case kid_const Add r of
        Some p \<Rightarrow> create_Sub (ConstantExpr (CE_binop Sub cl (fst p))) (snd p)
      | None \<Rightarrow>
          (case kid_const Sub r of
             Some p \<Rightarrow> create_Add (ConstantExpr (CE_binop Sub cl (fst p))) (snd p)
           | None \<Rightarrow> BinaryExpr Sub (ConstantExpr cl) r))"
| "SubExpr_create l r =
     (if getWidth l = 1 then BinaryExpr Xor l r
      else if l = r then ConstantExpr (CE_alloc 0 (getWidth l))
      else case kid_const Add l of
        Some p \<Rightarrow> create_Add (ConstantExpr (fst p)) (create_Sub (snd p) r)
      | None \<Rightarrow>
          (case kid_const Sub l of
             Some p \<Rightarrow> create_Sub (ConstantExpr (fst p)) (create_Add (snd p) r)
           | None \<Rightarrow>
               (case kid_const Add r of
                  Some p \<Rightarrow> create_Sub (create_Sub l (snd p)) (ConstantExpr (fst p))
                | None \<Rightarrow>
                    (case kid_const Sub r of
                       Some p \<Rightarrow> create_Sub (create_Add l (snd p)) (ConstantExpr (fst p))
                     | None \<Rightarrow> BinaryExpr Sub l r))))"
  by pat_completeness auto

abbreviation (input) sum_dom where
  "sum_dom \<equiv> create_Add_AddExpr_createPartialR_AddExpr_create_create_Sub_SubExpr_createPartialR_SubExpr_create_dom"

lemmas sum_pinduct = create_Add_AddExpr_createPartialR_AddExpr_create_create_Sub_SubExpr_createPartialR_SubExpr_create.pinduct

lemma XorExpr_createPartialR_weight: "expr_weight (XorExpr_createPartialR cl r) \<le> expr_weight r + 1"
  using create_Eq_weight(2) by (simp add: XorExpr_createPartialR_def)

text \<open>The steps of the two overload sets, as for the builder: \<open>adds k l r e\<close> says that \<open>e\<close> is a rewriting of \<open>l\<close> \<open>k\<close> \<open>r\<close>.\<close>

inductive adds :: "binkind \<Rightarrow> expr \<Rightarrow> expr \<Rightarrow> expr \<Rightarrow> bool" where
  adds_plain: "k = Add \<or> k = Sub \<Longrightarrow> adds k l r (BinaryExpr k l r)"
| adds_fold: "k = Add \<or> k = Sub \<Longrightarrow> dc_const l = Some a \<Longrightarrow> dc_const r = Some b \<Longrightarrow>
    adds k l r (ConstantExpr (CE_binop k a b))"
| adds_left: "dc_const l = Some a \<Longrightarrow> adds k (ConstantExpr a) r e \<Longrightarrow> adds k l r e"
| adds_comm: "dc_const r = Some b \<Longrightarrow> adds Add (ConstantExpr b) l e \<Longrightarrow> adds Add l r e"
| adds_neg: "dc_const r = Some b \<Longrightarrow> adds Add (ConstantExpr (CE_binop Sub (CE_alloc 0 (ce_width b)) b)) l e \<Longrightarrow> adds Sub l r e"
| adds_xorR: "k = Add \<or> k = Sub \<Longrightarrow> ce_width a = 1 \<Longrightarrow> adds k (ConstantExpr a) r (XorExpr_createPartialR a r)"
| adds_xor: "k = Add \<or> k = Sub \<Longrightarrow> getWidth l = 1 \<Longrightarrow> adds k l r (BinaryExpr Xor l r)"
| adds_zero: "isZero a \<Longrightarrow> adds Add (ConstantExpr a) r r"
| adds_same: "adds Sub l l (ConstantExpr (CE_alloc 0 (getWidth l)))"
| A_p_BpC: "kid_const Add r = Some p \<Longrightarrow> adds Add (ConstantExpr (CE_binop Add a (fst p))) (snd p) e \<Longrightarrow> adds Add (ConstantExpr a) r e"
| A_p_BmC: "kid_const Sub r = Some p \<Longrightarrow> adds Sub (ConstantExpr (CE_binop Add a (fst p))) (snd p) e \<Longrightarrow> adds Add (ConstantExpr a) r e"
| A_m_BpC: "kid_const Add r = Some p \<Longrightarrow> adds Sub (ConstantExpr (CE_binop Sub a (fst p))) (snd p) e \<Longrightarrow> adds Sub (ConstantExpr a) r e"
| A_m_BmC: "kid_const Sub r = Some p \<Longrightarrow> adds Add (ConstantExpr (CE_binop Sub a (fst p))) (snd p) e \<Longrightarrow> adds Sub (ConstantExpr a) r e"
| KpA_p_B: "kid_const Add l = Some p \<Longrightarrow> adds Add (snd p) r m \<Longrightarrow> adds Add (ConstantExpr (fst p)) m e \<Longrightarrow> adds Add l r e"
| KmA_p_B: "kid_const Sub l = Some p \<Longrightarrow> adds Sub r (snd p) m \<Longrightarrow> adds Add (ConstantExpr (fst p)) m e \<Longrightarrow> adds Add l r e"
| A_p_KpB: "kid_const Add r = Some p \<Longrightarrow> adds Add l (snd p) m \<Longrightarrow> adds Add (ConstantExpr (fst p)) m e \<Longrightarrow> adds Add l r e"
| A_p_KmB: "kid_const Sub r = Some p \<Longrightarrow> adds Sub l (snd p) m \<Longrightarrow> adds Add (ConstantExpr (fst p)) m e \<Longrightarrow> adds Add l r e"
| KpA_m_B: "kid_const Add l = Some p \<Longrightarrow> adds Sub (snd p) r m \<Longrightarrow> adds Add (ConstantExpr (fst p)) m e \<Longrightarrow> adds Sub l r e"
| KmA_m_B: "kid_const Sub l = Some p \<Longrightarrow> adds Add (snd p) r m \<Longrightarrow> adds Sub (ConstantExpr (fst p)) m e \<Longrightarrow> adds Sub l r e"
| A_m_KpB: "kid_const Add r = Some p \<Longrightarrow> adds Sub l (snd p) m \<Longrightarrow> adds Sub m (ConstantExpr (fst p)) e \<Longrightarrow> adds Sub l r e"
| A_m_KmB: "kid_const Sub r = Some p \<Longrightarrow> adds Add l (snd p) m \<Longrightarrow> adds Sub m (ConstantExpr (fst p)) e \<Longrightarrow> adds Sub l r e"

lemma adds_dom:
  "sum_dom (Inl (Inl (l, r))) \<Longrightarrow> adds Add l r (create_Add l r)"
  "sum_dom (Inl (Inr (Inl (cl, r)))) \<Longrightarrow> adds Add (ConstantExpr cl) r (AddExpr_createPartialR cl r)"
  "sum_dom (Inl (Inr (Inr (l, r)))) \<Longrightarrow> adds Add l r (AddExpr_create l r)"
  "sum_dom (Inr (Inl (l, r))) \<Longrightarrow> adds Sub l r (create_Sub l r)"
  "sum_dom (Inr (Inr (Inl (cl, r)))) \<Longrightarrow> adds Sub (ConstantExpr cl) r (SubExpr_createPartialR cl r)"
  "sum_dom (Inr (Inr (Inr (l, r)))) \<Longrightarrow> adds Sub l r (SubExpr_create l r)"
proof (induction l r and cl r and l r and l r and cl r and l r rule: sum_pinduct)
  case (1 l r)
  show ?case unfolding create_Add.psimps [OF "1.hyps"]
    by (simp split: option.split del: One_nat_def split_paired_All split_paired_Ex)
      (blast intro: adds_plain adds_fold adds_left [OF _ "1.IH"(3)] adds_comm [OF _ "1.IH"(2)] "1.IH"(1))
next
  case (2 cl r)
  show ?case unfolding AddExpr_createPartialR.psimps [OF "2.hyps"]
    by (simp split: option.split del: One_nat_def split_paired_All split_paired_Ex)
      (blast intro: adds_plain adds_xorR adds_zero A_p_BmC [OF _ "2.IH"(1)] A_p_BpC [OF _ "2.IH"(2)])
next
  case (3 l r)
  show ?case unfolding AddExpr_create.psimps [OF "3.hyps"]
    by (simp split: option.split del: One_nat_def split_paired_All split_paired_Ex)
      (blast intro: adds_plain adds_xor A_p_KmB [OF _ "3.IH"(1,2)] A_p_KpB [OF _ "3.IH"(3,4)]
        KmA_p_B [OF _ "3.IH"(5,6)] KpA_p_B [OF _ "3.IH"(7,8)])
next
  case (4 l r)
  show ?case unfolding create_Sub.psimps [OF "4.hyps"]
    by (simp split: option.split del: One_nat_def split_paired_All split_paired_Ex)
      (blast intro: adds_plain adds_fold adds_left [OF _ "4.IH"(3)] adds_neg [OF _ "4.IH"(2)] "4.IH"(1))
next
  case (5 cl r)
  show ?case unfolding SubExpr_createPartialR.psimps [OF "5.hyps"]
    by (simp split: option.split del: One_nat_def split_paired_All split_paired_Ex)
      (blast intro: adds_plain adds_xorR A_m_BmC [OF _ "5.IH"(1)] A_m_BpC [OF _ "5.IH"(2)])
next
  case (6 l r)
  show ?case unfolding SubExpr_create.psimps [OF "6.hyps"]
    by (simp split: option.split del: One_nat_def split_paired_All split_paired_Ex)
      (blast intro: adds_plain adds_xor adds_same A_m_KmB [OF _ "6.IH"(1,2)] A_m_KpB [OF _ "6.IH"(3,4)]
        KmA_m_B [OF _ "6.IH"(5,6)] KpA_m_B [OF _ "6.IH"(7,8)])
qed

lemma adds_weight: "adds k l r e \<Longrightarrow> expr_weight e \<le> expr_weight l + expr_weight r + 1"
  by (induction rule: adds.induct) (use XorExpr_createPartialR_weight in \<open>auto simp: dc_simps kid_const_Some\<close>)

lemma sum_total: "sum_dom x"
proof (rule spec [of _ x], rule "create_Add_AddExpr_createPartialR_AddExpr_create_create_Sub_SubExpr_createPartialR_SubExpr_create.termination"
    [of "measures [case_sum (case_sum (\<lambda>(l, r). expr_weight l + expr_weight r)
        (case_sum (\<lambda>(a, r). expr_weight r) (\<lambda>(l, r). expr_weight l + expr_weight r)))
        (case_sum (\<lambda>(l, r). expr_weight l + expr_weight r)
        (case_sum (\<lambda>(a, r). expr_weight r) (\<lambda>(l, r). expr_weight l + expr_weight r))),
      case_sum (case_sum (\<lambda>(l, r). of_bool (\<not> isConstant l \<and> \<not> isConstant r)) (case_sum (\<lambda>_. 0) (\<lambda>_. 1)))
        (case_sum (\<lambda>(l, r). of_bool (\<not> isConstant l \<and> \<not> isConstant r)) (case_sum (\<lambda>_. 0) (\<lambda>_. 1))),
      case_sum (case_sum (\<lambda>_. 1) (\<lambda>_. 0)) (case_sum (\<lambda>_. 1) (\<lambda>_. 0))]"], goal_cases)
  case 1 show ?case by simp
qed (force simp: dc_simps dc_const_isConstant kid_const_Some isConstant_def dest: adds_dom [THEN adds_weight])+

termination create_Add
  by (blast intro: sum_total)


declare create_Add.simps [simp del] AddExpr_createPartialR.simps [simp del] AddExpr_create.simps [simp del]
  create_Sub.simps [simp del] SubExpr_createPartialR.simps [simp del] SubExpr_create.simps [simp del]

lemma XorExpr_createPartialR_impl:
  assumes "ce_ok a" "wt r" "getWidth r = ce_width a"
  shows "impl (XorExpr_createPartialR a r) (BinaryExpr Xor (ConstantExpr a) r)"
proof -
  have "of_bool (0 = eval \<sigma> r) = ce_value a XOR eval \<sigma> r" if "ce_width a = 1" "\<not> isZero a" for \<sigma>
    using bool_val [of r \<sigma>] bool_val [of "ConstantExpr a" \<sigma>] assms that by (auto simp: isZero_def)
  then show ?thesis
    using assms create_Eq_impl(2) [of "CE_alloc 0 1" r]
    by (auto simp: XorExpr_createPartialR_def impl_def isZero_def ce_ok_alloc)
qed

lemma xor_bool_impl:
  assumes "impl e (BinaryExpr Xor l r)" "wt l" "wt r" "getWidth r = getWidth l" "getWidth l = 1" "k = Add \<or> k = Sub"
  shows "impl e (BinaryExpr k l r)"
proof -
  have "take_bit 1 (eval \<sigma> l + eval \<sigma> r) = eval \<sigma> l XOR eval \<sigma> r" "take_bit 1 (eval \<sigma> l - eval \<sigma> r) = eval \<sigma> l XOR eval \<sigma> r" for \<sigma>
    using bool_val [of l \<sigma>] bool_val [of r \<sigma>] assms(2-5) by auto
  then show ?thesis using assms(1,5,6) by (auto simp: impl_def)
qed

lemma adds_sound:
  "adds k l r e \<Longrightarrow> wt l \<Longrightarrow> wt r \<Longrightarrow> getWidth l = w \<Longrightarrow> getWidth r = w \<Longrightarrow>
     wt e \<and> getWidth e = w \<and> (k = Add \<or> k = Sub) \<and> (\<forall>\<sigma>. eval \<sigma> e = ap_binop k w (eval \<sigma> l) (eval \<sigma> r))"
proof (induction arbitrary: w rule: adds.induct)
  case (adds_xorR k a r)
  then show ?case using xor_bool_impl [OF XorExpr_createPartialR_impl, of a r k] by (auto simp: impl_def)
next
  case (adds_xor k l r)
  then show ?case using xor_bool_impl [OF impl_refl, of l r k] by (auto simp: impl_def)
next
  case (adds_zero a r)
  then show ?case using wt_fits [of r] by (simp add: isZero_def take_bit_fits)
next
  case (adds_same l)
  then show ?case using wt_width_pos [of l] by (simp add: ce_ok_alloc)
qed (force simp: dc_simps kid_const_Some ce_ok_binop ce_ok_alloc algebra_simps wt_width_pos)+


lemma create_sums_impl:
  assumes "wt (BinaryExpr k l r)" "adds k l r e"
  shows "impl e (BinaryExpr k l r)"
  using adds_sound [OF assms(2), of "getWidth l"] assms(1) by (auto simp: impl_def)

lemmas create_adds = adds_dom [OF sum_total]

section \<open>The other binary operations\<close>

definition MulExpr_createPartialR :: "cexpr \<Rightarrow> expr \<Rightarrow> expr" where
  "MulExpr_createPartialR cl r =
     (if ce_width cl = 1 then AndExpr_createPartial r cl
      else if isOne cl then r
      else if isZero cl then ConstantExpr cl
      else BinaryExpr Mul (ConstantExpr cl) r)"

definition MulExpr_create :: "expr \<Rightarrow> expr \<Rightarrow> expr" where
  "MulExpr_create l r = (if getWidth l = 1 then BinaryExpr And l r else BinaryExpr Mul l r)"

definition create_Mul :: "expr \<Rightarrow> expr \<Rightarrow> expr" where
  "create_Mul = BCREATE_R Mul (\<lambda>l cr. MulExpr_createPartialR cr l) MulExpr_createPartialR MulExpr_create"

definition DivExpr_create :: "binkind \<Rightarrow> expr \<Rightarrow> expr \<Rightarrow> expr" where
  "DivExpr_create k l r = (if getWidth l = 1 then l else BinaryExpr k l r)"

definition RemExpr_create :: "binkind \<Rightarrow> expr \<Rightarrow> expr \<Rightarrow> expr" where
  "RemExpr_create k l r = (if getWidth l = 1 then ConstantExpr (CE_alloc 0 1) else BinaryExpr k l r)"

definition ShExpr_create :: "binkind \<Rightarrow> expr \<Rightarrow> expr \<Rightarrow> expr" where
  "ShExpr_create k l r = (if getWidth l = 1 then create_And l (createIsZero_expr r) else BinaryExpr k l r)"

definition AShrExpr_create :: "expr \<Rightarrow> expr \<Rightarrow> expr" where
  "AShrExpr_create l r = (if getWidth l = 1 then l else BinaryExpr AShr l r)"

definition create_Ne :: "expr \<Rightarrow> expr \<Rightarrow> expr" where
  "create_Ne l r = create_Eq (ConstantExpr (CE_alloc 0 1)) (create_Eq l r)"

definition UltExpr_create :: "expr \<Rightarrow> expr \<Rightarrow> expr" where
  "UltExpr_create l r = (if getWidth l = 1 then create_And (createIsZero_expr l) r else BinaryExpr Ult l r)"

definition UleExpr_create :: "expr \<Rightarrow> expr \<Rightarrow> expr" where
  "UleExpr_create l r = (if getWidth l = 1 then create_Or (createIsZero_expr l) r else BinaryExpr Ule l r)"

definition SltExpr_create :: "expr \<Rightarrow> expr \<Rightarrow> expr" where
  "SltExpr_create l r = (if getWidth l = 1 then create_And l (createIsZero_expr r) else BinaryExpr Slt l r)"

definition SleExpr_create :: "expr \<Rightarrow> expr \<Rightarrow> expr" where
  "SleExpr_create l r = (if getWidth l = 1 then create_Or l (createIsZero_expr r) else BinaryExpr Sle l r)"

text \<open>The macros \<open>CMPCREATE\<close> and \<open>BCREATE\<close> of the source have the same body.\<close>

fun create_bin :: "binkind \<Rightarrow> expr \<Rightarrow> expr \<Rightarrow> expr" where
  "create_bin Add l r = create_Add l r"
| "create_bin Sub l r = create_Sub l r"
| "create_bin Mul l r = create_Mul l r"
| "create_bin UDiv l r = BCREATE UDiv (DivExpr_create UDiv) l r"
| "create_bin SDiv l r = BCREATE SDiv (DivExpr_create SDiv) l r"
| "create_bin URem l r = BCREATE URem (RemExpr_create URem) l r"
| "create_bin SRem l r = BCREATE SRem (RemExpr_create SRem) l r"
| "create_bin And l r = create_And l r"
| "create_bin Or l r = create_Or l r"
| "create_bin Xor l r = create_Xor l r"
| "create_bin Shl l r = BCREATE Shl (ShExpr_create Shl) l r"
| "create_bin LShr l r = BCREATE LShr (ShExpr_create LShr) l r"
| "create_bin AShr l r = BCREATE AShr AShrExpr_create l r"
| "create_bin Eq l r = create_Eq l r"
| "create_bin Ne l r = create_Ne l r"
| "create_bin Ult l r = BCREATE Ult UltExpr_create l r"
| "create_bin Ule l r = BCREATE Ule UleExpr_create l r"
| "create_bin Ugt l r = BCREATE Ult UltExpr_create r l"
| "create_bin Uge l r = BCREATE Ule UleExpr_create r l"
| "create_bin Slt l r = BCREATE Slt SltExpr_create l r"
| "create_bin Sle l r = BCREATE Sle SleExpr_create l r"
| "create_bin Sgt l r = BCREATE Slt SltExpr_create r l"
| "create_bin Sge l r = BCREATE Sle SleExpr_create r l"

lemma createIsZero_expr_impl: "wt e \<Longrightarrow> impl (createIsZero_expr e) (BinaryExpr Eq e (ConstantExpr (CE_alloc 0 (getWidth e))))"
  unfolding createIsZero_expr_def by (rule create_Eq_impl) (simp add: ce_ok_alloc wt_width_pos)

lemma createIsZero_weight: "expr_weight (createIsZero_expr e) \<le> expr_weight e + 1"
  using create_Eq_weight(1) [of e "ConstantExpr (CE_alloc 0 (getWidth e))"] by (simp add: createIsZero_expr_def)

lemma createIsZero_simps [simp]:
  assumes "wt e"
  shows "wt (createIsZero_expr e)" "getWidth (createIsZero_expr e) = 1" "eval \<sigma> (createIsZero_expr e) = of_bool (eval \<sigma> e = 0)"
  using createIsZero_expr_impl [OF assms] by (auto simp: impl_def)

lemma bool_And_impl:
  assumes "wt l" "wt r" "getWidth l = 1" "getWidth r = 1"
  shows "wt (create_And l r)" "getWidth (create_And l r) = 1" "eval \<sigma> (create_And l r) = of_bool (eval \<sigma> l \<noteq> 0 \<and> eval \<sigma> r \<noteq> 0)"
    "wt (create_Or l r)" "getWidth (create_Or l r) = 1" "eval \<sigma> (create_Or l r) = of_bool (eval \<sigma> l \<noteq> 0 \<or> eval \<sigma> r \<noteq> 0)"
  using create_And_impl [of l r] create_Or_impl [of l r] bool_val [of l \<sigma>] bool_val [of r \<sigma>] assms
  by (auto simp: impl_def)

lemma sgn_of_bool: "sgn_of (Suc 0) 0 = 0" "sgn_of (Suc 0) 1 = -1"
  by (simp_all add: sgn_of_def signed_take_bit_rec)

lemma ap_binop_bool:
  assumes "a = 0 \<or> a = 1" "b = 0 \<or> b = 1"
  shows "ap_binop Mul 1 a b = ap_binop And 1 a b" "ap_binop Shl 1 a b = of_bool (a \<noteq> 0 \<and> b = 0)" "ap_binop LShr 1 a b = of_bool (a \<noteq> 0 \<and> b = 0)"
    "ap_binop AShr 1 a b = a" "ap_binop Ult 1 a b = of_bool (a = 0 \<and> b \<noteq> 0)" "ap_binop Ule 1 a b = of_bool (a = 0 \<or> b \<noteq> 0)"
    "ap_binop Slt 1 a b = of_bool (a \<noteq> 0 \<and> b = 0)" "ap_binop Sle 1 a b = of_bool (a \<noteq> 0 \<or> b = 0)"
  using assms by (auto simp: sgn_of_bool)

lemma bool_case_impl:
  assumes "wt (BinaryExpr k l r)"
    and "getWidth l = 1 \<Longrightarrow> getWidth r = 1 \<Longrightarrow> wt e" "getWidth l = 1 \<Longrightarrow> getWidth r = 1 \<Longrightarrow> getWidth e = 1"
    and "\<And>\<sigma>. getWidth l = 1 \<Longrightarrow> getWidth r = 1 \<Longrightarrow> eval \<sigma> l = 0 \<or> eval \<sigma> l = 1 \<Longrightarrow> eval \<sigma> r = 0 \<or> eval \<sigma> r = 1 \<Longrightarrow>
      eval \<sigma> e = ap_binop k 1 (eval \<sigma> l) (eval \<sigma> r)"
  shows "impl (if getWidth l = 1 then e else BinaryExpr k l r) (BinaryExpr k l r)"
proof (cases "getWidth l = 1")
  case True
  moreover from this have r: "getWidth r = 1" and w: "wt l" "wt r" using assms(1) by simp_all
  moreover note assms(4) [OF True r bool_val [OF w(1) True] bool_val [OF w(2) r]] assms(2,3) [OF True r]
  ultimately show ?thesis by (simp add: impl_def)
qed (use impl_refl [OF assms(1)] in simp)

lemma bool_create_impl:
  assumes "wt l" "wt r" "getWidth l = getWidth r"
  shows "impl (MulExpr_create l r) (BinaryExpr Mul l r)"
    "impl (ShExpr_create Shl l r) (BinaryExpr Shl l r)" "impl (ShExpr_create LShr l r) (BinaryExpr LShr l r)"
    "impl (AShrExpr_create l r) (BinaryExpr AShr l r)"
    "impl (UltExpr_create l r) (BinaryExpr Ult l r)" "impl (UleExpr_create l r) (BinaryExpr Ule l r)"
    "impl (SltExpr_create l r) (BinaryExpr Slt l r)" "impl (SleExpr_create l r) (BinaryExpr Sle l r)"
  unfolding MulExpr_create_def ShExpr_create_def AShrExpr_create_def UltExpr_create_def UleExpr_create_def SltExpr_create_def SleExpr_create_def
  using assms
  by (intro bool_case_impl; simp add: bool_And_impl ap_binop_bool del: ap_binop.simps One_nat_def)+

lemma DivRem_create_impl:
  assumes "wt (BinaryExpr k l r)" "isDivKind k"
  shows "impl (DivExpr_create k l r) (BinaryExpr k l r)" "impl (RemExpr_create k l r) (BinaryExpr k l r)"
  using assms by (auto simp: DivExpr_create_def RemExpr_create_def intro!: impl_refl)

lemma create_Mul_impl:
  assumes "wt (BinaryExpr Mul l r)"
  shows "impl (create_Mul l r) (BinaryExpr Mul l r)"
proof -
  have p: "impl (MulExpr_createPartialR a x) (BinaryExpr Mul (ConstantExpr a) x)" if "ce_ok a" "wt x" "ce_width a = getWidth x" for a x
  proof (cases "ce_width a = 1")
    case True
    then show ?thesis using that AndOr_createPartial_impl(1) [of a x] bool_val [of x] bool_val [of "ConstantExpr a"]
        ap_binop_bool(1) [of "ce_value a"]
      by (simp add: MulExpr_createPartialR_def impl_def and.commute)
  next
    case False
    then show ?thesis using that wt_fits [of x] by (auto simp: MulExpr_createPartialR_def impl_def isZero_def isOne_def take_bit_fits)
  qed
  show ?thesis unfolding create_Mul_def
    by (rule BCREATE_R_impl [OF assms])
      (use assms p bool_create_impl(1) [of l r] in \<open>auto intro!: impl_commute\<close>)
qed

lemma create_Xor_impl:
  assumes "wt (BinaryExpr Xor l r)"
  shows "impl (create_Xor l r) (BinaryExpr Xor l r)"
  unfolding create_Xor_def
  by (rule BCREATE_R_impl [OF assms])
    (use assms XorExpr_createPartialR_impl impl_refl [OF assms] in \<open>auto intro!: impl_commute\<close>)

lemma create_Ne_impl:
  assumes "wt (BinaryExpr Ne l r)"
  shows "impl (create_Ne l r) (BinaryExpr Ne l r)"
  using create_Eq_impl(1) [of l r] create_Eq_impl(1) [of "ConstantExpr (CE_alloc 0 1)" "create_Eq l r"] assms
  by (auto simp: create_Ne_def impl_def ce_ok_alloc)

lemma impl_swap:
  assumes "impl e (BinaryExpr k r l)" "getWidth l = getWidth r" "(k, k') \<in> {(Ult, Ugt), (Ule, Uge), (Slt, Sgt), (Sle, Sge)}"
  shows "impl e (BinaryExpr k' l r)"
  using assms by (auto simp: impl_def)

lemma create_bool_impl:
  assumes "wt (BinaryExpr k l r)"
  shows "impl (BCREATE AShr AShrExpr_create l r) (BinaryExpr AShr l r)"
    "impl (BCREATE Shl (ShExpr_create Shl) l r) (BinaryExpr Shl l r)" "impl (BCREATE LShr (ShExpr_create LShr) l r) (BinaryExpr LShr l r)"
    "impl (BCREATE Ult UltExpr_create l r) (BinaryExpr Ult l r)" "impl (BCREATE Ule UleExpr_create l r) (BinaryExpr Ule l r)"
    "impl (BCREATE Slt SltExpr_create l r) (BinaryExpr Slt l r)" "impl (BCREATE Sle SleExpr_create l r) (BinaryExpr Sle l r)"
  using assms by (auto intro!: BCREATE_impl bool_create_impl)

lemma create_swap_impl:
  assumes "wt (BinaryExpr k l r)"
  shows "impl (BCREATE Ult UltExpr_create r l) (BinaryExpr Ugt l r)" "impl (BCREATE Ule UleExpr_create r l) (BinaryExpr Uge l r)"
    "impl (BCREATE Slt SltExpr_create r l) (BinaryExpr Sgt l r)" "impl (BCREATE Sle SleExpr_create r l) (BinaryExpr Sge l r)"
  using assms create_bool_impl(4-7) [of Eq r l] by (simp_all add: impl_def)

lemma create_div_impl:
  assumes "wt (BinaryExpr k l r)" "isDivKind k"
  shows "impl (BCREATE k (DivExpr_create k) l r) (BinaryExpr k l r)" "impl (BCREATE k (RemExpr_create k) l r) (BinaryExpr k l r)"
  using assms by (auto intro!: BCREATE_impl DivRem_create_impl)

lemma create_bin_impl:
  assumes "wt (BinaryExpr k l r)"
  shows "impl (create_bin k l r) (BinaryExpr k l r)"
  using assms create_bool_impl [OF assms] create_swap_impl [OF assms] create_div_impl [OF assms]
    create_sums_impl [OF assms] create_adds(1,4) [of l r] create_Mul_impl create_And_impl
    create_Or_impl create_Xor_impl create_Eq_impl(1) create_Ne_impl
  by (cases k) (simp_all only: create_bin.simps isDivKind_simps)

lemma create_bin_weight: "expr_weight (create_bin k l r) \<le> expr_weight (BinaryExpr k l r)"
proof -
  note w = createIsZero_weight [of l] createIsZero_weight [of r]
    create_AndOr_weight(1) [of l "createIsZero_expr r"] create_AndOr_weight(1) [of "createIsZero_expr l" r]
    create_AndOr_weight(1) [of r "createIsZero_expr l"] create_AndOr_weight(1) [of "createIsZero_expr r" l]
    create_AndOr_weight(2) [of l "createIsZero_expr r"] create_AndOr_weight(2) [of "createIsZero_expr l" r]
    create_AndOr_weight(2) [of r "createIsZero_expr l"] create_AndOr_weight(2) [of "createIsZero_expr r" l]
  have Mul: "expr_weight (create_Mul l r) \<le> expr_weight l + expr_weight r + 1"
    by (auto simp: create_Mul_def BCREATE_R_def MulExpr_createPartialR_def MulExpr_create_def AndExpr_createPartial_def dc_simps split: option.split)
  have Xor: "expr_weight (create_Xor l r) \<le> expr_weight l + expr_weight r + 1"
    using XorExpr_createPartialR_weight by (auto simp: create_Xor_def BCREATE_R_def dc_simps split: option.split)
  have Ne: "expr_weight (create_Ne l r) \<le> expr_weight l + expr_weight r + 2"
    using create_Eq_weight(1) [of l r] create_Eq_weight(1) [of "ConstantExpr (CE_alloc 0 1)" "create_Eq l r"] by (simp add: create_Ne_def)
  show ?thesis
    using w Mul Xor Ne create_adds(1,4) [of l r, THEN adds_weight] create_AndOr_weight [of l r] create_Eq_weight(1) [of l r]
    by (cases k)
      (auto simp: BCREATE_def DivExpr_create_def RemExpr_create_def ShExpr_create_def AShrExpr_create_def UltExpr_create_def
        UleExpr_create_def SltExpr_create_def SleExpr_create_def split: option.split)
qed

section \<open>Extraction, concatenation, extension and selection\<close>

definition create_Not :: "expr \<Rightarrow> expr" where
  "create_Not e = (case dc_const e of Some c \<Rightarrow> ConstantExpr (CE_Not c) | None \<Rightarrow> NotExpr e)"

definition dc_concat :: "expr \<Rightarrow> (expr \<times> expr) option" where
  "dc_concat e = (case e of ConcatExpr l r \<Rightarrow> Some (l, r) | _ \<Rightarrow> None)"

definition dc_extract :: "expr \<Rightarrow> (expr \<times> nat \<times> width) option" where
  "dc_extract e = (case e of ExtractExpr x off w \<Rightarrow> Some (x, off, w) | _ \<Rightarrow> None)"

lemma dc_concat_Some: "dc_concat e = Some p \<longleftrightarrow> e = ConcatExpr (fst p) (snd p)"
  by (cases p; cases e) (auto simp: dc_concat_def)

lemma dc_extract_Some: "dc_extract e = Some p \<longleftrightarrow> e = ExtractExpr (fst p) (fst (snd p)) (snd (snd p))"
  by (cases p; cases e) (auto simp: dc_extract_def)

text \<open>
  The width of the left part of a split extraction, \<open>w - |y| + off\<close> in the unsigned arithmetic of
  the source, is written \<open>w + off - |y|\<close>: in that branch \<open>off + w\<close> exceeds \<open>|y|\<close>.
\<close>

function create_Extract :: "expr \<Rightarrow> nat \<Rightarrow> width \<Rightarrow> expr" and create_Concat :: "expr \<Rightarrow> expr \<Rightarrow> expr" where
  "create_Extract e off w =
     (if w = 0 \<or> getWidth e < off + w then ExtractExpr e off w
      else if w = getWidth e then e
      else case dc_const e of
        Some c \<Rightarrow> ConstantExpr (CE_Extract c off w)
      | None \<Rightarrow>
          (case dc_concat e of
             Some p \<Rightarrow>
               (if getWidth (snd p) \<le> off then create_Extract (fst p) (off - getWidth (snd p)) w
                else if off + w \<le> getWidth (snd p) then create_Extract (snd p) off w
                else create_Concat (create_Extract (fst p) 0 (w + off - getWidth (snd p)))
                       (create_Extract (snd p) off (getWidth (snd p) - off)))
           | None \<Rightarrow> ExtractExpr e off w))"
| "create_Concat l r =
     (case dc_const l of
        Some lc \<Rightarrow> (case dc_const r of Some rc \<Rightarrow> ConstantExpr (CE_Concat lc rc) | None \<Rightarrow> ConcatExpr l r)
      | None \<Rightarrow>
          (case dc_extract l of
             Some ll \<Rightarrow>
               (case dc_extract r of
                  Some rr \<Rightarrow>
                    (if fst ll = fst rr \<and> fst (snd rr) + snd (snd rr) = fst (snd ll)
                     then create_Extract (fst ll) (fst (snd rr)) (getWidth l + getWidth r)
                     else ConcatExpr l r)
                | None \<Rightarrow> ConcatExpr l r)
           | None \<Rightarrow> ConcatExpr l r))"
  by pat_completeness auto

lemma create_Extract_dom_weight:
  "create_Extract_create_Concat_dom (Inl (e, off, w)) \<Longrightarrow> expr_weight (create_Extract e off w) \<le> 2 * expr_weight e + 1"
  "create_Extract_create_Concat_dom (Inr (l, r)) \<Longrightarrow> expr_weight (create_Concat l r) \<le> expr_weight l + expr_weight r + 1"
proof (induction e off w and l r rule: create_Extract_create_Concat.pinduct)
  case (1 e off w)
  then show ?case
    by (subst create_Extract.psimps [OF "1.hyps"]) (force simp: dc_concat_Some split: option.split)
next
  case (2 l r)
  then show ?case
    by (subst create_Concat.psimps [OF "2.hyps"]) (force simp: dc_extract_Some split: option.split)
qed

lemma extract_total: "create_Extract_create_Concat_dom x"
proof (rule spec [of _ x], rule "create_Extract_create_Concat.termination"
      [of "measure (case_sum (\<lambda>(e, off, w). 2 * expr_weight e + 1) (\<lambda>(l, r). expr_weight l + expr_weight r))"], goal_cases)
  case (6 e off w p)
  then show ?case using create_Extract_dom_weight(1) [OF 6(7)] create_Extract_dom_weight(1) [OF 6(8)] by (simp add: dc_concat_Some)
qed (auto simp: dc_concat_Some dc_extract_Some)

termination create_Extract
  by (blast intro: extract_total)

declare create_Extract.simps [simp del] create_Concat.simps [simp del]

lemmas create_Extract_weight = create_Extract_dom_weight [OF extract_total]

lemma extract_concat_bits:
  fixes L R :: int
  assumes "fits n R"
  shows "n \<le> off \<Longrightarrow> take_bit w (drop_bit off (push_bit n L OR R)) = take_bit w (drop_bit (off - n) L)"
    "off + w \<le> n \<Longrightarrow> take_bit w (drop_bit off (push_bit n L OR R)) = take_bit w (drop_bit off R)"
    "off < n \<Longrightarrow> n < off + w \<Longrightarrow> take_bit w (drop_bit off (push_bit n L OR R))
      = push_bit (n - off) (take_bit (w + off - n) L) OR take_bit (n - off) (drop_bit off R)"
proof -
  have R: "bit R i \<Longrightarrow> i < n" for i using assms by (simp add: fits_bit_iff)
  show "n \<le> off \<Longrightarrow> take_bit w (drop_bit off (push_bit n L OR R)) = take_bit w (drop_bit (off - n) L)"
    by (rule bit_eqI) (auto simp: bit_simps dest: R)
  show "off + w \<le> n \<Longrightarrow> take_bit w (drop_bit off (push_bit n L OR R)) = take_bit w (drop_bit off R)"
    by (rule bit_eqI) (auto simp: bit_simps dest: R)
  show "off < n \<Longrightarrow> n < off + w \<Longrightarrow> take_bit w (drop_bit off (push_bit n L OR R))
      = push_bit (n - off) (take_bit (w + off - n) L) OR take_bit (n - off) (drop_bit off R)"
    by (rule bit_eqI) (auto simp: bit_simps algebra_simps dest: R)
qed

lemma create_Extract_impl:
  "wt (ExtractExpr e off w) \<Longrightarrow> impl (create_Extract e off w) (ExtractExpr e off w)"
  "wt l \<Longrightarrow> wt r \<Longrightarrow> impl (create_Concat l r) (ConcatExpr l r)"
proof (induction e off w and l r rule: create_Extract_create_Concat.induct)
  case (1 e off w)
  have g: "\<not> (w = 0 \<or> getWidth e < off + w)" using "1.prems" by auto
  show ?case
  proof (cases "w = getWidth e")
    case True
    then show ?thesis using "1.prems" g wt_fits [of e] by (subst create_Extract.simps) (auto simp: impl_def take_bit_fits)
  next
    case False
    note IH = "1.IH" [OF g False]
    have c: "impl (create_Extract e off w) (ExtractExpr e off w)" if "dc_concat e = Some p" "dc_const e = None" for p
    proof -
      let ?l = "fst p" and ?r = "snd p"
      have e: "e = ConcatExpr ?l ?r" and w: "wt ?l" "wt ?r" using that(1) "1.prems" by (auto simp: dc_concat_Some)
      note IH' = IH [OF that(2,1)] and bits = extract_concat_bits [OF wt_fits [OF w(2)]]
      have lt: "off + w \<le> getWidth ?l + getWidth ?r" "0 < w" using "1.prems" e by (metis getWidth.simps(5) wt.simps(6))+
      consider "getWidth ?r \<le> off" | "\<not> getWidth ?r \<le> off" "off + w \<le> getWidth ?r" | "\<not> getWidth ?r \<le> off" "\<not> off + w \<le> getWidth ?r"
        by blast
      then have "impl (create_Extract e off w) (ExtractExpr (ConcatExpr ?l ?r) off w)"
      proof cases
        case 1
        then show ?thesis using IH'(1) [OF 1] w lt that g False bits(1) [OF 1]
          by (subst create_Extract.simps) (simp add: impl_def)
      next
        case 2
        then show ?thesis using IH'(2) [OF 2] w lt that g False bits(2) [OF 2(2)]
          by (subst create_Extract.simps) (simp add: impl_def)
      next
        case 3
        then show ?thesis using IH'(3-5) [OF 3] w lt that g False bits(3) [of off w]
          by (subst create_Extract.simps) (simp add: impl_def)
      qed
      then show ?thesis using e by simp
    qed
    show ?thesis
    proof (cases "dc_const e = None \<and> dc_concat e \<noteq> None")
      case True
      then show ?thesis using c by blast
    next
      case leaf: False
      then show ?thesis using "1.prems" g False
        by (subst create_Extract.simps) (auto simp: impl_def dc_simps CE_Extract_value ce_ok_unops split: option.split)
    qed
  qed
next
  case (2 l r)
  have m: "impl (create_Extract x o1 (getWidth l + getWidth r)) (ConcatExpr l r)"
    if "dc_const l = None" "dc_extract l = Some (x, o2, w2)" "dc_extract r = Some (x, o1, w1)" "o1 + w1 = o2" for x o1 o2 w1 w2
  proof -
    have e: "l = ExtractExpr x o2 w2" "r = ExtractExpr x o1 w1" using that(2,3) by (auto simp: dc_extract_Some)
    have "push_bit w1 (take_bit w2 (drop_bit o2 v)) OR take_bit w1 (drop_bit o1 v) = take_bit (w2 + w1) (drop_bit o1 v)" for v :: int
      using take_bit_glue [of w1 w2 "drop_bit o1 v"] that(4) by (simp add: add.commute)
    then show ?thesis using "2.IH" [OF that(1-3)] that(4) e "2.prems" by (auto simp: impl_def)
  qed
  then show ?case using "2.prems"
    by (cases "dc_const l"; cases "dc_const r"; cases "dc_extract l"; cases "dc_extract r"; subst create_Concat.simps)
      (auto simp: impl_def dc_simps CE_Concat_value)
qed

definition create_ZExt :: "expr \<Rightarrow> width \<Rightarrow> expr" where
  "create_ZExt e w =
     (let kBits = getWidth e
      in if w = kBits then e
         else if w < kBits then create_Extract e 0 w
         else case dc_const e of Some c \<Rightarrow> ConstantExpr (CE_ZExt c w) | None \<Rightarrow> ZExtExpr e w)"

definition create_SExt :: "expr \<Rightarrow> width \<Rightarrow> expr" where
  "create_SExt e w =
     (let kBits = getWidth e
      in if w = kBits then e
         else if w < kBits then create_Extract e 0 w
         else case dc_const e of Some c \<Rightarrow> ConstantExpr (CE_SExt c w) | None \<Rightarrow> SExtExpr e w)"

definition create_Select :: "expr \<Rightarrow> expr \<Rightarrow> expr \<Rightarrow> expr" where
  "create_Select c t f =
     (if getWidth c \<noteq> 1 \<or> getWidth t \<noteq> getWidth f then SelectExpr c t f
      else case dc_const c of
        Some ce \<Rightarrow> (if isTrue ce then t else f)
      | None \<Rightarrow>
          (if t = f then t
           else if getWidth t = 1 then
             (case dc_const t of
                Some ce \<Rightarrow> (if isTrue ce then create_Or c f else create_And (createIsZero_expr c) f)
              | None \<Rightarrow>
                  (case dc_const f of
                     Some ce \<Rightarrow> (if isTrue ce then create_Or (createIsZero_expr c) t else create_And c t)
                   | None \<Rightarrow> SelectExpr c t f))
           else SelectExpr c t f))"

lemma create_Not_impl: "wt e \<Longrightarrow> impl (create_Not e) (NotExpr e)"
  by (auto simp: create_Not_def impl_def dc_simps ce_ok_unops split: option.split)

lemma create_ext_impl:
  "wt (ZExtExpr e w) \<Longrightarrow> impl (create_ZExt e w) (ZExtExpr e w)"
  "wt (SExtExpr e w) \<Longrightarrow> impl (create_SExt e w) (SExtExpr e w)"
  using wt_fits [of e]
  by (auto simp: create_ZExt_def create_SExt_def impl_def dc_simps take_bit_fits sgn_of_def take_bit_signed_take_bit
      wt_width_pos Let_def intro: ce_ok_ext split: option.split)

lemma create_Select_impl:
  assumes "wt (SelectExpr c t f)"
  shows "impl (create_Select c t f) (SelectExpr c t f)"
proof -
  have w: "wt c" "wt t" "wt f" "getWidth c = 1" "getWidth t = getWidth f" using assms by simp_all
  have v: "eval \<sigma> t = of_bool (eval \<sigma> t \<noteq> 0)" "eval \<sigma> f = of_bool (eval \<sigma> f \<noteq> 0)" if "getWidth t = 1" for \<sigma>
    using bool_val [of t \<sigma>] bool_val [of f \<sigma>] w that by auto
  show ?thesis using w v
    by (force simp: create_Select_def impl_def dc_simps bool_And_impl isTrue_def split: option.split)
qed

lemma create_unary_weight:
  "expr_weight (create_Not e) \<le> expr_weight (NotExpr e)"
  "expr_weight (create_ZExt e w) \<le> expr_weight (ZExtExpr e w)" "expr_weight (create_SExt e w) \<le> expr_weight (SExtExpr e w)"
  using create_Extract_weight(1) [of e 0 w]
  by (auto simp: create_Not_def create_ZExt_def create_SExt_def Let_def split: option.split)

lemma create_Select_weight: "expr_weight (create_Select c t f) \<le> expr_weight (SelectExpr c t f)"
  using create_AndOr_weight(2) [of c f] create_AndOr_weight(1) [of "createIsZero_expr c" f]
    create_AndOr_weight(2) [of "createIsZero_expr c" t] create_AndOr_weight(1) [of c t] createIsZero_weight [of c]
  by (auto simp: create_Select_def split: option.split)

interpretation create: expr_builder create_bin create_Not create_Concat create_Extract create_ZExt create_SExt create_Select
  by unfold_locales (simp_all only: create_bin_impl create_Not_impl create_Extract_impl create_ext_impl create_Select_impl)

section \<open>Rebuilding a node\<close>

fun kids :: "expr \<Rightarrow> expr list" where
  "kids (ConstantExpr c) = []"
| "kids (NotOptimizedExpr e) = [e]"
| "kids (ReadExpr a i) = [i]"
| "kids (SelectExpr c t f) = [c, t, f]"
| "kids (ConcatExpr l r) = [l, r]"
| "kids (ExtractExpr e off w) = [e]"
| "kids (ZExtExpr e w) = [e]"
| "kids (SExtExpr e w) = [e]"
| "kids (NotExpr e) = [e]"
| "kids (BinaryExpr k l r) = [l, r]"

text \<open>
  \<open>ReadExpr::create\<close> returns the plain node for an empty update list of a symbolic array, and so
  does \<open>NotOptimizedExpr::create\<close>.  \<open>rebuild\<close> of a constant is an assertion; the visitor never
  asks for it.
\<close>

definition rebuild :: "expr \<Rightarrow> expr list \<Rightarrow> expr" where
  "rebuild e ks =
     (case e of
        ConstantExpr c \<Rightarrow> e
      | NotOptimizedExpr _ \<Rightarrow> NotOptimizedExpr (ks ! 0)
      | ReadExpr a _ \<Rightarrow> ReadExpr a (ks ! 0)
      | SelectExpr _ _ _ \<Rightarrow> create_Select (ks ! 0) (ks ! 1) (ks ! 2)
      | ConcatExpr _ _ \<Rightarrow> create_Concat (ks ! 0) (ks ! 1)
      | ExtractExpr _ off w \<Rightarrow> create_Extract (ks ! 0) off w
      | ZExtExpr _ w \<Rightarrow> create_ZExt (ks ! 0) w
      | SExtExpr _ w \<Rightarrow> create_SExt (ks ! 0) w
      | NotExpr _ \<Rightarrow> create_Not (ks ! 0)
      | BinaryExpr k _ _ \<Rightarrow> create_bin k (ks ! 0) (ks ! 1))"

definition lighter :: "expr \<Rightarrow> expr \<Rightarrow> bool" where
  "lighter e' e \<longleftrightarrow> e' = e \<or> expr_weight e' < expr_weight e"

text \<open>The node of the same class over other operands, which \<open>rebuild\<close> simplifies.\<close>

definition with_kids :: "expr \<Rightarrow> expr list \<Rightarrow> expr" where
  "with_kids e ks =
     (case e of
        ConstantExpr c \<Rightarrow> e
      | NotOptimizedExpr _ \<Rightarrow> NotOptimizedExpr (ks ! 0)
      | ReadExpr a _ \<Rightarrow> ReadExpr a (ks ! 0)
      | SelectExpr _ _ _ \<Rightarrow> SelectExpr (ks ! 0) (ks ! 1) (ks ! 2)
      | ConcatExpr _ _ \<Rightarrow> ConcatExpr (ks ! 0) (ks ! 1)
      | ExtractExpr _ off w \<Rightarrow> ExtractExpr (ks ! 0) off w
      | ZExtExpr _ w \<Rightarrow> ZExtExpr (ks ! 0) w
      | SExtExpr _ w \<Rightarrow> SExtExpr (ks ! 0) w
      | NotExpr _ \<Rightarrow> NotExpr (ks ! 0)
      | BinaryExpr k _ _ \<Rightarrow> BinaryExpr k (ks ! 0) (ks ! 1))"

lemma rebuild_weight: "expr_weight (rebuild e ks) \<le> expr_weight (with_kids e ks)"
proof (cases e)
  case (ExtractExpr x off w)
  then show ?thesis using create_Extract_weight(1) [of "ks ! 0" off w] by (simp add: rebuild_def with_kids_def)
next
  case (ConcatExpr l r)
  then show ?thesis using create_Extract_weight(2) [of "ks ! 0" "ks ! 1"] by (simp add: rebuild_def with_kids_def)
qed (simp_all only: rebuild_def with_kids_def expr.case create_Select_weight create_unary_weight create_bin_weight)

lemma rebuild_impl:
  assumes "wt (with_kids e ks)"
  shows "impl (rebuild e ks) (with_kids e ks)"
proof (cases e)
  case (BinaryExpr k l r)
  then show ?thesis using assms create_bin_impl [of k "ks ! 0" "ks ! 1"] by (auto simp: rebuild_def with_kids_def)
qed (use assms in \<open>simp_all add: rebuild_def with_kids_def impl_refl create_Select_impl create_Extract_impl
      create_ext_impl create_Not_impl\<close>)

lemma rebuild_lighter:
  assumes "list_all2 lighter ks (kids e)" "ks \<noteq> kids e"
  shows "expr_weight (rebuild e ks) < expr_weight e"
proof -
  have "expr_weight (with_kids e ks) < expr_weight e"
    using assms by (cases e) (auto simp: with_kids_def list_all2_Cons2 lighter_def)
  then show ?thesis using rebuild_weight [of e ks] by simp
qed

text \<open>\<open>refines P e' e\<close>: \<open>e'\<close> is well-formed, as wide as \<open>e\<close>, and equal to it under every assignment in \<open>P\<close>.\<close>

definition refines :: "(assignment \<Rightarrow> bool) \<Rightarrow> expr \<Rightarrow> expr \<Rightarrow> bool" where
  "refines P e' e \<longleftrightarrow> wt e' \<and> getWidth e' = getWidth e \<and> (\<forall>\<sigma>. P \<sigma> \<longrightarrow> eval \<sigma> e' = eval \<sigma> e)"

lemma refines_refl: "wt e \<Longrightarrow> refines P e e"
  by (simp add: refines_def)

lemma refines_trans: "refines P e1 e2 \<Longrightarrow> refines P e2 e3 \<Longrightarrow> refines P e1 e3"
  by (simp add: refines_def)

lemma impl_refines: "impl e1 e2 \<Longrightarrow> refines P e2 e3 \<Longrightarrow> refines P e1 e3"
  by (simp add: refines_def impl_def)

lemma wt_kids: "wt e \<Longrightarrow> k \<in> set (kids e) \<Longrightarrow> wt k"
  by (cases e) auto

lemma rebuild_refines:
  assumes "wt e" "list_all2 (refines P) ks (kids e)"
  shows "refines P (rebuild e ks) e"
proof -
  have "refines P (with_kids e ks) e"
    using assms by (cases e) (auto simp: with_kids_def refines_def list_all2_Cons2)
  then show ?thesis using rebuild_impl by (auto simp: refines_def impl_def)
qed

section \<open>Properties\<close>

text \<open>
  C13: the \<open>create\<close> method of every binary expression class returns a well-formed expression of
  the width and the value of the plain node, whatever it rewrites, and nothing heavier than it; on
  constants it folds.
\<close>

theorem create_bin_sound:
  assumes "wt (BinaryExpr k l r)"
  shows "wt (create_bin k l r) \<and> getWidth (create_bin k l r) = getWidth (BinaryExpr k l r) \<and>
    eval \<sigma> (create_bin k l r) = eval \<sigma> (BinaryExpr k l r) \<and>
    expr_weight (create_bin k l r) \<le> expr_weight (BinaryExpr k l r)"
  using create_bin_impl [OF assms] create_bin_weight [of k l r] by (simp add: impl_def)

theorem create_bin_sound_witness:
  "let x = ReadExpr (Array ''x'' 4) (ConstantExpr (CE 32 0));
       c = (\<lambda>n. ConstantExpr (CE 8 n))
   in create_bin Eq (c 7) (BinaryExpr Add (c 3) x) = BinaryExpr Eq (c 4) x \<and>
      eval (\<lambda>a i. 4) (create_bin Eq (c 7) (BinaryExpr Add (c 3) x)) = 1 \<and>
      create_bin Sub (BinaryExpr Add (c 3) x) (BinaryExpr Add (c 3) x) = c 0"
proof -
  define x where "x = ReadExpr (Array ''x'' 4) (ConstantExpr (CE 32 0))"
  define c where "c = (\<lambda>n. ConstantExpr (CE 8 n))"
  have "wt (BinaryExpr Eq (c 7) (BinaryExpr Add (c 3) x))" unfolding x_def c_def by code_simp
  from create_bin_sound [OF this, of "\<lambda>a i. 4"]
  have "eval (\<lambda>a i. 4) (create_bin Eq (c 7) (BinaryExpr Add (c 3) x))
      = eval (\<lambda>a i. 4) (BinaryExpr Eq (c 7) (BinaryExpr Add (c 3) x))" by blast
  moreover have "eval (\<lambda>a i. 4) (BinaryExpr Eq (c 7) (BinaryExpr Add (c 3) x)) = 1" unfolding x_def c_def by code_simp
  moreover have "create_bin Eq (c 7) (BinaryExpr Add (c 3) x) = BinaryExpr Eq (c 4) x" unfolding x_def c_def by code_simp
  moreover have "create_bin Sub (BinaryExpr Add (c 3) x) (BinaryExpr Add (c 3) x) = c 0" unfolding x_def c_def by code_simp
  ultimately show ?thesis unfolding x_def [symmetric] c_def [symmetric] by (simp add: Let_def)
qed

end
