(* ===== verification/Klee_Constraints.thy ===== *)
theory Klee_Constraints
  imports Klee_Create Clover_Trace
begin

text \<open>
  The constraint manager of KLEE (\<open>lib/Expr/Constraints.cpp\<close>) over the expression visitor
  (\<open>lib/Expr/ExprVisitor.cpp\<close>): a constraint is simplified with the equalities known so far,
  conjunctions are split, and an equality with a constant rewrites the constraints that are
  already there, which may add constraints in turn.  Every one of these recursions ends, because a
  rewritten expression is lighter, and none changes the set of solutions.
\<close>

section \<open>The visitor\<close>

text \<open>
  Both visitors of the constraint manager replace expressions by constants: \<open>v_pre\<close> is
  \<open>visitExpr\<close>, \<open>v_post\<close> is \<open>visitExprPost\<close> (\<open>None\<close>: \<open>Action::doChildren\<close>).  The table
  \<open>visited\<close> only remembers results.
\<close>

record visitor =
  v_pre :: "expr \<Rightarrow> cexpr option"
  v_post :: "expr \<Rightarrow> cexpr option"
  v_recursive :: bool

definition post_change :: "visitor \<Rightarrow> expr \<Rightarrow> expr" where
  "post_change v e =
     (if isConstant e then e
      else case v_post v e of Some c \<Rightarrow> ConstantExpr c | None \<Rightarrow> e)"

function visit :: "visitor \<Rightarrow> expr \<Rightarrow> expr" where
  "visit v e =
     (if isConstant e then e
      else case v_pre v e of
        Some c \<Rightarrow> ConstantExpr c
      | None \<Rightarrow>
          (let ks = map (visit v) (kids e)
           in if ks = kids e then post_change v e
              else if v_recursive v then post_change v (visit v (rebuild e ks))
              else post_change v (rebuild e ks)))"
  by pat_completeness auto

lemma lighter_trans: "lighter a b \<Longrightarrow> lighter b c \<Longrightarrow> lighter a c"
  by (auto simp: lighter_def)

lemma lighter_const: "\<not> isConstant e \<Longrightarrow> lighter (ConstantExpr c) e"
  by (simp add: lighter_def expr_weight_pos)

lemma post_change_lighter: "lighter (post_change v e) e"
  by (auto simp: post_change_def lighter_const lighter_def expr_weight_pos split: option.split)

lemma visit_dom_lighter: "visit_dom (v, e) \<Longrightarrow> lighter (visit v e) e"
proof (induction v e rule: visit.pinduct)
  case (1 v e)
  let ?ks = "map (visit v) (kids e)"
  show ?case
  proof (cases "isConstant e \<or> v_pre v e \<noteq> None \<or> ?ks = kids e")
    case True
    then show ?thesis
      by (subst visit.psimps [OF "1.hyps"])
        (auto simp: lighter_const post_change_lighter lighter_def [of e e] split: option.split)
  next
    case False
    then have *: "\<not> isConstant e" "v_pre v e = None" "?ks \<noteq> kids e" by simp_all
    have "list_all2 lighter ?ks (kids e)"
      unfolding list.rel_map by (rule list.rel_refl_strong) (rule "1.IH"(1) [OF *(1,2)])
    then have r: "lighter (rebuild e ?ks) e" using rebuild_lighter [OF _ *(3)] by (simp add: lighter_def)
    show ?thesis
    proof (cases "v_recursive v")
      case True
      then show ?thesis using "1.IH"(2) [OF *(1,2) refl *(3) True] r * post_change_lighter lighter_trans
        by (subst visit.psimps [OF "1.hyps"]) (simp add: Let_def, blast)
    next
      case f: False
      then show ?thesis using r * post_change_lighter lighter_trans
        by (subst visit.psimps [OF "1.hyps"]) (simp add: Let_def, blast)
    qed
  qed
qed

lemma kids_weight: "k \<in> set (kids e) \<Longrightarrow> expr_weight k < expr_weight e"
  by (cases e) (auto simp: kind_weight_def)

lemma visit_total: "visit_dom x"
proof (rule spec [of _ x], rule "visit.termination" [of "measure (\<lambda>(v, e). expr_weight e)"], goal_cases)
  case (2 v e k)
  then show ?case by (simp add: kids_weight)
next
  case (3 v e ks)
  have "list_all2 lighter ks (kids e)"
    unfolding 3(3) list.rel_map by (rule list.rel_refl_strong) (rule visit_dom_lighter, rule 3)
  then show ?case using rebuild_lighter 3 by simp
qed simp

termination visit
  by (blast intro: visit_total)

declare visit.simps [simp del]

lemmas visit_lighter = visit_dom_lighter [OF visit_total]

text \<open>
  A visitor is sound for \<open>P\<close> when the constants it puts in have the width of what they replace
  and its value, under every assignment in \<open>P\<close>.
\<close>

definition change_ok :: "(assignment \<Rightarrow> bool) \<Rightarrow> (expr \<Rightarrow> cexpr option) \<Rightarrow> bool" where
  "change_ok P f \<longleftrightarrow> (\<forall>e c. wt e \<longrightarrow> \<not> isConstant e \<longrightarrow> f e = Some c \<longrightarrow> refines P (ConstantExpr c) e)"

lemma post_change_refines: "change_ok P (v_post v) \<Longrightarrow> wt e \<Longrightarrow> refines P (post_change v e) e"
  by (auto simp: post_change_def change_ok_def refines_refl split: option.split)

lemma visit_refines:
  assumes "change_ok P (v_pre v)" "change_ok P (v_post v)"
  shows "wt e \<Longrightarrow> refines P (visit v e) e"
  using assms
proof (induction v e rule: visit.induct)
  case (1 v e)
  let ?ks = "map (visit v) (kids e)"
  note post = post_change_refines [OF "1.prems"(3)]
  show ?case
  proof (cases "isConstant e \<or> v_pre v e \<noteq> None \<or> ?ks = kids e")
    case True
    then show ?thesis using "1.prems" post
      by (subst visit.simps) (auto simp: change_ok_def refines_refl split: option.split)
  next
    case False
    then have *: "\<not> isConstant e" "v_pre v e = None" "?ks \<noteq> kids e" by simp_all
    have "list_all2 (refines P) ?ks (kids e)"
      unfolding list.rel_map by (rule list.rel_refl_strong) (use "1.IH"(1) [OF *(1,2)] "1.prems" wt_kids in blast)
    then have r: "refines P (rebuild e ?ks) e" by (rule rebuild_refines [OF "1.prems"(1)])
    then have w: "wt (rebuild e ?ks)" by (simp add: refines_def)
    have "refines P (if v_recursive v then visit v (rebuild e ?ks) else rebuild e ?ks) (rebuild e ?ks)"
      using "1.IH"(2) [OF *(1,2) refl *(3)] "1.prems" w refines_refl by auto
    note c = refines_trans [OF this r]
    have "refines P (post_change v (if v_recursive v then visit v (rebuild e ?ks) else rebuild e ?ks)) e"
      by (rule refines_trans [OF post c]) (use c in \<open>simp add: refines_def\<close>)
    then show ?thesis using * by (subst visit.simps) (simp add: Let_def split: if_splits)
  qed
qed

section \<open>The constraint manager\<close>

definition ExprReplaceVisitor :: "expr \<Rightarrow> cexpr \<Rightarrow> visitor" where
  "ExprReplaceVisitor src dst =
     \<lparr>v_pre = (\<lambda>e. if e = src then Some dst else None),
      v_post = (\<lambda>e. if e = src then Some dst else None), v_recursive = False\<rparr>"

definition ExprReplaceVisitor2 :: "(expr \<times> cexpr) list \<Rightarrow> visitor" where
  "ExprReplaceVisitor2 replacements =
     \<lparr>v_pre = (\<lambda>e. None), v_post = map_of replacements, v_recursive = True\<rparr>"

text \<open>\<open>std::map::insert\<close> keeps the first entry of a key, as \<open>map_of\<close> does.\<close>

definition equality_of :: "expr \<Rightarrow> expr \<times> cexpr" where
  "equality_of constraint =
     (case dc_bin Eq constraint of
        Some ee \<Rightarrow>
          (case dc_const (fst ee) of
             Some c \<Rightarrow> (snd ee, c)
           | None \<Rightarrow> (constraint, CE_alloc 1 1))
      | None \<Rightarrow> (constraint, CE_alloc 1 1))"

definition ConstraintManager_simplifyExpr :: "expr list \<Rightarrow> expr \<Rightarrow> expr" where
  "ConstraintManager_simplifyExpr constraints e =
     (if isConstant e then e
      else visit (ExprReplaceVisitor2 (map equality_of constraints)) e)"

text \<open>
  \<open>None\<close> is the assertion against a false constraint.  The member \<open>constraints\<close> is the list the
  functions take and return.
\<close>

function addConstraintInternal :: "expr list \<Rightarrow> expr \<Rightarrow> expr list option" and
  rewriteConstraints :: "visitor \<Rightarrow> expr list \<Rightarrow> expr list \<Rightarrow> expr list option"
where
  "addConstraintInternal constraints e =
     (case dc_const e of
        Some c \<Rightarrow> (if isTrue c then Some constraints else None)
      | None \<Rightarrow>
          (case dc_bin And e of
             Some be \<Rightarrow>
               (case addConstraintInternal constraints (fst be) of
                  Some cs \<Rightarrow> addConstraintInternal cs (snd be)
                | None \<Rightarrow> None)
           | None \<Rightarrow>
               (case kid_const Eq e of
                  Some be \<Rightarrow>
                    map_option (\<lambda>cs. cs @ [e])
                      (rewriteConstraints (ExprReplaceVisitor (snd be) (fst be)) constraints [])
                | None \<Rightarrow> Some (constraints @ [e]))))"
| "rewriteConstraints v old constraints =
     (case old of
        [] \<Rightarrow> Some constraints
      | ce # old' \<Rightarrow>
          (let e = visit v ce
           in if e \<noteq> ce then
                (case addConstraintInternal constraints e of
                   Some cs \<Rightarrow> rewriteConstraints v old' cs
                 | None \<Rightarrow> None)
              else rewriteConstraints v old' (constraints @ [ce])))"
  by pat_completeness auto

definition ConstraintManager_addConstraint :: "expr list \<Rightarrow> expr \<Rightarrow> expr list option" where
  "ConstraintManager_addConstraint constraints e =
     addConstraintInternal constraints (ConstraintManager_simplifyExpr constraints e)"

abbreviation (input) cs_weight :: "expr list \<Rightarrow> nat" where
  "cs_weight cs \<equiv> sum_list (map expr_weight cs)"

lemma addConstraint_dom_weight:
  "addConstraintInternal_rewriteConstraints_dom (Inl (constraints, e)) \<Longrightarrow>
     addConstraintInternal constraints e = Some cs \<Longrightarrow> cs_weight cs \<le> cs_weight constraints + expr_weight e"
  "addConstraintInternal_rewriteConstraints_dom (Inr (v, old, constraints)) \<Longrightarrow>
     rewriteConstraints v old constraints = Some cs \<Longrightarrow> cs_weight cs \<le> cs_weight old + cs_weight constraints"
proof (induction constraints e and v old constraints arbitrary: cs and cs rule: addConstraintInternal_rewriteConstraints.pinduct)
  case (1 constraints e)
  note step = "1.prems" [unfolded addConstraintInternal.psimps [OF "1.hyps"]]
  show ?case
  proof (cases "dc_const e")
    case c: None
    show ?thesis
    proof (cases "dc_bin And e")
      case a: None
      show ?thesis
      proof (cases "kid_const Eq e")
        case None
        then show ?thesis using step c a by auto
      next
        case (Some be)
        then obtain cs' where "rewriteConstraints (ExprReplaceVisitor (snd be) (fst be)) constraints [] = Some cs'" "cs = cs' @ [e]"
          using step c a by auto
        with "1.IH"(1) [OF c a Some, of cs'] show ?thesis by simp
      qed
    next
      case (Some be)
      then obtain cs' where cs': "addConstraintInternal constraints (fst be) = Some cs'" "addConstraintInternal cs' (snd be) = Some cs"
        using step c by (auto split: option.splits)
      from "1.IH"(2) [OF c Some cs'(1)] "1.IH"(3) [OF c Some cs'] Some show ?thesis by (simp add: dc_bin_Some)
    qed
  qed (use step in \<open>auto split: if_splits\<close>)
next
  case (2 v old constraints)
  note step = "2.prems" [unfolded rewriteConstraints.psimps [OF "2.hyps"]]
  show ?case
  proof (cases old)
    case (Cons ce old')
    show ?thesis
    proof (cases "visit v ce = ce")
      case True
      then show ?thesis using step Cons "2.IH"(3) [OF Cons refl] by simp
    next
      case False
      then obtain cs' where cs': "addConstraintInternal constraints (visit v ce) = Some cs'" "rewriteConstraints v old' cs' = Some cs"
        using step Cons by (auto simp: Let_def split: option.splits)
      have "expr_weight (visit v ce) < expr_weight ce" using visit_lighter [of v ce] False by (simp add: lighter_def)
      with "2.IH"(1) [OF Cons refl False cs'(1)] "2.IH"(2) [OF Cons refl False cs'] Cons show ?thesis by simp
    qed
  qed (use step in simp)
qed

lemma addConstraint_total: "addConstraintInternal_rewriteConstraints_dom x"
proof (rule spec [of _ x], rule "addConstraintInternal_rewriteConstraints.termination"
    [of "measures [case_sum (\<lambda>(cs, e). cs_weight cs + expr_weight e) (\<lambda>(v, old, cs). cs_weight old + cs_weight cs),
      case_sum (\<lambda>_. 0) (\<lambda>(v, old, cs). Suc (length old))]"], goal_cases)
  case (4 constraints e be cs)
  then show ?case using addConstraint_dom_weight(1) [OF 4(4,3)] by (simp add: dc_bin_Some)
next
  case (5 v old constraints ce old' e)
  then show ?case using visit_lighter [of v ce] by (auto simp: lighter_def)
next
  case (6 v old constraints ce old' e cs)
  then show ?case using visit_lighter [of v ce] addConstraint_dom_weight(1) [OF 6(5,4)] by (auto simp: lighter_def)
qed (auto simp: dc_bin_Some kid_const_Some)

termination addConstraintInternal
  by (blast intro: addConstraint_total)

declare addConstraintInternal.simps [simp del] rewriteConstraints.simps [simp del]

section \<open>The constraint manager keeps the solutions\<close>

lemma ExprReplaceVisitor_ok:
  assumes "bool_expr e" "kid_const Eq e = Some be"
  shows "change_ok (\<lambda>\<sigma>. eval \<sigma> e \<noteq> 0) (v_pre (ExprReplaceVisitor (snd be) (fst be)))"
    "change_ok (\<lambda>\<sigma>. eval \<sigma> e \<noteq> 0) (v_post (ExprReplaceVisitor (snd be) (fst be)))"
proof -
  have "e = BinaryExpr Eq (ConstantExpr (fst be)) (snd be)" using assms(2) by (simp add: kid_const_Some)
  then have "refines (\<lambda>\<sigma>. eval \<sigma> e \<noteq> 0) (ConstantExpr (fst be)) (snd be)"
    using assms(1) by (auto simp: refines_def bool_expr_def)
  then show "change_ok (\<lambda>\<sigma>. eval \<sigma> e \<noteq> 0) (v_pre (ExprReplaceVisitor (snd be) (fst be)))"
    "change_ok (\<lambda>\<sigma>. eval \<sigma> e \<noteq> 0) (v_post (ExprReplaceVisitor (snd be) (fst be)))"
    by (simp_all add: change_ok_def ExprReplaceVisitor_def)
qed

lemma equality_of_refines:
  assumes "bool_expr k"
  shows "refines (\<lambda>\<sigma>. eval \<sigma> k \<noteq> 0) (ConstantExpr (snd (equality_of k))) (fst (equality_of k))"
proof (cases "kid_const Eq k")
  case None
  then have "equality_of k = (k, CE_alloc 1 1)"
    by (auto simp: equality_of_def kid_const_def split: option.splits)
  then show ?thesis using assms bool_expr_val [OF assms] by (auto simp: refines_def bool_expr_def ce_ok_alloc)
next
  case (Some be)
  then have "k = BinaryExpr Eq (ConstantExpr (fst be)) (snd be)" by (simp add: kid_const_Some)
  moreover from this have "equality_of k = (snd be, fst be)" by (simp add: equality_of_def dc_bin_def)
  ultimately show ?thesis using assms by (auto simp: refines_def bool_expr_def)
qed

lemma ExprReplaceVisitor2_ok:
  assumes "list_all bool_expr cs"
  shows "change_ok (\<lambda>\<sigma>. sat \<sigma> cs) (v_post (ExprReplaceVisitor2 (map equality_of cs)))"
proof -
  have "refines (\<lambda>\<sigma>. sat \<sigma> cs) (ConstantExpr c) e" if e: "map_of (map equality_of cs) e = Some c" for e c
  proof -
    from e have "(e, c) \<in> set (map equality_of cs)" by (rule map_of_SomeD)
    then obtain k where k: "k \<in> set cs" "equality_of k = (e, c)" by auto
    from equality_of_refines [of k] assms k show ?thesis by (auto simp: refines_def sat_def list_all_iff)
  qed
  then show ?thesis by (simp add: change_ok_def ExprReplaceVisitor2_def)
qed

lemma simplifyExpr_refines:
  assumes "list_all bool_expr cs" "wt e"
  shows "refines (\<lambda>\<sigma>. sat \<sigma> cs) (ConstraintManager_simplifyExpr cs e) e"
  using visit_refines [OF _ ExprReplaceVisitor2_ok [OF assms(1)] assms(2)] assms(2)
  by (simp add: ConstraintManager_simplifyExpr_def refines_refl change_ok_def ExprReplaceVisitor2_def)

text \<open>\<open>solutions P r Q\<close>: within \<open>P\<close>, the constraints \<open>r\<close> have the solutions \<open>Q\<close>, none if they were refused.\<close>

definition solutions :: "(assignment \<Rightarrow> bool) \<Rightarrow> expr list option \<Rightarrow> (assignment \<Rightarrow> bool) \<Rightarrow> bool" where
  "solutions P r Q \<longleftrightarrow>
     (case r of
        None \<Rightarrow> \<forall>\<sigma>. P \<sigma> \<longrightarrow> \<not> Q \<sigma>
      | Some cs \<Rightarrow> list_all bool_expr cs \<and> (\<forall>\<sigma>. P \<sigma> \<longrightarrow> (sat \<sigma> cs \<longleftrightarrow> Q \<sigma>)))"

lemma solutions_simps [simp]:
  "solutions P None Q \<longleftrightarrow> (\<forall>\<sigma>. P \<sigma> \<longrightarrow> \<not> Q \<sigma>)"
  "solutions P (Some cs) Q \<longleftrightarrow> list_all bool_expr cs \<and> (\<forall>\<sigma>. P \<sigma> \<longrightarrow> (sat \<sigma> cs \<longleftrightarrow> Q \<sigma>))"
  by (simp_all add: solutions_def)

lemma sat_simps [simp]: "sat \<sigma> (c # cs) \<longleftrightarrow> eval \<sigma> c \<noteq> 0 \<and> sat \<sigma> cs" "sat \<sigma> (cs @ ds) \<longleftrightarrow> sat \<sigma> cs \<and> sat \<sigma> ds"
  by (auto simp: sat_def)

lemma bool_And:
  assumes "bool_expr (BinaryExpr And l r)"
  shows "bool_expr l" "bool_expr r" "eval \<sigma> (BinaryExpr And l r) \<noteq> 0 \<longleftrightarrow> eval \<sigma> l \<noteq> 0 \<and> eval \<sigma> r \<noteq> 0"
proof -
  show b: "bool_expr l" "bool_expr r" using assms by (auto simp: bool_expr_def)
  show "eval \<sigma> (BinaryExpr And l r) \<noteq> 0 \<longleftrightarrow> eval \<sigma> l \<noteq> 0 \<and> eval \<sigma> r \<noteq> 0"
    using b [THEN bool_expr_val, of \<sigma>] by auto
qed

lemma addConstraintInternal_solutions:
  "list_all bool_expr constraints \<Longrightarrow> bool_expr e \<Longrightarrow>
     solutions (\<lambda>_. True) (addConstraintInternal constraints e) (\<lambda>\<sigma>. sat \<sigma> constraints \<and> eval \<sigma> e \<noteq> 0)"
  "list_all bool_expr old \<Longrightarrow> list_all bool_expr constraints \<Longrightarrow> change_ok P (v_pre v) \<Longrightarrow> change_ok P (v_post v) \<Longrightarrow>
     solutions P (rewriteConstraints v old constraints) (\<lambda>\<sigma>. sat \<sigma> old \<and> sat \<sigma> constraints)"
proof (induction constraints e and v old constraints arbitrary: and P rule: addConstraintInternal_rewriteConstraints.induct)
  case (1 constraints e)
  show ?case
  proof (cases "dc_const e")
    case (Some c)
    then have "ce_width c = 1" using "1.prems"(2) by (simp add: dc_simps bool_expr_def)
    then show ?thesis using "1.prems"(1) Some
      by (subst addConstraintInternal.simps) (auto simp: dc_simps isTrue_def)
  next
    case c: None
    consider (conj) be where "dc_bin And e = Some be" | (eq) be where "dc_bin And e = None" "kid_const Eq e = Some be"
      | (other) "dc_bin And e = None" "kid_const Eq e = None" by (cases "dc_bin And e"; cases "kid_const Eq e") auto
    then show ?thesis
    proof cases
      case conj
      then have b: "bool_expr (fst be)" "bool_expr (snd be)" "\<And>\<sigma>. eval \<sigma> e \<noteq> 0 \<longleftrightarrow> eval \<sigma> (fst be) \<noteq> 0 \<and> eval \<sigma> (snd be) \<noteq> 0"
        using "1.prems"(2) bool_And [of "fst be" "snd be"] by (simp_all add: dc_bin_Some)
      show ?thesis
      proof (cases "addConstraintInternal constraints (fst be)")
        case None
        then show ?thesis using "1.IH"(2) [OF c conj "1.prems"(1) b(1)] c conj b(3)
          by (subst addConstraintInternal.simps) auto
      next
        case (Some cs)
        then have s: "list_all bool_expr cs" "\<And>\<sigma>. sat \<sigma> cs \<longleftrightarrow> sat \<sigma> constraints \<and> eval \<sigma> (fst be) \<noteq> 0"
          using "1.IH"(2) [OF c conj "1.prems"(1) b(1)] by simp_all
        from "1.IH"(3) [OF c conj Some s(1) b(2)] show ?thesis using c conj Some s(2) b(3)
          by (subst addConstraintInternal.simps) (simp add: conj_assoc)
      qed
    next
      case eq
      from "1.IH"(1) [OF c eq "1.prems"(1) _ ExprReplaceVisitor_ok [OF "1.prems"(2) eq(2)]] show ?thesis using c eq "1.prems"
        by (subst addConstraintInternal.simps)
          (cases "rewriteConstraints (ExprReplaceVisitor (snd be) (fst be)) constraints []", auto)
    next
      case other
      then show ?thesis using c "1.prems" by (subst addConstraintInternal.simps) auto
    qed
  qed
next
  case (2 v old constraints)
  show ?case
  proof (cases old)
    case Nil
    then show ?thesis using "2.prems" by (subst rewriteConstraints.simps) simp
  next
    case (Cons ce old')
    have b: "bool_expr ce" "list_all bool_expr old'" using "2.prems"(1) Cons by simp_all
    show ?thesis
    proof (cases "visit v ce = ce")
      case True
      then show ?thesis using "2.IH"(3) [OF Cons refl _ b(2) _ "2.prems"(3,4)] "2.prems"(2) b(1) Cons
        by (subst rewriteConstraints.simps) (auto simp: Let_def solutions_def split: option.splits)
    next
      case False
      have r: "refines P (visit v ce) ce" using visit_refines [OF "2.prems"(3,4)] b(1) by (simp add: bool_expr_def)
      then have e: "bool_expr (visit v ce)" "\<And>\<sigma>. P \<sigma> \<Longrightarrow> eval \<sigma> (visit v ce) = eval \<sigma> ce"
        using b(1) by (simp_all add: refines_def bool_expr_def)
      show ?thesis
      proof (cases "addConstraintInternal constraints (visit v ce)")
        case None
        then show ?thesis using "2.IH"(1) [OF Cons refl False "2.prems"(2) e(1)] e(2) Cons False
          by (subst rewriteConstraints.simps) auto
      next
        case (Some cs)
        then have s: "list_all bool_expr cs" "\<And>\<sigma>. sat \<sigma> cs \<longleftrightarrow> sat \<sigma> constraints \<and> eval \<sigma> (visit v ce) \<noteq> 0"
          using "2.IH"(1) [OF Cons refl False "2.prems"(2) e(1)] by simp_all
        from "2.IH"(2) [OF Cons refl False Some b(2) s(1) "2.prems"(3,4)] show ?thesis using Cons False Some s(2) e(2)
          by (subst rewriteConstraints.simps) (auto simp: solutions_def split: option.splits)
      qed
    qed
  qed
qed

lemma addConstraint_solutions:
  assumes "list_all bool_expr constraints" "bool_expr e"
  shows "solutions (\<lambda>_. True) (ConstraintManager_addConstraint constraints e) (\<lambda>\<sigma>. sat \<sigma> constraints \<and> eval \<sigma> e \<noteq> 0)"
proof -
  have r: "refines (\<lambda>\<sigma>. sat \<sigma> constraints) (ConstraintManager_simplifyExpr constraints e) e"
    using simplifyExpr_refines [OF assms(1)] assms(2) by (simp add: bool_expr_def)
  then have "bool_expr (ConstraintManager_simplifyExpr constraints e)" using assms(2) by (simp add: refines_def bool_expr_def)
  from addConstraintInternal_solutions(1) [OF assms(1) this] r show ?thesis
    by (auto simp: ConstraintManager_addConstraint_def solutions_def refines_def split: option.splits)
qed

lemma addConstraint_sound:
  assumes "list_all bool_expr constraints" and "bool_expr e"
  shows "case ConstraintManager_addConstraint constraints e of
      None \<Rightarrow> \<forall>\<sigma>. \<not> (sat \<sigma> constraints \<and> eval \<sigma> e \<noteq> 0)
    | Some cs \<Rightarrow> list_all bool_expr cs \<and> (\<forall>\<sigma>. sat \<sigma> cs \<longleftrightarrow> sat \<sigma> constraints \<and> eval \<sigma> e \<noteq> 0)"
  using addConstraint_solutions [OF assms] by (cases "ConstraintManager_addConstraint constraints e") simp_all

section \<open>The constraint manager behind the trace\<close>

text \<open>
  What \<open>Trace\<close> uses of KLEE, with the constraint manager and \<open>Expr::createIsZero\<close> as they are
  above and the solver as a parameter: \<open>getInitialValues\<close> and \<open>computeValidity\<close> of a query.
\<close>

definition klee_of :: "(Query \<Rightarrow> Assignment option) \<Rightarrow> (Query \<Rightarrow> Validity option) \<Rightarrow> klee" where
  "klee_of initial validity =
     \<lparr>addConstraint = ConstraintManager_addConstraint,
      simplifyExpr = ConstraintManager_simplifyExpr,
      createIsZero = createIsZero_expr,
      getInitialValues = initial,
      computeValidity = validity\<rparr>"

definition initial_ok :: "(Query \<Rightarrow> Assignment option) \<Rightarrow> bool" where
  "initial_ok initial \<longleftrightarrow>
     (\<forall>cs e as. list_all bool_expr cs \<longrightarrow> bool_expr e \<longrightarrow> initial (cs, e) = Some as \<longrightarrow>
        sat (assign_fn as) cs \<and> eval (assign_fn as) e = 0)"

section \<open>Properties\<close>

text \<open>
  C11: with a solver whose values satisfy the constraints of a query and falsify its expression,
  KLEE's constraint manager and \<open>Expr::createIsZero\<close> give the contract that the trace and the
  exploration rely on.
\<close>

theorem klee_of_ok:
  assumes "initial_ok initial"
  shows "klee_ok (klee_of initial validity)"
proof -
  have "bool_expr (ConstraintManager_simplifyExpr cs e) \<and>
      (\<forall>\<sigma>. sat \<sigma> cs \<longrightarrow> eval \<sigma> (ConstraintManager_simplifyExpr cs e) = eval \<sigma> e)"
    if "list_all bool_expr cs" "bool_expr e" for cs e
    using simplifyExpr_refines [OF that(1), of e] that(2) by (simp add: refines_def bool_expr_def)
  moreover have "bool_expr (createIsZero_expr e) \<and> (\<forall>\<sigma>. eval \<sigma> (createIsZero_expr e) = of_bool (eval \<sigma> e = 0))"
    if "bool_expr e" for e
    using that by (simp add: bool_expr_def)
  ultimately show ?thesis using assms addConstraint_sound
    by (simp add: klee_ok_def klee_of_def initial_ok_def ConstraintManager_simplifyExpr_def isConstant_def)
qed

theorem klee_of_ok_witness:
  "let x = ReadExpr (Array ''x'' 1) (ConstantExpr (CE 32 0));
       small = BinaryExpr Ult x (ConstantExpr (CE 8 10));
       five = BinaryExpr Eq (ConstantExpr (CE 8 5)) x;
       many = BinaryExpr Eq (ConstantExpr (CE 8 77)) x;
       k = klee_of (getInitialValues (candidate_klee [[(Array ''x'' 1, [5])]])) (\<lambda>q. None)
   in klee_ok k \<and> addConstraint k [small] five = Some [five] \<and> addConstraint k [small] many = None \<and>
      simplifyExpr k [five] (BinaryExpr And small (BinaryExpr Ule x x)) = ConstantExpr (CE 1 1) \<and>
      getInitialValues k ([small], createIsZero k five) = Some [(Array ''x'' 1, [5])]"
proof -
  define x where "x = ReadExpr (Array ''x'' 1) (ConstantExpr (CE 32 0))"
  define small where "small = BinaryExpr Ult x (ConstantExpr (CE 8 10))"
  define five where "five = BinaryExpr Eq (ConstantExpr (CE 8 5)) x"
  define many where "many = BinaryExpr Eq (ConstantExpr (CE 8 77)) x"
  define k where "k = klee_of (getInitialValues (candidate_klee [[(Array ''x'' 1, [5])]])) (\<lambda>q. None)"
  note defs = k_def five_def many_def small_def x_def
  have "klee_ok k" unfolding k_def
    by (rule klee_of_ok) (unfold initial_ok_def, blast dest: klee_exprD(5) [OF candidate_klee_ok])
  moreover have "addConstraint k [small] five = Some [five]" unfolding defs by code_simp
  moreover have "addConstraint k [small] many = None" unfolding defs by code_simp
  moreover have "simplifyExpr k [five] (BinaryExpr And small (BinaryExpr Ule x x)) = ConstantExpr (CE 1 1)" unfolding defs by code_simp
  moreover have "getInitialValues k ([small], createIsZero k five) = Some [(Array ''x'' 1, [5])]" unfolding defs by code_simp
  ultimately show ?thesis unfolding Let_def defs by blast
qed

end
