(* ===== verification/Klee_Solver.thy ===== *)
theory Klee_Solver
  imports Klee_Constraints
begin

text \<open>
  KLEE's solvers: the interface \<open>SolverImpl\<close>, \<open>Solver\<close> on top of it (\<open>lib/Solver/Solver.cpp\<close>), the
  solver that always fails (\<open>DummySolver.cpp\<close>) and the cache of validity results
  (\<open>CachingSolver.cpp\<close>).

  A solver keeps a state and answers, fails (\<open>return false\<close>, for example after a timeout), or ends
  in an assertion.  The locale \<open>solver_impl\<close> is the contract documented in \<open>SolverImpl.h\<close>; every
  layer is proved to keep it.
\<close>

section \<open>The interface\<close>

datatype 'a answer = Answer 'a | Failed | Aborted

text \<open>The outcome of the solver below, with a continuation for its answer.\<close>

definition answer_bind :: "'a answer \<times> 's \<Rightarrow> ('a \<Rightarrow> 's \<Rightarrow> 'b answer \<times> 't) \<Rightarrow> ('s \<Rightarrow> 't) \<Rightarrow> 'b answer \<times> 't" where
  "answer_bind r f st =
     (case fst r of
        Answer a \<Rightarrow> f a (snd r)
      | Failed \<Rightarrow> (Failed, st (snd r))
      | Aborted \<Rightarrow> (Aborted, st (snd r)))"

record 's SolverImpl =
  computeTruth :: "Query \<Rightarrow> 's \<Rightarrow> bool answer \<times> 's"
  impl_computeValidity :: "Query \<Rightarrow> 's \<Rightarrow> Validity answer \<times> 's"
  computeValue :: "Query \<Rightarrow> 's \<Rightarrow> expr answer \<times> 's"
  computeInitialValues :: "Query \<Rightarrow> array list \<Rightarrow> 's \<Rightarrow> u8 list list option answer \<times> 's"

definition withExpr :: "Query \<Rightarrow> expr \<Rightarrow> Query" where
  "withExpr q e = (fst q, e)"

definition withFalse :: "Query \<Rightarrow> Query" where
  "withFalse q = withExpr q (ConstantExpr (CE_alloc 0 1))"

definition Query_negateExpr :: "Query \<Rightarrow> Query" where
  "Query_negateExpr q = withExpr q (createIsZero_expr (snd q))"

section \<open>The contract\<close>

text \<open>\<open>counter \<sigma> q\<close>: the constraints hold under \<open>\<sigma>\<close> and the expression of the query does not.\<close>

definition counter :: "assignment \<Rightarrow> Query \<Rightarrow> bool" where
  "counter \<sigma> q \<longleftrightarrow> sat \<sigma> (fst q) \<and> eval \<sigma> (snd q) = 0"

definition valid :: "Query \<Rightarrow> bool" where
  "valid q \<longleftrightarrow> (\<forall>\<sigma>. sat \<sigma> (fst q) \<longrightarrow> eval \<sigma> (snd q) \<noteq> 0)"

definition invalid :: "Query \<Rightarrow> bool" where
  "invalid q \<longleftrightarrow> (\<forall>\<sigma>. sat \<sigma> (fst q) \<longrightarrow> eval \<sigma> (snd q) = 0)"

definition validity_of :: "Query \<Rightarrow> Validity" where
  "validity_of q = (if valid q then V_True else if invalid q then V_False else V_Unknown)"

definition sat_constraints :: "expr list \<Rightarrow> bool" where
  "sat_constraints cs \<longleftrightarrow> list_all bool_expr cs \<and> (\<exists>\<sigma>. sat \<sigma> cs)"

definition query_ok :: "Query \<Rightarrow> bool" where
  "query_ok q \<longleftrightarrow> sat_constraints (fst q) \<and> bool_expr (snd q)"

definition initial_query :: "Query \<Rightarrow> bool" where
  "initial_query q \<longleftrightarrow> list_all bool_expr (fst q) \<and> bool_expr (snd q) \<and> (\<forall>c. snd q = ConstantExpr c \<longrightarrow> isFalse c)"

text \<open>The values asked for decide the query.\<close>

definition covers :: "array list \<Rightarrow> Query \<Rightarrow> bool" where
  "covers objects q \<longleftrightarrow>
     (\<forall>\<sigma> \<sigma>'. (\<forall>a \<in> set objects. \<sigma> a = \<sigma>' a) \<longrightarrow> counter \<sigma> q \<longrightarrow> counter \<sigma>' q)"

definition fills :: "array list \<Rightarrow> u8 list list \<Rightarrow> bool" where
  "fills objects values \<longleftrightarrow> list_all2 (\<lambda>a bs. length bs = arr_size a) objects values"

text \<open>
  \<open>reliable\<close> says that the solver never fails; no assertion of it fails on the queries that are
  \<open>safe\<close>.
\<close>

definition progress :: "bool \<Rightarrow> (Query \<Rightarrow> bool) \<Rightarrow> Query \<Rightarrow> 'a answer \<Rightarrow> bool" where
  "progress reliable safe q r \<longleftrightarrow> (reliable \<longrightarrow> r \<noteq> Failed) \<and> (safe q \<longrightarrow> r \<noteq> Aborted)"

lemma progress_Answer [simp]: "progress reliable safe q (Answer a)"
  by (simp add: progress_def)

text \<open>What an answer of each of the four methods says of its query.\<close>

definition truth_spec :: "bool \<Rightarrow> (Query \<Rightarrow> bool) \<Rightarrow> Query \<Rightarrow> bool answer \<Rightarrow> bool" where
  "truth_spec reliable safe q r \<longleftrightarrow> (\<forall>b. r = Answer b \<longrightarrow> b = valid q) \<and> progress reliable safe q r"

definition validity_spec :: "bool \<Rightarrow> (Query \<Rightarrow> bool) \<Rightarrow> Query \<Rightarrow> Validity answer \<Rightarrow> bool" where
  "validity_spec reliable safe q r \<longleftrightarrow> (\<forall>v. r = Answer v \<longrightarrow> v = validity_of q) \<and> progress reliable safe q r"

definition is_value :: "Query \<Rightarrow> expr \<Rightarrow> bool" where
  "is_value q e \<longleftrightarrow> (\<exists>\<sigma>. sat \<sigma> (fst q) \<and> e = ConstantExpr (CE (getWidth (snd q)) (eval \<sigma> (snd q))))"

definition value_spec :: "bool \<Rightarrow> (Query \<Rightarrow> bool) \<Rightarrow> Query \<Rightarrow> expr answer \<Rightarrow> bool" where
  "value_spec reliable safe q r \<longleftrightarrow> (\<forall>e. r = Answer e \<longrightarrow> is_value q e) \<and> progress reliable safe q r"

definition solves :: "Query \<Rightarrow> array list \<Rightarrow> u8 list list option \<Rightarrow> bool" where
  "solves q objects i =
     (case i of
        None \<Rightarrow> \<forall>\<sigma>. \<not> counter \<sigma> q
      | Some vs \<Rightarrow> fills objects vs \<and> counter (assign_fn (zip objects vs)) q)"

definition initial_spec :: "bool \<Rightarrow> (Query \<Rightarrow> bool) \<Rightarrow> Query \<Rightarrow> array list \<Rightarrow> u8 list list option answer \<Rightarrow> bool" where
  "initial_spec reliable safe q objects r \<longleftrightarrow> (\<forall>i. r = Answer i \<longrightarrow> solves q objects i) \<and> progress reliable safe q r"

lemmas spec_defs = truth_spec_def validity_spec_def value_spec_def initial_spec_def progress_def

lemma spec_Answer [simp]:
  "truth_spec reliable safe q (Answer b) \<longleftrightarrow> b = valid q" "validity_spec reliable safe q (Answer v) \<longleftrightarrow> v = validity_of q"
  "value_spec reliable safe q (Answer e) \<longleftrightarrow> is_value q e" "initial_spec reliable safe q objects (Answer i) \<longleftrightarrow> solves q objects i"
  by (auto simp: spec_defs)

lemma spec_None:
  "truth_spec reliable safe q Failed \<longleftrightarrow> \<not> reliable" "validity_spec reliable safe q Failed \<longleftrightarrow> \<not> reliable"
  "value_spec reliable safe q Failed \<longleftrightarrow> \<not> reliable" "initial_spec reliable safe q objects Failed \<longleftrightarrow> \<not> reliable"
  "truth_spec reliable safe q Aborted \<longleftrightarrow> \<not> safe q" "validity_spec reliable safe q Aborted \<longleftrightarrow> \<not> safe q"
  "value_spec reliable safe q Aborted \<longleftrightarrow> \<not> safe q" "initial_spec reliable safe q objects Aborted \<longleftrightarrow> \<not> safe q"
  by (auto simp: spec_defs)

locale solver_impl =
  fixes I :: "'s SolverImpl" and inv :: "'s \<Rightarrow> bool" and reliable :: bool and safe :: "Query \<Rightarrow> bool"
  assumes safe_negate: "safe q \<Longrightarrow> safe (Query_negateExpr q)"
    and safe_subset: "safe q \<Longrightarrow> set cs \<subseteq> set (fst q) \<Longrightarrow> safe (cs, snd q)"
    and safe_key: "safe q \<Longrightarrow> set cs \<subseteq> insert (createIsZero_expr (snd q)) (set (fst q)) \<Longrightarrow> safe (cs, ConstantExpr (CE_alloc 0 1))"
    and truth: "inv s \<Longrightarrow> query_ok q \<Longrightarrow>
      inv (snd (computeTruth I q s)) \<and> truth_spec reliable safe q (fst (computeTruth I q s))"
    and validity: "inv s \<Longrightarrow> query_ok q \<Longrightarrow>
      inv (snd (impl_computeValidity I q s)) \<and> validity_spec reliable safe q (fst (impl_computeValidity I q s))"
    and feasible: "inv s \<Longrightarrow> sat_constraints (fst q) \<Longrightarrow> wt (snd q) \<Longrightarrow>
      inv (snd (computeValue I q s)) \<and> value_spec reliable safe q (fst (computeValue I q s))"
    and initial: "inv s \<Longrightarrow> initial_query q \<Longrightarrow> covers objects q \<Longrightarrow>
      inv (snd (computeInitialValues I q objects s)) \<and> initial_spec reliable safe q objects (fst (computeInitialValues I q objects s))"

lemma withFalse_key: "withFalse q = (fst q, ConstantExpr (CE_alloc 0 1))"
  by (simp add: withFalse_def withExpr_def)

lemma query_negate:
  assumes "query_ok q"
  shows "query_ok (Query_negateExpr q)" "valid (Query_negateExpr q) = invalid q" "invalid (Query_negateExpr q) = valid q"
  using assms by (auto simp: query_ok_def bool_expr_def Query_negateExpr_def withExpr_def valid_def invalid_def)

lemma query_consistent: "query_ok q \<Longrightarrow> \<not> (valid q \<and> invalid q)"
  by (auto simp: query_ok_def sat_constraints_def valid_def invalid_def)

section \<open>\<open>Solver\<close>\<close>

definition bool_query :: "(bool \<Rightarrow> 'a) \<Rightarrow> (Query \<Rightarrow> 's \<Rightarrow> 'a answer \<times> 's) \<Rightarrow> Query \<Rightarrow> 's \<Rightarrow> 'a answer \<times> 's" where
  "bool_query f run q s =
     (if getWidth (snd q) \<noteq> 1 then (Aborted, s)
      else case dc_const (snd q) of
        Some ce \<Rightarrow> (Answer (f (isTrue ce)), s)
      | None \<Rightarrow> run q s)"

definition Solver_evaluate :: "'s SolverImpl \<Rightarrow> Query \<Rightarrow> 's \<Rightarrow> Validity answer \<times> 's" where
  "Solver_evaluate I = bool_query (\<lambda>b. if b then V_True else V_False) (impl_computeValidity I)"

definition mustBeTrue :: "'s SolverImpl \<Rightarrow> Query \<Rightarrow> 's \<Rightarrow> bool answer \<times> 's" where
  "mustBeTrue I = bool_query (\<lambda>b. b) (computeTruth I)"

definition mustBeFalse :: "'s SolverImpl \<Rightarrow> Query \<Rightarrow> 's \<Rightarrow> bool answer \<times> 's" where
  "mustBeFalse I q = mustBeTrue I (Query_negateExpr q)"

definition mayBeTrue :: "'s SolverImpl \<Rightarrow> Query \<Rightarrow> 's \<Rightarrow> bool answer \<times> 's" where
  "mayBeTrue I q s = answer_bind (mustBeFalse I q s) (\<lambda>res s'. (Answer (\<not> res), s')) (\<lambda>s'. s')"

definition mayBeFalse :: "'s SolverImpl \<Rightarrow> Query \<Rightarrow> 's \<Rightarrow> bool answer \<times> 's" where
  "mayBeFalse I q s = answer_bind (mustBeTrue I q s) (\<lambda>res s'. (Answer (\<not> res), s')) (\<lambda>s'. s')"

definition Solver_getValue :: "'s SolverImpl \<Rightarrow> Query \<Rightarrow> 's \<Rightarrow> cexpr answer \<times> 's" where
  "Solver_getValue I q s =
     (case dc_const (snd q) of
        Some ce \<Rightarrow> (Answer ce, s)
      | None \<Rightarrow>
          answer_bind (computeValue I q s)
            (\<lambda>tmp s'. case dc_const tmp of Some c \<Rightarrow> (Answer c, s') | None \<Rightarrow> (Aborted, s')) (\<lambda>s'. s'))"

text \<open>A failure and the absence of a solution are the same to the caller.\<close>

definition Solver_getInitialValues :: "'s SolverImpl \<Rightarrow> Query \<Rightarrow> array list \<Rightarrow> 's \<Rightarrow> u8 list list option \<times> 's" where
  "Solver_getInitialValues I q objects s =
     (case computeInitialValues I q objects s of
        (Answer (Some values), s') \<Rightarrow> (Some values, s')
      | (_, s') \<Rightarrow> (None, s'))"

lemma bool_query_cases:
  "bool_expr (snd q) \<Longrightarrow> bool_query f run q s =
     (case dc_const (snd q) of Some ce \<Rightarrow> (Answer (f (isTrue ce)), s) | None \<Rightarrow> run q s)"
  by (simp add: bool_query_def bool_expr_def)

lemma const_valid:
  assumes "query_ok q" "dc_const (snd q) = Some ce"
  shows "isTrue ce = valid q" "(\<not> isTrue ce) = invalid q"
proof -
  obtain \<sigma> where "sat \<sigma> (fst q)" using assms(1) by (auto simp: query_ok_def sat_constraints_def)
  moreover have "bool_expr (ConstantExpr ce)" "snd q = ConstantExpr ce" using assms by (auto simp: query_ok_def dc_simps)
  ultimately show "isTrue ce = valid q" "(\<not> isTrue ce) = invalid q"
    by (auto simp: valid_def invalid_def bool_expr_def isTrue_def)
qed

context solver_impl
begin

lemma mustBeTrue_sound:
  assumes "inv s" "query_ok q"
  shows "inv (snd (mustBeTrue I q s)) \<and> truth_spec reliable safe q (fst (mustBeTrue I q s))"
  using truth [OF assms] assms const_valid [OF assms(2)]
  by (auto simp: mustBeTrue_def bool_query_cases query_ok_def split: option.split)

lemma mustBeFalse_sound:
  assumes "inv s" "query_ok q"
  shows "inv (snd (mustBeFalse I q s)) \<and> truth_spec reliable safe (Query_negateExpr q) (fst (mustBeFalse I q s))"
  unfolding mustBeFalse_def using assms by (intro mustBeTrue_sound) (simp_all add: query_negate)

lemma mayBe_sound:
  assumes "inv s" "query_ok q"
  shows "inv (snd (mayBeTrue I q s))" "fst (mayBeTrue I q s) = Answer b \<Longrightarrow> b \<longleftrightarrow> \<not> invalid q"
    "inv (snd (mayBeFalse I q s))" "fst (mayBeFalse I q s) = Answer b \<Longrightarrow> b \<longleftrightarrow> \<not> valid q"
  using mustBeTrue_sound [OF assms] mustBeFalse_sound [OF assms] query_negate [OF assms(2)]
  by (auto simp: mayBeTrue_def mayBeFalse_def answer_bind_def split: answer.splits)

lemma evaluate_sound:
  assumes "inv s" "query_ok q"
  shows "inv (snd (Solver_evaluate I q s)) \<and> validity_spec reliable safe q (fst (Solver_evaluate I q s))"
proof (cases "dc_const (snd q)")
  case None
  then show ?thesis using validity [OF assms] assms(2) by (simp add: Solver_evaluate_def bool_query_cases query_ok_def)
next
  case (Some ce)
  then show ?thesis using const_valid [OF assms(2) Some] assms
    by (auto simp: Solver_evaluate_def bool_query_cases query_ok_def validity_of_def)
qed

lemma getInitialValues_sound:
  assumes "inv s" "initial_query q" "covers objects q"
  shows "inv (snd (Solver_getInitialValues I q objects s))"
    "fst (Solver_getInitialValues I q objects s) = Some vs \<Longrightarrow> fills objects vs \<and> counter (assign_fn (zip objects vs)) q"
    "fst (Solver_getInitialValues I q objects s) = None \<Longrightarrow> reliable \<Longrightarrow> safe q \<Longrightarrow> \<not> counter \<sigma> q"
  using initial [OF assms]
  by (auto simp: Solver_getInitialValues_def solves_def spec_None split: prod.splits answer.splits option.splits)

end

section \<open>The solver that always fails\<close>

definition DummySolverImpl :: "'s SolverImpl" where
  "DummySolverImpl =
     \<lparr>computeTruth = (\<lambda>q s. (Failed, s)), impl_computeValidity = (\<lambda>q s. (Failed, s)),
      computeValue = (\<lambda>q s. (Failed, s)), computeInitialValues = (\<lambda>q objects s. (Failed, s))\<rparr>"

interpretation dummy: solver_impl DummySolverImpl "\<lambda>_. True" False "\<lambda>_. True"
  by unfold_locales (simp_all add: DummySolverImpl_def spec_None)

section \<open>Partial knowledge of a validity\<close>

datatype PartialValidity = MustBeTrue | MustBeFalse | MayBeTrue | MayBeFalse | TrueOrFalse | PV_None

text \<open>Nothing is known of \<open>PV_None\<close>, on which the source asserts; the cache never stores it.\<close>

fun negatePartialValidity :: "PartialValidity \<Rightarrow> PartialValidity" where
  "negatePartialValidity MustBeTrue = MustBeFalse"
| "negatePartialValidity MustBeFalse = MustBeTrue"
| "negatePartialValidity MayBeTrue = MayBeFalse"
| "negatePartialValidity MayBeFalse = MayBeTrue"
| "negatePartialValidity TrueOrFalse = TrueOrFalse"
| "negatePartialValidity PV_None = PV_None"

text \<open>What the comments on the values say of a query.\<close>

fun pv_holds :: "Query \<Rightarrow> PartialValidity \<Rightarrow> bool" where
  "pv_holds q MustBeTrue = valid q"
| "pv_holds q MustBeFalse = invalid q"
| "pv_holds q MayBeTrue = (\<not> invalid q)"
| "pv_holds q MayBeFalse = (\<not> valid q)"
| "pv_holds q TrueOrFalse = (\<not> valid q \<and> \<not> invalid q)"
| "pv_holds q PV_None = True"

section \<open>The cache of validity results\<close>

text \<open>
  A query and its negation share an entry, under the smaller of the two expressions in the order of
  \<open>Expr::compare\<close>, the parameter \<open>lt\<close>.  \<open>unordered_map::insert\<close> keeps an entry that is there.
\<close>

type_synonym cache_map = "Query \<Rightarrow> PartialValidity option"

definition canonicalizeQuery :: "(expr \<Rightarrow> expr \<Rightarrow> bool) \<Rightarrow> expr \<Rightarrow> expr \<times> bool" where
  "canonicalizeQuery lt originalQuery =
     (let negatedQuery = createIsZero_expr originalQuery
      in if lt originalQuery negatedQuery then (originalQuery, False) else (negatedQuery, True))"

definition cacheLookup :: "(expr \<Rightarrow> expr \<Rightarrow> bool) \<Rightarrow> cache_map \<Rightarrow> Query \<Rightarrow> PartialValidity option" where
  "cacheLookup lt cache q =
     (case canonicalizeQuery lt (snd q) of
        (canonicalQuery, negationUsed) \<Rightarrow>
          map_option (\<lambda>pv. if negationUsed then negatePartialValidity pv else pv) (cache (fst q, canonicalQuery)))"

definition cacheInsert :: "(expr \<Rightarrow> expr \<Rightarrow> bool) \<Rightarrow> Query \<Rightarrow> PartialValidity \<Rightarrow> cache_map \<Rightarrow> cache_map" where
  "cacheInsert lt q result cache =
     (case canonicalizeQuery lt (snd q) of
        (canonicalQuery, negationUsed) \<Rightarrow>
          (if cache (fst q, canonicalQuery) = None
           then cache((fst q, canonicalQuery) \<mapsto> (if negationUsed then negatePartialValidity result else result))
           else cache))"

definition caching_validity :: "(expr \<Rightarrow> expr \<Rightarrow> bool) \<Rightarrow> 's SolverImpl \<Rightarrow> Query \<Rightarrow> cache_map \<times> 's \<Rightarrow> Validity answer \<times> cache_map \<times> 's" where
  "caching_validity lt I q = (\<lambda>(cache, s).
     case cacheLookup lt cache q of
       Some MustBeTrue \<Rightarrow> (Answer V_True, cache, s)
     | Some MustBeFalse \<Rightarrow> (Answer V_False, cache, s)
     | Some TrueOrFalse \<Rightarrow> (Answer V_Unknown, cache, s)
     | Some MayBeTrue \<Rightarrow>
         answer_bind (computeTruth I q s)
           (\<lambda>tmp s'. if tmp then (Answer V_True, cacheInsert lt q MustBeTrue cache, s')
                     else (Answer V_Unknown, cacheInsert lt q TrueOrFalse cache, s')) (\<lambda>s'. (cache, s'))
     | Some MayBeFalse \<Rightarrow>
         answer_bind (computeTruth I (Query_negateExpr q) s)
           (\<lambda>tmp s'. if tmp then (Answer V_False, cacheInsert lt q MustBeFalse cache, s')
                     else (Answer V_Unknown, cacheInsert lt q TrueOrFalse cache, s')) (\<lambda>s'. (cache, s'))
     | Some PV_None \<Rightarrow> (Aborted, cache, s)
     | None \<Rightarrow>
         answer_bind (impl_computeValidity I q s)
           (\<lambda>result s'. (Answer result,
              cacheInsert lt q (case result of V_True \<Rightarrow> MustBeTrue | V_False \<Rightarrow> MustBeFalse | V_Unknown \<Rightarrow> TrueOrFalse) cache, s'))
           (\<lambda>s'. (cache, s')))"

definition caching_truth :: "(expr \<Rightarrow> expr \<Rightarrow> bool) \<Rightarrow> 's SolverImpl \<Rightarrow> Query \<Rightarrow> cache_map \<times> 's \<Rightarrow> bool answer \<times> cache_map \<times> 's" where
  "caching_truth lt I q = (\<lambda>(cache, s).
     let cached = cacheLookup lt cache q
     in if cached \<noteq> None \<and> cached \<noteq> Some MayBeTrue then (Answer (cached = Some MustBeTrue), cache, s)
        else answer_bind (computeTruth I q s)
          (\<lambda>isValid s'. (Answer isValid,
             cacheInsert lt q (if isValid then MustBeTrue else if cached \<noteq> None then TrueOrFalse else MayBeFalse) cache, s'))
          (\<lambda>s'. (cache, s')))"

definition CachingSolver :: "(expr \<Rightarrow> expr \<Rightarrow> bool) \<Rightarrow> 's SolverImpl \<Rightarrow> (cache_map \<times> 's) SolverImpl" where
  "CachingSolver lt I =
     \<lparr>computeTruth = caching_truth lt I,
      impl_computeValidity = caching_validity lt I,
      computeValue = (\<lambda>q (cache, s). case computeValue I q s of (r, s') \<Rightarrow> (r, cache, s')),
      computeInitialValues = (\<lambda>q objects (cache, s). case computeInitialValues I q objects s of (r, s') \<Rightarrow> (r, cache, s'))\<rparr>"

definition cache_ok :: "cache_map \<Rightarrow> bool" where
  "cache_ok cache \<longleftrightarrow> (\<forall>q pv. query_ok q \<longrightarrow> cache q = Some pv \<longrightarrow> pv \<noteq> PV_None \<and> pv_holds q pv)"

lemma pv_negate:
  assumes "query_ok q"
  shows "pv_holds (Query_negateExpr q) (negatePartialValidity pv) = pv_holds q pv" "negatePartialValidity (negatePartialValidity pv) = pv"
    "pv_holds q (negatePartialValidity pv) = pv_holds (Query_negateExpr q) pv" "negatePartialValidity pv = PV_None \<longleftrightarrow> pv = PV_None"
  using query_negate(2,3) [OF assms] by (cases pv; auto)+

lemma cacheLookup_sound:
  assumes "cache_ok cache" "query_ok q" "cacheLookup lt cache q = Some pv"
  shows "pv \<noteq> PV_None \<and> pv_holds q pv"
proof (cases "lt (snd q) (createIsZero_expr (snd q))")
  case True
  then have "cache q = Some pv" using assms(3) by (simp add: cacheLookup_def canonicalizeQuery_def)
  then show ?thesis using assms(1,2) unfolding cache_ok_def by blast
next
  case False
  then obtain pv' where "cache (Query_negateExpr q) = Some pv'" "pv = negatePartialValidity pv'"
    using assms(3) by (auto simp: cacheLookup_def canonicalizeQuery_def Query_negateExpr_def withExpr_def)
  moreover from this have "pv' \<noteq> PV_None \<and> pv_holds (Query_negateExpr q) pv'"
    using assms(1) query_negate(1) [OF assms(2)] unfolding cache_ok_def by blast
  ultimately show ?thesis using pv_negate(3,4) [OF assms(2)] by simp
qed

lemma cacheInsert_ok:
  assumes "cache_ok cache" "query_ok q" "pv \<noteq> PV_None" "pv_holds q pv"
  shows "cache_ok (cacheInsert lt q pv cache)"
proof (cases "lt (snd q) (createIsZero_expr (snd q))")
  case True
  then have "cacheInsert lt q pv cache = (if cache q = None then cache(q \<mapsto> pv) else cache)"
    by (simp add: cacheInsert_def canonicalizeQuery_def)
  then show ?thesis using assms by (auto simp: cache_ok_def)
next
  case False
  then have "cacheInsert lt q pv cache =
      (if cache (Query_negateExpr q) = None then cache(Query_negateExpr q \<mapsto> negatePartialValidity pv) else cache)"
    by (simp add: cacheInsert_def canonicalizeQuery_def Query_negateExpr_def withExpr_def)
  then show ?thesis using assms pv_negate [OF assms(2)] by (auto simp: cache_ok_def)
qed

context solver_impl
begin

lemma caching_validity_sound:
  assumes "cache_ok cache" "inv s" "query_ok q"
  shows "cache_ok (fst (snd (caching_validity lt I q (cache, s)))) \<and> inv (snd (snd (caching_validity lt I q (cache, s)))) \<and>
    validity_spec reliable safe q (fst (caching_validity lt I q (cache, s)))"
proof -
  note ins = cacheInsert_ok [OF assms(1,3), where lt = lt]
  note n = query_negate [OF assms(3)]
  note facts = truth [OF assms(2,3)] truth [OF assms(2) n(1)] validity [OF assms(2,3)] safe_negate [of q] n
  note defs = caching_validity_def answer_bind_def validity_of_def
  show ?thesis
  proof (cases "cacheLookup lt cache q")
    case None
    have "cache_ok (cacheInsert lt q (case validity_of q of V_True \<Rightarrow> MustBeTrue | V_False \<Rightarrow> MustBeFalse | V_Unknown \<Rightarrow> TrueOrFalse) cache)"
      by (intro ins) (auto simp: validity_of_def)
    then show ?thesis using None assms(1) facts(3)
      by (cases "fst (impl_computeValidity I q s)") (auto simp: caching_validity_def answer_bind_def)
  next
    case (Some pv)
    note h = cacheLookup_sound [OF assms(1,3) Some]
    note ok = ins [of MustBeTrue] ins [of MustBeFalse] ins [of TrueOrFalse]
    show ?thesis using Some h assms(1,2) facts ok query_consistent [OF assms(3)]
      by (cases pv; cases "fst (computeTruth I q s)"; cases "fst (computeTruth I (Query_negateExpr q) s)")
        (auto simp: defs spec_None)
  qed
qed

lemma caching_truth_sound:
  assumes "cache_ok cache" "inv s" "query_ok q"
  shows "cache_ok (fst (snd (caching_truth lt I q (cache, s)))) \<and> inv (snd (snd (caching_truth lt I q (cache, s)))) \<and>
    truth_spec reliable safe q (fst (caching_truth lt I q (cache, s)))"
proof -
  note ins = cacheInsert_ok [OF assms(1,3), where lt = lt]
  note ok = ins [of MustBeTrue] ins [of MayBeFalse] ins [of TrueOrFalse]
  note defs = caching_truth_def answer_bind_def Let_def
  show ?thesis
  proof (cases "cacheLookup lt cache q")
    case None
    then show ?thesis using assms(1) truth [OF assms(2,3)] ok by (cases "fst (computeTruth I q s)") (auto simp: defs)
  next
    case (Some pv)
    then show ?thesis using cacheLookup_sound [OF assms(1,3) Some] assms(1,2) truth [OF assms(2,3)] ok query_consistent [OF assms(3)]
      by (cases pv; cases "fst (computeTruth I q s)") (auto simp: defs)
  qed
qed

lemma caching_solver_impl: "solver_impl (CachingSolver lt I) (\<lambda>(cache, s). cache_ok cache \<and> inv s) reliable safe"
proof (unfold_locales, erule safe_negate, erule (1) safe_subset, erule (1) safe_key)
  fix t :: "cache_map \<times> 's" and q :: Query
  obtain cache s where t: "t = (cache, s)" by (cases t)
  let ?inv = "\<lambda>(cache, s). cache_ok cache \<and> inv s"
  assume "?inv t"
  then have i: "cache_ok cache" "inv s" by (simp_all add: t)
  show "?inv (snd (computeTruth (CachingSolver lt I) q t)) \<and> truth_spec reliable safe q (fst (computeTruth (CachingSolver lt I) q t))"
    if "query_ok q"
    using caching_truth_sound [OF i that, of lt] by (simp add: t CachingSolver_def split_beta)
  show "?inv (snd (impl_computeValidity (CachingSolver lt I) q t)) \<and>
      validity_spec reliable safe q (fst (impl_computeValidity (CachingSolver lt I) q t))" if "query_ok q"
    using caching_validity_sound [OF i that, of lt] by (simp add: t CachingSolver_def split_beta)
  show "?inv (snd (computeValue (CachingSolver lt I) q t)) \<and> value_spec reliable safe q (fst (computeValue (CachingSolver lt I) q t))"
    if "sat_constraints (fst q)" "wt (snd q)"
    using feasible [OF i(2) that] i by (simp add: t CachingSolver_def split_beta)
  show "?inv (snd (computeInitialValues (CachingSolver lt I) q objects t)) \<and>
      initial_spec reliable safe q objects (fst (computeInitialValues (CachingSolver lt I) q objects t))"
    if "initial_query q" "covers objects q" for objects
    using initial [OF i(2) that] i by (simp add: t CachingSolver_def split_beta)
qed

end

end
