(* ===== verification/Klee_Evaluator.thy ===== *)
theory Klee_Evaluator
  imports Klee_Solver
begin

text \<open>
  Evaluation of expressions (\<open>lib/Expr/ExprEvaluator.cpp\<close>), assignments
  (\<open>include/klee/Expr/Assignment.h\<close>) and the arrays of an expression (\<open>lib/Expr/ExprUtil.cpp\<close>).
\<close>

section \<open>Evaluation\<close>

text \<open>
  The visitor \<open>ExprEvaluator\<close>: \<open>init\<close> is the virtual method \<open>getInitialValue\<close>, which gives the
  value of a byte of an array.  The index is passed to it as an \<open>unsigned\<close>.
\<close>

definition fold_post :: "expr \<Rightarrow> expr" where
  "fold_post e = (case e of NotOptimizedExpr src \<Rightarrow> src | _ \<Rightarrow> e)"

definition rebuild_if :: "expr \<Rightarrow> expr list \<Rightarrow> expr" where
  "rebuild_if e ks = (if ks = kids e then e else rebuild e ks)"

definition isRead :: "expr \<Rightarrow> bool" where
  "isRead e = (case e of ReadExpr a i \<Rightarrow> True | _ \<Rightarrow> False)"

definition isDiv :: "expr \<Rightarrow> bool" where
  "isDiv e = (case e of BinaryExpr k l r \<Rightarrow> isDivKind k | _ \<Rightarrow> False)"

text \<open>\<open>protectedDivOperation\<close>: a divisor that evaluates to zero is left as it is.\<close>

definition protect_divisor :: "expr \<Rightarrow> expr list \<Rightarrow> expr list" where
  "protect_divisor e ks =
     (case dc_const (ks ! 1) of Some c \<Rightarrow> (if isZero c then [ks ! 0, kids e ! 1] else ks) | None \<Rightarrow> ks)"

function evaluator_visit :: "(array \<Rightarrow> nat \<Rightarrow> expr) \<Rightarrow> expr \<Rightarrow> expr" where
  "evaluator_visit init e =
     (if isConstant e then e
      else if \<not> isRead e \<and> list_all isConstant (kids e) then rebuild e (kids e)
      else let ks = map (evaluator_visit init) (kids e)
           in case e of
                ReadExpr array i \<Rightarrow>
                  (case dc_const (ks ! 0) of
                     Some c \<Rightarrow> init array (nat (take_bit 32 (ce_value c)))
                   | None \<Rightarrow> rebuild_if e ks)
              | _ \<Rightarrow> (if isDiv e then rebuild_if e (protect_divisor e ks) else fold_post (rebuild_if e ks)))"
  by pat_completeness auto

termination
  by (relation "measure (\<lambda>(init, e). expr_weight e)") (auto simp: kids_weight)

declare evaluator_visit.simps [simp del]

lemma rebuild_if_refines: "wt e \<Longrightarrow> list_all2 (refines P) ks (kids e) \<Longrightarrow> refines P (rebuild_if e ks) e"
  by (simp add: rebuild_if_def refines_refl rebuild_refines)

lemma fold_post_refines: "refines P e e' \<Longrightarrow> refines P (fold_post e) e'"
  by (cases e) (auto simp: fold_post_def refines_def)

text \<open>
  When \<open>init\<close> gives a value that the byte has under every assignment in \<open>P\<close>, so does the evaluation
  of an expression.
\<close>

definition init_ok :: "(assignment \<Rightarrow> bool) \<Rightarrow> (array \<Rightarrow> nat \<Rightarrow> expr) \<Rightarrow> bool" where
  "init_ok P init \<longleftrightarrow> (\<forall>array i. i < 2 ^ 32 \<longrightarrow> refines P (init array i) (readByte array i))"

lemma readByte_eval: "i < 2 ^ 32 \<Longrightarrow> eval \<sigma> (readByte array i) = take_bit 8 (\<sigma> array i)"
  by (simp add: readByte_def take_bit_int_eq_self)

lemma init_read:
  assumes "init_ok P init" "refines P v i" "getWidth i = 32" "v = ConstantExpr c"
  shows "refines P (init array (nat (take_bit 32 (ce_value c)))) (ReadExpr array i)"
proof -
  let ?n = "nat (take_bit 32 (ce_value c))"
  have "ce_ok c" "ce_width c = 32" using assms(2-4) by (auto simp: refines_def)
  then have n: "take_bit 32 (ce_value c) = ce_value c" by (simp add: ce_ok_def take_bit_fits)
  have "?n < 2 ^ 32" using take_bit_int_less_exp [of 32 "ce_value c"] by simp
  then have "refines P (init array ?n) (readByte array ?n)" using assms(1) unfolding init_ok_def by blast
  moreover have "eval \<sigma> (readByte array ?n) = eval \<sigma> (ReadExpr array i)" if "P \<sigma>" for \<sigma>
  proof -
    have "eval \<sigma> i = ce_value c" using assms(2,4) that by (simp add: refines_def)
    then show ?thesis using readByte_eval [OF \<open>?n < 2 ^ 32\<close>] by (simp add: n)
  qed
  ultimately show ?thesis by (simp add: refines_def readByte_def)
qed

lemma evaluator_visit_refines:
  assumes "init_ok P init"
  shows "wt e \<Longrightarrow> refines P (evaluator_visit init e) e"
  using assms
proof (induction init e rule: evaluator_visit.induct)
  case (1 init e)
  show ?case
  proof (cases "isConstant e \<or> \<not> isRead e \<and> list_all isConstant (kids e)")
    case True
    moreover have "list_all2 (refines P) (kids e) (kids e)"
      using wt_kids [OF "1.prems"(1)] by (intro list.rel_refl_strong) (simp add: refines_refl)
    ultimately show ?thesis using "1.prems"(1)
      by (subst evaluator_visit.simps) (auto simp: refines_refl rebuild_refines)
  next
    case False
    then have n: "\<not> isConstant e" "\<not> (\<not> isRead e \<and> list_all isConstant (kids e))" by simp_all
    let ?ks = "map (evaluator_visit init) (kids e)"
    have ks: "list_all2 (refines P) ?ks (kids e)"
      unfolding list.rel_map using "1.IH" [OF n _ _ "1.prems"(2)] wt_kids [OF "1.prems"(1)] by (intro list.rel_refl_strong) blast
    note r = rebuild_if_refines [OF "1.prems"(1) ks]
    have v: "evaluator_visit init e =
        (case e of
           ReadExpr array i \<Rightarrow>
             (case dc_const (?ks ! 0) of Some c \<Rightarrow> init array (nat (take_bit 32 (ce_value c))) | None \<Rightarrow> rebuild_if e ?ks)
         | _ \<Rightarrow> (if isDiv e then rebuild_if e (protect_divisor e ?ks) else fold_post (rebuild_if e ?ks)))"
      using n by (subst evaluator_visit.simps) (simp only: Let_def if_False)
    show ?thesis
    proof (cases "isRead e")
      case True
      then obtain array i where e: "e = ReadExpr array i" by (cases e) (auto simp: isRead_def)
      have i: "refines P (evaluator_visit init i) i" using ks by (simp add: e)
      then show ?thesis using v r init_read [OF "1.prems"(2) i, of _ array] "1.prems"(1)
        by (auto simp: e dc_simps split: option.splits)
    next
      case nr: False
      have "refines P (rebuild_if e (protect_divisor e ?ks)) e" if d: "isDiv e"
      proof -
        obtain k x y where e: "e = BinaryExpr k x y" using d by (cases e) (auto simp: isDiv_def)
        have "list_all2 (refines P) (protect_divisor e ?ks) (kids e)"
          using ks "1.prems"(1) by (auto simp: e protect_divisor_def refines_refl split: option.split)
        then show ?thesis by (rule rebuild_if_refines [OF "1.prems"(1)])
      qed
      then have "refines P (if isDiv e then rebuild_if e (protect_divisor e ?ks) else fold_post (rebuild_if e ?ks)) e"
        using fold_post_refines [OF r] by simp
      then show ?thesis using v nr by (cases e) (simp_all add: isRead_def)
    qed
  qed
qed

text \<open>
  A zero divisor or a \<open>NotOptimizedExpr\<close> around a constant stops the evaluation of an expression,
  and an assertion of the cache fails; expressions without them evaluate to a constant.
\<close>

primrec foldable :: "expr \<Rightarrow> bool" where
  "foldable (ConstantExpr c) = True"
| "foldable (NotOptimizedExpr e) = False"
| "foldable (ReadExpr a i) = foldable i"
| "foldable (SelectExpr c t f) = (foldable c \<and> foldable t \<and> foldable f)"
| "foldable (ConcatExpr l r) = (foldable l \<and> foldable r)"
| "foldable (ExtractExpr e off w) = foldable e"
| "foldable (ZExtExpr e w) = foldable e"
| "foldable (SExtExpr e w) = foldable e"
| "foldable (NotExpr e) = foldable e"
| "foldable (BinaryExpr k l r) = (\<not> isDivKind k \<and> foldable l \<and> foldable r)"

definition foldable_query :: "Query \<Rightarrow> bool" where
  "foldable_query q \<longleftrightarrow> list_all foldable (fst q) \<and> foldable (snd q)"

lemma create_And_foldable: "foldable l \<Longrightarrow> foldable r \<Longrightarrow> foldable (create_And l r)"
  by (auto simp: create_And_def BCREATE_R_def AndExpr_createPartial_def split: option.split)

lemma create_Eq_foldable:
  "foldable l \<Longrightarrow> foldable r \<Longrightarrow> foldable (create_Eq l r)"
  "foldable r \<Longrightarrow> foldable (EqExpr_createPartialR cl r)"
proof (induction l r and cl r rule: create_Eq_EqExpr_createPartialR.induct)
  case (1 l r)
  then show ?case by (subst create_Eq.simps) (auto simp: EqExpr_create_def split: option.split)
next
  case (2 cl r)
  then show ?case
    by (subst EqExpr_createPartialR.simps)
      (auto simp: EqExpr_create_def dc_bin_Some dc_ext_Some Let_def intro!: create_And_foldable split: option.split)
qed

lemma foldable_negate [simp]: "foldable_query q \<Longrightarrow> foldable_query (Query_negateExpr q)" "foldable e \<Longrightarrow> foldable (createIsZero_expr e)"
  by (simp_all add: foldable_query_def Query_negateExpr_def withExpr_def createIsZero_expr_def create_Eq_foldable)

lemma foldable_key:
  "foldable_query q \<Longrightarrow> set cs \<subseteq> set (fst q) \<Longrightarrow> foldable_query (cs, snd q)"
  "foldable_query q \<Longrightarrow> set cs \<subseteq> insert (createIsZero_expr (snd q)) (set (fst q)) \<Longrightarrow> foldable_query (cs, ConstantExpr (CE_alloc 0 1))"
  using foldable_negate(2) [of "snd q"] by (auto simp: foldable_query_def list_all_iff)

lemma BCREATE_const: "isConstant l \<Longrightarrow> isConstant r \<Longrightarrow> getWidth l = getWidth r \<Longrightarrow> isConstant (BCREATE_R k pl pr c l r) \<and> isConstant (BCREATE k c' l r)"
  by (auto simp: isConstant_iff BCREATE_R_def BCREATE_def)

lemma create_bin_const:
  assumes "isConstant l" "isConstant r" "getWidth l = getWidth r"
  shows "isConstant (create_bin k l r)"
proof -
  have eq: "isConstant (create_Eq x y)" if "isConstant x" "isConstant y" "getWidth x = getWidth y" for x y
    using that by (subst create_Eq.simps) (auto simp: isConstant_iff)
  have w: "getWidth (create_Eq l r) = 1"
    using assms by (subst create_Eq.simps) (auto simp: isConstant_iff)
  show ?thesis
    using assms BCREATE_const [OF assms] BCREATE_const [OF assms(2,1)] eq [OF assms] eq [of "ConstantExpr (CE_alloc 0 1)" "create_Eq l r"] w
    by (cases k)
      (auto simp: isConstant_iff create_And_def create_Or_def create_Xor_def create_Mul_def create_Ne_def create_Add.simps create_Sub.simps)
qed

lemma rebuild_const:
  assumes "wt (with_kids e ks)" "list_all isConstant ks" "length ks = length (kids e)" "\<not> isRead e" "\<And>x. e \<noteq> NotOptimizedExpr x"
  shows "isConstant (rebuild e ks)"
proof (cases e)
  case (BinaryExpr k l r)
  then show ?thesis using assms by (auto simp: rebuild_def with_kids_def list_all_length intro!: create_bin_const)
next
  case (ConcatExpr l r)
  then obtain a b where "ks = [ConstantExpr a, ConstantExpr b]" using assms(2,3) by (auto simp: length_Suc_conv isConstant_iff)
  then show ?thesis using ConcatExpr by (simp add: rebuild_def create_Concat.simps [of "ConstantExpr a"])
next
  case (ExtractExpr x off w)
  then obtain a where "ks = [ConstantExpr a]" using assms(2,3) by (auto simp: length_Suc_conv isConstant_iff)
  then show ?thesis using ExtractExpr assms(1) by (simp add: rebuild_def with_kids_def create_Extract.simps [of "ConstantExpr a"])
next
  case (SelectExpr c t f)
  then obtain x y z where "ks = [ConstantExpr x, ConstantExpr y, ConstantExpr z]"
    using assms(2,3) by (auto simp: length_Suc_conv isConstant_iff)
  then show ?thesis using SelectExpr assms(1) by (simp add: rebuild_def with_kids_def create_Select_def)
next
  case (ZExtExpr x w)
  then obtain a where "ks = [ConstantExpr a]" using assms(2,3) by (auto simp: length_Suc_conv isConstant_iff)
  then show ?thesis using ZExtExpr assms(1) by (simp add: rebuild_def with_kids_def create_ZExt_def Let_def)
next
  case (SExtExpr x w)
  then obtain a where "ks = [ConstantExpr a]" using assms(2,3) by (auto simp: length_Suc_conv isConstant_iff)
  then show ?thesis using SExtExpr assms(1) by (simp add: rebuild_def with_kids_def create_SExt_def Let_def)
qed (use assms in \<open>auto simp: rebuild_def isRead_def list_all_length isConstant_iff create_Not_def\<close>)

lemma with_kids_self: "with_kids e (kids e) = e"
  by (cases e) (simp_all add: with_kids_def numeral_2_eq_2)

lemma wt_with_kids: "wt e \<Longrightarrow> list_all2 (refines P) ks (kids e) \<Longrightarrow> wt (with_kids e ks)"
  by (cases e) (auto simp: with_kids_def refines_def list_all2_Cons2)

lemma rebuild_if_const:
  assumes "wt e" "foldable e" "\<not> isRead e" "list_all2 (refines P) ks (kids e)" "list_all isConstant ks"
  shows "isConstant (rebuild e ks)"
  using assms(2-5) by (intro rebuild_const wt_with_kids [OF assms(1,4)]) (auto dest: list_all2_lengthD)

lemma fold_post_const: "isConstant e \<Longrightarrow> isConstant (fold_post e)"
  by (auto simp: isConstant_iff fold_post_def)

text \<open>The reads of an expression, and when the evaluation gives them a value.\<close>

primrec reads_of :: "expr \<Rightarrow> (array \<times> expr) set" where
  "reads_of (ConstantExpr c) = {}"
| "reads_of (NotOptimizedExpr e) = reads_of e"
| "reads_of (ReadExpr a i) = insert (a, i) (reads_of i)"
| "reads_of (SelectExpr c t f) = reads_of c \<union> reads_of t \<union> reads_of f"
| "reads_of (ConcatExpr l r) = reads_of l \<union> reads_of r"
| "reads_of (ExtractExpr e off w) = reads_of e"
| "reads_of (ZExtExpr e w) = reads_of e"
| "reads_of (SExtExpr e w) = reads_of e"
| "reads_of (NotExpr e) = reads_of e"
| "reads_of (BinaryExpr k l r) = reads_of l \<union> reads_of r"

definition gives :: "(array \<Rightarrow> nat \<Rightarrow> expr) \<Rightarrow> array \<times> expr \<Rightarrow> bool" where
  "gives init = (\<lambda>(array, i).
     (\<forall>n. isConstant (init array n)) \<or> (\<exists>c. i = ConstantExpr c \<and> isConstant (init array (nat (take_bit 32 (ce_value c))))))"

lemma reads_of_kids: "k \<in> set (kids e) \<Longrightarrow> reads_of k \<subseteq> reads_of e"
  by (cases e) auto

lemma evaluator_visit_constant [simp]: "evaluator_visit init (ConstantExpr c) = ConstantExpr c"
  by (subst evaluator_visit.simps) (simp add: isConstant_def)

lemma evaluator_visit_const:
  assumes "init_ok P init"
  shows "wt e \<Longrightarrow> foldable e \<Longrightarrow> \<forall>r \<in> reads_of e. gives init r \<Longrightarrow> isConstant (evaluator_visit init e)"
  using assms
proof (induction init e rule: evaluator_visit.induct)
  case (1 init e)
  note wt = "1.prems"(1) and init = "1.prems"(4)
  let ?ks = "map (evaluator_visit init) (kids e)"
  have fk: "foldable k" if "k \<in> set (kids e)" for k using "1.prems"(2) that by (cases e) auto
  have gk: "\<forall>r \<in> reads_of k. gives init r" if "k \<in> set (kids e)" for k using "1.prems"(3) reads_of_kids [OF that] by blast
  have self: "list_all2 (refines P) (kids e) (kids e)"
    using wt_kids [OF wt] by (intro list.rel_refl_strong) (simp add: refines_refl)
  consider (const) "isConstant e" | (folds) "\<not> isConstant e" "\<not> isRead e \<and> list_all isConstant (kids e)"
    | (visit) "\<not> isConstant e" "\<not> (\<not> isRead e \<and> list_all isConstant (kids e))" by blast
  then show ?case
  proof cases
    case const
    then show ?thesis by (subst evaluator_visit.simps) simp
  next
    case folds
    then show ?thesis using rebuild_if_const [OF "1.prems"(1,2) _ self]
      by (subst evaluator_visit.simps) simp
  next
    case visit
    have c: "list_all isConstant ?ks"
      using "1.IH" [OF visit _ _ _ _ init] wt_kids [OF wt] fk gk by (simp add: list_all_iff)
    have r: "list_all2 (refines P) ?ks (kids e)"
      unfolding list.rel_map using evaluator_visit_refines [OF init] wt_kids [OF wt] by (intro list.rel_refl_strong) blast
    show ?thesis
    proof (cases "isRead e")
      case True
      then obtain array i where e: "e = ReadExpr array i" by (cases e) (auto simp: isRead_def)
      obtain ci where ci: "evaluator_visit init i = ConstantExpr ci" using c by (auto simp: e isConstant_iff)
      moreover have "gives init (array, i)" using "1.prems"(3) by (simp add: e)
      ultimately have "isConstant (init array (nat (take_bit 32 (ce_value ci))))" by (auto simp: gives_def)
      then show ?thesis using visit ci
        by (subst evaluator_visit.simps) (simp add: e isConstant_def isRead_def Let_def)
    next
      case False
      then have "?ks \<noteq> kids e" using visit c by auto
      moreover have "\<not> isDiv e" using "1.prems"(2) by (cases e) (simp_all add: isDiv_def)
      moreover note fold_post_const [OF rebuild_if_const [OF "1.prems"(1,2) False r c]]
      ultimately show ?thesis using visit False
        by (subst evaluator_visit.simps) (cases e; simp add: Let_def rebuild_if_def isRead_def del: kids.simps)
    qed
  qed
qed

section \<open>Assignments\<close>

text \<open>
  With \<open>allowFreeValues\<close> (the flag \<open>free\<close>) a byte that is not bound stays a read; otherwise it is zero.
\<close>

definition Assignment_evaluate :: "bool \<Rightarrow> Assignment \<Rightarrow> array \<Rightarrow> nat \<Rightarrow> expr" where
  "Assignment_evaluate free a array index =
     (case map_of a array of
        Some bs \<Rightarrow>
          (if index < length bs then ConstantExpr (CE_alloc (uint (bs ! index)) 8)
           else if free then readByte array index else ConstantExpr (CE_alloc 0 8))
      | None \<Rightarrow> (if free then readByte array index else ConstantExpr (CE_alloc 0 8)))"

definition assignment_visit :: "bool \<Rightarrow> Assignment \<Rightarrow> expr \<Rightarrow> expr" where
  "assignment_visit free a = evaluator_visit (Assignment_evaluate free a)"

definition const_true :: "expr \<Rightarrow> bool" where
  "const_true e = (case dc_const e of Some c \<Rightarrow> isTrue c | None \<Rightarrow> False)"

definition const_false :: "expr \<Rightarrow> bool" where
  "const_false e = (case dc_const e of Some c \<Rightarrow> isFalse c | None \<Rightarrow> False)"

definition satisfies :: "Assignment \<Rightarrow> expr list \<Rightarrow> bool" where
  "satisfies a es = list_all (\<lambda>e. const_true (assignment_visit False a e)) es"

lemma assign_fn_fits [simp]: "take_bit 8 (assign_fn a array i) = assign_fn a array i"
proof -
  have "take_bit 8 (uint (b :: u8)) = uint b" for b using uint_lt2p [of b] by (simp add: take_bit_int_eq_self_iff)
  then show ?thesis by (auto simp: assign_fn_def split: option.split)
qed

lemma init_ok_assignment: "init_ok (\<lambda>\<sigma>. \<sigma> = assign_fn a) (Assignment_evaluate free a)"
proof -
  have "take_bit 8 (uint (b :: u8)) = uint b" for b using uint_lt2p [of b] by (simp add: take_bit_int_eq_self_iff)
  then have "eval (assign_fn a) (Assignment_evaluate free a array i) = assign_fn a array i" if "i < 2 ^ 32" for array i
    using that by (auto simp: Assignment_evaluate_def assign_fn_def readByte_eval split: option.split)
  moreover have "wt (Assignment_evaluate free a array i) \<and> getWidth (Assignment_evaluate free a array i) = 8" for array i
    by (auto simp: Assignment_evaluate_def readByte_def ce_ok_alloc split: option.split)
  ultimately show ?thesis by (simp add: init_ok_def refines_def readByte_eval) (simp add: readByte_def)
qed

lemmas assignment_visit_refines = evaluator_visit_refines [OF init_ok_assignment, folded assignment_visit_def]

lemma const_true_eval: "refines P e' e \<Longrightarrow> const_true e' \<Longrightarrow> P \<sigma> \<Longrightarrow> eval \<sigma> e \<noteq> 0"
  by (auto simp: const_true_def dc_simps refines_def isTrue_def split: option.splits)

lemma const_false_eval: "refines P e' e \<Longrightarrow> const_false e' \<Longrightarrow> P \<sigma> \<Longrightarrow> eval \<sigma> e = 0"
  by (auto simp: const_false_def dc_simps refines_def isFalse_def split: option.splits)

lemma satisfies_sat: "list_all wt es \<Longrightarrow> satisfies a es \<Longrightarrow> sat (assign_fn a) es"
  using const_true_eval [OF assignment_visit_refines [of _ a False]] by (auto simp: satisfies_def sat_def list_all_iff)

lemma assignment_visit_const: "wt e \<Longrightarrow> foldable e \<Longrightarrow> isConstant (assignment_visit False a e)"
  unfolding assignment_visit_def
  by (rule evaluator_visit_const [OF init_ok_assignment]) (auto simp: gives_def Assignment_evaluate_def isConstant_def split: option.split)

section \<open>The arrays of an expression\<close>

definition add_object :: "array \<Rightarrow> array list \<Rightarrow> array list" where
  "add_object a objects = (if a \<in> set objects then objects else objects @ [a])"

primrec find_objects :: "expr \<Rightarrow> array list \<Rightarrow> array list" where
  "find_objects (ConstantExpr c) objects = objects"
| "find_objects (NotOptimizedExpr e) objects = find_objects e objects"
| "find_objects (ReadExpr a i) objects = find_objects i (add_object a objects)"
| "find_objects (SelectExpr c t f) objects = find_objects f (find_objects t (find_objects c objects))"
| "find_objects (ConcatExpr l r) objects = find_objects r (find_objects l objects)"
| "find_objects (ExtractExpr e off w) objects = find_objects e objects"
| "find_objects (ZExtExpr e w) objects = find_objects e objects"
| "find_objects (SExtExpr e w) objects = find_objects e objects"
| "find_objects (NotExpr e) objects = find_objects e objects"
| "find_objects (BinaryExpr k l r) objects = find_objects r (find_objects l objects)"

definition findSymbolicObjects :: "expr list \<Rightarrow> array list" where
  "findSymbolicObjects es = fold find_objects es []"

lemma set_add_object [simp]: "set (add_object a objects) = insert a (set objects)"
  by (auto simp: add_object_def)

lemma find_objects_mono: "set objects \<subseteq> set (find_objects e objects)"
proof (induction e arbitrary: objects)
  case (ReadExpr a i)
  show ?case using ReadExpr [of "add_object a objects"] by simp
next
  case (SelectExpr c t f)
  show ?case unfolding find_objects.simps by (rule order_trans [OF order_trans [OF SelectExpr(1,2)] SelectExpr(3)])
next
  case (ConcatExpr l r)
  show ?case unfolding find_objects.simps by (rule order_trans [OF ConcatExpr])
next
  case (BinaryExpr k l r)
  show ?case unfolding find_objects.simps by (rule order_trans [OF BinaryExpr])
qed simp_all

lemma eval_objects:
  "(\<forall>a \<in> set (find_objects e objects). \<sigma> a = \<sigma>' a) \<Longrightarrow> eval \<sigma> e = eval \<sigma>' e"
proof (induction e arbitrary: objects)
  case (ReadExpr a i)
  then have "\<sigma> a = \<sigma>' a" using find_objects_mono [of "add_object a objects" i] by (auto simp: add_object_def split: if_splits)
  then show ?case using ReadExpr by auto
next
  case (SelectExpr c t f)
  let ?c = "find_objects c objects" and ?t = "find_objects t (find_objects c objects)"
  have "set ?c \<subseteq> set (find_objects f ?t)" "set ?t \<subseteq> set (find_objects f ?t)"
    using find_objects_mono [of ?c t] find_objects_mono [of ?t f] by blast+
  then have "eval \<sigma> c = eval \<sigma>' c" "eval \<sigma> t = eval \<sigma>' t" "eval \<sigma> f = eval \<sigma>' f"
    using SelectExpr.IH(1) [of objects] SelectExpr.IH(2) [of ?c] SelectExpr.IH(3) [of ?t] SelectExpr.prems by auto
  then show ?case by simp
next
  case (ConcatExpr l r)
  have "eval \<sigma> l = eval \<sigma>' l" "eval \<sigma> r = eval \<sigma>' r"
    using ConcatExpr find_objects_mono [of "find_objects l objects" r] by (force, force)
  then show ?case by simp
next
  case (BinaryExpr k l r)
  have "eval \<sigma> l = eval \<sigma>' l" "eval \<sigma> r = eval \<sigma>' r"
    using BinaryExpr find_objects_mono [of "find_objects l objects" r] by (force, force)
  then show ?case by simp
qed auto

lemma sat_objects:
  assumes "\<forall>a \<in> set (findSymbolicObjects es). \<sigma> a = \<sigma>' a"
  shows "sat \<sigma> es = sat \<sigma>' es"
proof -
  have mono: "set objects \<subseteq> set (fold find_objects es objects)" for objects es
    by (induction es arbitrary: objects) (use find_objects_mono in \<open>force+\<close>)
  have "\<forall>a \<in> set (fold find_objects es objects). \<sigma> a = \<sigma>' a \<Longrightarrow> \<forall>e \<in> set es. eval \<sigma> e = eval \<sigma>' e" for objects
  proof (induction es arbitrary: objects)
    case (Cons e es)
    then show ?case using mono [of "find_objects e objects" es] eval_objects [of e objects \<sigma> \<sigma>'] by (auto simp: subset_iff)
  qed simp
  then show ?thesis using assms unfolding findSymbolicObjects_def sat_def by metis
qed

end
