(* ===== verification/Klee_MapOfSets.thy ===== *)
theory Klee_MapOfSets
  imports Main
begin

text \<open>
  \<open>MapOfSets\<close> of \<open>include/klee/ADT/MapOfSets.h\<close>, the tree that the cache of counterexamples is
  kept in: a set is the path of its elements in increasing order.  \<open>std::set\<close> is the list of its
  elements in the order of the comparison \<open>lt\<close>, which is a parameter: KLEE orders expressions by
  hashes and addresses.
\<close>

section \<open>Ordered sets\<close>

definition strict_order :: "('k \<Rightarrow> 'k \<Rightarrow> bool) \<Rightarrow> bool" where
  "strict_order lt \<longleftrightarrow> (\<forall>x. \<not> lt x x) \<and> (\<forall>x y z. lt x y \<longrightarrow> lt y z \<longrightarrow> lt x z) \<and> (\<forall>x y. x \<noteq> y \<longrightarrow> lt x y \<or> lt y x)"

primrec set_insert :: "('k \<Rightarrow> 'k \<Rightarrow> bool) \<Rightarrow> 'k \<Rightarrow> 'k list \<Rightarrow> 'k list" where
  "set_insert lt x [] = [x]"
| "set_insert lt x (y # ys) = (if x = y then y # ys else if lt x y then x # y # ys else y # set_insert lt x ys)"

definition set_of :: "('k \<Rightarrow> 'k \<Rightarrow> bool) \<Rightarrow> 'k list \<Rightarrow> 'k list" where
  "set_of lt xs = fold (set_insert lt) xs []"

lemma set_set_insert [simp]: "set (set_insert lt x xs) = insert x (set xs)"
  by (induction xs) auto

lemma set_set_of [simp]: "set (set_of lt xs) = set xs"
proof -
  have "set (fold (set_insert lt) xs ys) = set xs \<union> set ys" for ys by (induction xs arbitrary: ys) auto
  then show ?thesis by (simp add: set_of_def)
qed

lemma strict_orderD:
  assumes "strict_order lt"
  shows "\<not> lt x x" "lt x y \<Longrightarrow> lt y z \<Longrightarrow> lt x z" "x \<noteq> y \<Longrightarrow> \<not> lt x y \<Longrightarrow> lt y x" "lt x y \<Longrightarrow> \<not> lt y x"
  using assms unfolding strict_order_def by blast+

lemma sorted_set_insert: "strict_order lt \<Longrightarrow> sorted_wrt lt xs \<Longrightarrow> sorted_wrt lt (set_insert lt x xs)"
  by (induction xs) (auto dest: strict_orderD)

lemma sorted_set_of: "strict_order lt \<Longrightarrow> sorted_wrt lt (set_of lt xs)"
proof -
  assume lt: "strict_order lt"
  then have "sorted_wrt lt ys \<Longrightarrow> sorted_wrt lt (fold (set_insert lt) xs ys)" for ys
    by (induction xs arbitrary: ys) (auto intro: sorted_set_insert)
  then show ?thesis by (simp add: set_of_def)
qed

section \<open>The tree\<close>

text \<open>The value of a node is present when \<open>isEndOfSet\<close> is set.\<close>

datatype ('k, 'v) Node = Node (node_value: "'v option") (children: "('k \<times> ('k, 'v) Node) list")

definition emptyNode :: "('k, 'v) Node" where
  "emptyNode = Node None []"

primrec child_put :: "('k \<Rightarrow> 'k \<Rightarrow> bool) \<Rightarrow> 'k \<Rightarrow> 'n \<Rightarrow> ('k \<times> 'n) list \<Rightarrow> ('k \<times> 'n) list" where
  "child_put lt k n [] = [(k, n)]"
| "child_put lt k n (c # cs) =
     (if k = fst c then (k, n) # cs else if lt k (fst c) then (k, n) # c # cs else c # child_put lt k n cs)"

primrec mos_insert :: "('k \<Rightarrow> 'k \<Rightarrow> bool) \<Rightarrow> 'k list \<Rightarrow> 'v \<Rightarrow> ('k, 'v) Node \<Rightarrow> ('k, 'v) Node" where
  "mos_insert lt [] v n = Node (Some v) (children n)"
| "mos_insert lt (x # xs) v n =
     Node (node_value n)
       (child_put lt x (mos_insert lt xs v (case map_of (children n) x of Some c \<Rightarrow> c | None \<Rightarrow> emptyNode)) (children n))"

primrec mos_lookup :: "'k list \<Rightarrow> ('k, 'v) Node \<Rightarrow> 'v option" where
  "mos_lookup [] n = node_value n"
| "mos_lookup (x # xs) n =
     (case map_of (children n) x of None \<Rightarrow> None | Some c \<Rightarrow> mos_lookup xs c)"

function findSubset :: "('k \<Rightarrow> 'k \<Rightarrow> bool) \<Rightarrow> ('v \<Rightarrow> bool) \<Rightarrow> ('k, 'v) Node \<Rightarrow> 'k list \<Rightarrow> 'v option" and
  findSubset_loop :: "('k \<Rightarrow> 'k \<Rightarrow> bool) \<Rightarrow> ('v \<Rightarrow> bool) \<Rightarrow> ('k \<times> ('k, 'v) Node) list \<Rightarrow> 'k list \<Rightarrow> 'v option"
where
  "findSubset lt p n its =
     (if (case node_value n of Some v \<Rightarrow> p v | None \<Rightarrow> False) then node_value n
      else if its = [] then None
      else findSubset_loop lt p (dropWhile (\<lambda>c. lt (fst c) (hd its)) (children n)) its)"
| "findSubset_loop lt p ks its =
     (if ks = [] \<or> its = [] then None
      else if lt (hd its) (fst (hd ks)) then findSubset_loop lt p ks (tl its)
      else if hd its = fst (hd ks) then
        (let res = findSubset lt p (snd (hd ks)) (tl its)
         in if res \<noteq> None \<or> tl its = [] then res else findSubset_loop lt p ks (tl its))
      else findSubset_loop lt p (tl ks) its)"
  by pat_completeness auto

lemma size_children: "size_list (\<lambda>c. size (snd c)) (children n) < size n"
proof (cases n)
  case (Node w cs)
  have "size_list (\<lambda>c. size (snd c)) cs \<le> size_list (size_prod (\<lambda>_. 0) size) cs"
    by (induction cs) auto
  then show ?thesis by (simp add: Node)
qed

lemma size_dropWhile: "size_list f (dropWhile P xs) \<le> size_list f xs"
  by (induction xs) auto

termination findSubset
  by (relation "measures [case_sum (\<lambda>(lt, p, n, its). size n) (\<lambda>(lt, p, ks, its). size_list (\<lambda>c. size (snd c)) ks),
      case_sum (\<lambda>(lt, p, n, its). length its) (\<lambda>(lt, p, ks, its). length its)]")
    (auto simp: neq_Nil_conv intro: le_less_trans [OF size_dropWhile size_children])

declare findSubset.simps [simp del] findSubset_loop.simps [simp del]

function findSuperset :: "('k \<Rightarrow> 'k \<Rightarrow> bool) \<Rightarrow> ('v \<Rightarrow> bool) \<Rightarrow> ('k, 'v) Node \<Rightarrow> 'k list \<Rightarrow> 'v option" and
  findSuperset_loop :: "('k \<Rightarrow> 'k \<Rightarrow> bool) \<Rightarrow> ('v \<Rightarrow> bool) \<Rightarrow> ('k \<times> ('k, 'v) Node) list \<Rightarrow> 'k list \<Rightarrow> 'v option"
where
  "findSuperset lt p n its =
     (if its = [] then
        (if (case node_value n of Some v \<Rightarrow> p v | None \<Rightarrow> False) then node_value n
         else findSuperset_loop lt p (children n) its)
      else
        (let res = findSuperset_loop lt p (children n) its
         in if res \<noteq> None then res
            else case dropWhile (\<lambda>c. lt (fst c) (hd its)) (children n) of
              [] \<Rightarrow> None
            | c # cs \<Rightarrow> (if hd its = fst c then findSuperset lt p (snd c) (tl its) else None)))"
| "findSuperset_loop lt p ks its =
     (case ks of
        [] \<Rightarrow> None
      | c # cs \<Rightarrow>
          (let res = findSuperset lt p (snd c) its
           in if res \<noteq> None then res else findSuperset_loop lt p cs its))"
  by pat_completeness auto

lemma dropWhile_Cons_size: "dropWhile P (children n) = c # cs \<Longrightarrow> size (snd c) < size n"
  using le_less_trans [OF size_dropWhile [of "\<lambda>c. size (snd c)" P] size_children [of n]] by simp

termination findSuperset
  by (relation "measure (case_sum (\<lambda>(lt, p, n, its). size n) (\<lambda>(lt, p, ks, its). size_list (\<lambda>c. size (snd c)) ks))")
    (auto simp: size_children intro: dropWhile_Cons_size)

declare findSuperset.simps [simp del] findSuperset_loop.simps [simp del]

section \<open>Lookup after insertion\<close>

lemma map_of_child_put:
  assumes "strict_order lt" "sorted_wrt lt (map fst cs)"
  shows "map_of (child_put lt k n cs) x = (if x = k then Some n else map_of cs x)"
  using assms(2)
proof (induction cs)
  case (Cons c cs)
  obtain k' n' where c: "c = (k', n')" by (cases c)
  have "map_of cs k = None" if "lt k k'"
    using Cons.prems that strict_orderD(4) [OF assms(1)] by (auto simp: c map_of_eq_None_iff)
  then show ?case using Cons c by auto
qed simp

lemma set_child_put: "set (child_put lt k n cs) \<subseteq> insert (k, n) (set cs)"
  by (induction cs) auto

lemma sorted_child_put:
  assumes "strict_order lt"
  shows "sorted_wrt lt (map fst cs) \<Longrightarrow> sorted_wrt lt (map fst (child_put lt k n cs))"
proof (induction cs)
  case (Cons c cs)
  have "\<forall>y \<in> fst ` set (child_put lt k n cs). lt (fst c) y" if "k \<noteq> fst c" "\<not> lt k (fst c)"
    using Cons.prems set_child_put [of lt k n cs] strict_orderD(3) [OF assms that(1)] that(2) by force
  then show ?case using Cons strict_orderD(2) [OF assms] by auto
qed simp

inductive mos_wf :: "('k \<Rightarrow> 'k \<Rightarrow> bool) \<Rightarrow> ('k, 'v) Node \<Rightarrow> bool" for lt where
  "sorted_wrt lt (map fst cs) \<Longrightarrow> (\<And>c. c \<in> set cs \<Longrightarrow> mos_wf lt (snd c)) \<Longrightarrow> mos_wf lt (Node w cs)"

lemma mos_wfD: "mos_wf lt n \<Longrightarrow> sorted_wrt lt (map fst (children n))" "mos_wf lt n \<Longrightarrow> c \<in> set (children n) \<Longrightarrow> mos_wf lt (snd c)"
  by (erule mos_wf.cases, simp)+

lemma mos_wf_empty [simp]: "mos_wf lt emptyNode"
  unfolding emptyNode_def by (rule mos_wf.intros) auto

lemma mos_lookup_empty [simp]: "mos_lookup xs emptyNode = None"
  by (cases xs) (simp_all add: emptyNode_def)

lemma mos_wf_insert: "strict_order lt \<Longrightarrow> mos_wf lt n \<Longrightarrow> mos_wf lt (mos_insert lt xs v n)"
proof (induction xs arbitrary: n)
  case Nil
  then show ?case by (auto intro: mos_wf.intros dest: mos_wfD)
next
  case (Cons x xs)
  let ?c = "case map_of (children n) x of Some c \<Rightarrow> c | None \<Rightarrow> emptyNode"
  have "mos_wf lt ?c" using mos_wfD(2) [OF Cons.prems(2)] by (force split: option.split dest: map_of_SomeD)
  from Cons.IH [OF Cons.prems(1) this] show ?case
    using sorted_child_put [OF Cons.prems(1)] mos_wfD [OF Cons.prems(2)] set_child_put [of lt x _ "children n"]
    by (fastforce intro!: mos_wf.intros)
qed

lemma mos_lookup_insert:
  assumes "strict_order lt"
  shows "mos_wf lt n \<Longrightarrow> mos_lookup ys (mos_insert lt xs v n) = (if ys = xs then Some v else mos_lookup ys n)"
proof (induction xs arbitrary: ys n)
  case Nil
  then show ?case by (cases ys) simp_all
next
  case (Cons x xs)
  let ?c = "case map_of (children n) x of Some c \<Rightarrow> c | None \<Rightarrow> emptyNode"
  have "mos_wf lt ?c" using mos_wfD(2) [OF Cons.prems] by (force split: option.split dest: map_of_SomeD)
  note IH = Cons.IH [OF this]
  show ?case
    by (cases ys) (auto simp: map_of_child_put [OF assms mos_wfD(1) [OF Cons.prems]] IH split: option.split)
qed

section \<open>The search for a subset and for a superset\<close>

lemma sorted_distinct: "strict_order lt \<Longrightarrow> sorted_wrt lt xs \<Longrightarrow> distinct xs"
  by (induction xs) (auto dest: strict_orderD)

lemma sorted_dropWhile: "sorted_wrt lt (map fst cs) \<Longrightarrow> sorted_wrt lt (map fst (dropWhile P cs))"
  by (induction cs) auto

lemma map_of_sorted: "strict_order lt \<Longrightarrow> sorted_wrt lt (map fst cs) \<Longrightarrow> c \<in> set cs \<Longrightarrow> map_of cs (fst c) = Some (snd c)"
  by (rule map_of_is_SomeI) (auto dest: sorted_distinct)

lemma in_dropWhile: "x \<in> set xs \<Longrightarrow> \<not> P x \<Longrightarrow> x \<in> set (dropWhile P xs)"
  by (induction xs) auto

lemma findSubset_sound:
  assumes "strict_order lt"
  shows "findSubset lt p n its = Some v \<Longrightarrow> mos_wf lt n \<Longrightarrow> \<exists>key. set key \<subseteq> set its \<and> mos_lookup key n = Some v \<and> p v"
    "findSubset_loop lt p ks its = Some v \<Longrightarrow> sorted_wrt lt (map fst ks) \<Longrightarrow> \<forall>c \<in> set ks. mos_wf lt (snd c) \<Longrightarrow>
      \<exists>c \<in> set ks. \<exists>key. fst c \<in> set its \<and> set key \<subseteq> set its \<and> mos_lookup key (snd c) = Some v \<and> p v"
  using assms
proof (induction lt p n its and lt p ks its rule: findSubset_findSubset_loop.induct)
  case (1 lt p n its)
  show ?case
  proof (cases "case node_value n of Some v \<Rightarrow> p v | None \<Rightarrow> False")
    case True
    then have "mos_lookup [] n = Some v \<and> p v" using "1.prems"(1) by (simp add: findSubset.simps split: option.splits)
    then show ?thesis by (intro exI [of _ "[]"]) simp
  next
    case False
    let ?ks = "dropWhile (\<lambda>c. lt (fst c) (hd its)) (children n)"
    have i: "its \<noteq> []" and l: "findSubset_loop lt p ?ks its = Some v"
      using False "1.prems"(1) by (simp_all add: findSubset.simps split: if_splits)
    have w: "sorted_wrt lt (map fst (children n))" by (rule mos_wfD(1) [OF "1.prems"(2)])
    have d: "\<forall>c \<in> set ?ks. mos_wf lt (snd c)" using mos_wfD(2) [OF "1.prems"(2)] by (blast dest: set_dropWhileD)
    from "1.IH" [OF False i l sorted_dropWhile [OF w] d "1.prems"(3)]
    obtain c key where c: "c \<in> set ?ks" "fst c \<in> set its" "set key \<subseteq> set its" "mos_lookup key (snd c) = Some v" "p v"
      by blast
    then have "mos_lookup (fst c # key) n = Some v"
      using map_of_sorted [OF "1.prems"(3) w, of c] by (auto dest: set_dropWhileD)
    then show ?thesis using c by (intro exI [of _ "fst c # key"]) simp
  qed
next
  case (2 lt p ks its)
  show ?case
  proof (cases "ks = [] \<or> its = []")
    case False
    then obtain c cs i js where ks: "ks = c # cs" and its: "its = i # js" by (cases ks; cases its) auto
    note prems = "2.prems"(1) [unfolded findSubset_loop.simps [of lt p ks its]]
    show ?thesis
    proof (cases "lt i (fst c)")
      case True
      then show ?thesis using "2.IH"(1) [OF False _ _ "2.prems"(2,3)] prems "2.prems"(4) by (auto simp: ks its)
    next
      case n: False
      show ?thesis
      proof (cases "i = fst c")
        case True
        let ?res = "findSubset lt p (snd c) js"
        show ?thesis
        proof (cases "?res \<noteq> None \<or> js = []")
          case r: True
          then have "?res = Some v" using prems n True by (simp add: ks its Let_def split: if_splits)
          with "2.IH"(2) [OF False] n True "2.prems"(3,4) show ?thesis by (auto simp: ks its)
        next
          case r: False
          then have "findSubset_loop lt p ks js = Some v" using prems n True by (simp add: ks its Let_def)
          with "2.IH"(3) [OF False _ _ refl] n True r "2.prems"(2-4)
          have "\<exists>c \<in> set ks. \<exists>key. fst c \<in> set js \<and> set key \<subseteq> set js \<and> mos_lookup key (snd c) = Some v \<and> p v"
            by (simp add: ks its)
          then show ?thesis unfolding its by (meson list.set_intros(2) set_subset_Cons subset_trans)
        qed
      next
        case ne: False
        then have "findSubset_loop lt p cs its = Some v" using prems n by (simp add: ks its)
        with "2.IH"(4) [OF False] n ne "2.prems"(2-4) show ?thesis by (auto simp: ks its)
      qed
    qed
  qed (use "2.prems"(1) in \<open>simp add: findSubset_loop.simps\<close>)
qed

lemma findSubset_complete:
  assumes "strict_order lt"
  shows "mos_wf lt n \<Longrightarrow> sorted_wrt lt its \<Longrightarrow> sorted_wrt lt key \<Longrightarrow> set key \<subseteq> set its \<Longrightarrow> mos_lookup key n = Some v \<Longrightarrow> p v \<Longrightarrow>
      findSubset lt p n its \<noteq> None"
    "sorted_wrt lt (map fst ks) \<Longrightarrow> \<forall>c \<in> set ks. mos_wf lt (snd c) \<Longrightarrow> sorted_wrt lt its \<Longrightarrow> sorted_wrt lt (fst c # key) \<Longrightarrow>
      c \<in> set ks \<Longrightarrow> fst c \<in> set its \<Longrightarrow> set key \<subseteq> set its \<Longrightarrow> mos_lookup key (snd c) = Some v \<Longrightarrow> p v \<Longrightarrow>
      findSubset_loop lt p ks its \<noteq> None"
  using assms
proof (induction lt p n its and lt p ks its arbitrary: key and key c rule: findSubset_findSubset_loop.induct)
  case (1 lt p n its)
  show ?case
  proof (cases "case node_value n of Some v \<Rightarrow> p v | None \<Rightarrow> False")
    case True
    then show ?thesis by (auto simp: findSubset.simps split: option.splits)
  next
    case False
    then obtain x xs where key: "key = x # xs" using "1.prems"(5,6) by (cases key) (auto split: option.splits)
    then obtain c where c: "map_of (children n) x = Some c" "mos_lookup xs c = Some v"
      using "1.prems"(5) by (auto split: option.splits)
    have i: "its \<noteq> []" "x \<in> set its" using "1.prems"(4) by (auto simp: key)
    let ?ks = "dropWhile (\<lambda>c. lt (fst c) (hd its)) (children n)"
    note w = mos_wfD [OF "1.prems"(1)]
    have "\<not> lt x (hd its)" using i "1.prems"(2) strict_orderD(1,4) [OF "1.prems"(7)] by (cases its) auto
    then have "(x, c) \<in> set ?ks"
      using map_of_SomeD [OF c(1)] by (intro in_dropWhile) simp_all
    moreover have "\<forall>c \<in> set ?ks. mos_wf lt (snd c)" using w(2) by (blast dest: set_dropWhileD)
    ultimately have "findSubset_loop lt p ?ks its \<noteq> None"
      using "1.IH" [OF False i(1) sorted_dropWhile [OF w(1)], of "(x, c)" xs] "1.prems"(2-4,6,7) c(2) i(2)
      by (simp add: key)
    then show ?thesis using False i(1) by (subst findSubset.simps) simp
  qed
next
  case (2 lt p ks its)
  obtain d cs where ks: "ks = d # cs" using "2.prems"(5) by (cases ks) auto
  obtain i js where its: "its = i # js" using "2.prems"(6) by (cases its) auto
  have False: "\<not> (ks = [] \<or> its = [])" by (simp add: ks its)
  note so = strict_orderD [OF "2.prems"(10)]
  note s = "2.prems"(3,4) [unfolded its, simplified]
  have ge: "c = d \<or> lt (fst d) (fst c)" using "2.prems"(1,5) by (auto simp: ks)
  have "lt i y" if "y \<in> set key" for y
    using "2.prems"(4,6) s(1) that so(2) [of i "fst c" y] by (auto simp: its)
  then have rest: "set key \<subseteq> set js" using "2.prems"(7) so(1) by (auto simp: its)
  show ?case
  proof (cases "lt i (fst d)")
    case True
    then have "fst c \<noteq> i" using ge so(4) by blast
    then have "fst c \<in> set js" using "2.prems"(6) by (simp add: its)
    then have "findSubset_loop lt p ks js \<noteq> None"
      using "2.IH"(1) [OF False _ "2.prems"(1,2) _ "2.prems"(4,5)] True s rest "2.prems"(8-10) by (simp add: ks its)
    then show ?thesis using True by (subst findSubset_loop.simps) (simp add: ks its)
  next
    case n: False
    show ?thesis
    proof (cases "i = fst d")
      case True
      show ?thesis
      proof (cases "c = d")
        case cd: True
        have "findSubset lt p (snd d) js \<noteq> None"
          using "2.IH"(2) [OF False, of key] n True cd s rest "2.prems"(2,4,8-10) by (simp add: ks its)
        then show ?thesis using n True by (subst findSubset_loop.simps) (simp add: ks its)
      next
        case cd: False
        then have "fst c \<in> set js" using ge True so(1) [of i] "2.prems"(6) by (auto simp: its)
        moreover from this have j: "js \<noteq> []" by auto
        ultimately have "findSubset lt p (snd d) js = None \<Longrightarrow> findSubset_loop lt p ks js \<noteq> None"
          using "2.IH"(3) [OF False _ _ refl _ "2.prems"(1,2) _ "2.prems"(4,5)] n True s rest "2.prems"(8-10) by (auto simp: ks its)
        then show ?thesis using n True j by (subst findSubset_loop.simps) (auto simp: ks its Let_def)
      qed
    next
      case ne: False
      then have "lt (fst d) i" using n so(3) by blast
      then have "c \<noteq> d" using "2.prems"(6) s(1) so(1) [of i] so(4) [of "fst d" i] by (auto simp: its)
      then have "findSubset_loop lt p cs its \<noteq> None"
        using "2.IH"(4) [OF False, of c key] n ne "2.prems" by (simp add: ks its)
      then show ?thesis using n ne by (subst findSubset_loop.simps) (simp add: ks its)
    qed
  qed
qed

lemma findSuperset_sound:
  assumes "strict_order lt"
  shows "findSuperset lt p n its = Some v \<Longrightarrow> mos_wf lt n \<Longrightarrow> \<exists>key. set its \<subseteq> set key \<and> mos_lookup key n = Some v \<and> p v"
    "findSuperset_loop lt p ks its = Some v \<Longrightarrow> sorted_wrt lt (map fst ks) \<Longrightarrow> \<forall>c \<in> set ks. mos_wf lt (snd c) \<Longrightarrow>
      \<exists>c \<in> set ks. \<exists>key. set its \<subseteq> set key \<and> mos_lookup key (snd c) = Some v \<and> p v"
  using assms
proof (induction lt p n its and lt p ks its rule: findSuperset_findSuperset_loop.induct)
  case (1 lt p n its)
  note w = mos_wfD [OF "1.prems"(2)]
  have down: "\<exists>key. set its \<subseteq> set key \<and> mos_lookup key n = Some v \<and> p v"
    if "c \<in> set (children n)" "set its \<subseteq> insert (fst c) (set key)" "mos_lookup key (snd c) = Some v" "p v" for c key
    using that map_of_sorted [OF "1.prems"(3) w(1) that(1)] by (intro exI [of _ "fst c # key"]) simp
  have loop: "\<exists>key. set its \<subseteq> set key \<and> mos_lookup key n = Some v \<and> p v"
    if "\<exists>c \<in> set (children n). \<exists>key. set its \<subseteq> set key \<and> mos_lookup key (snd c) = Some v \<and> p v"
    using that down by blast
  consider (here) "its = []" "case node_value n of Some v \<Rightarrow> p v | None \<Rightarrow> False"
    | (deeper) "its = []" "\<not> (case node_value n of Some v \<Rightarrow> p v | None \<Rightarrow> False)"
    | (some) "its \<noteq> []" by blast
  then show ?case
  proof cases
    case here
    then have "mos_lookup [] n = Some v \<and> p v" using "1.prems"(1) by (simp add: findSuperset.simps split: option.splits)
    then show ?thesis using here by (intro exI [of _ "[]"]) simp
  next
    case deeper
    then have "findSuperset_loop lt p (children n) its = Some v" using "1.prems"(1) by (simp add: findSuperset.simps)
    from "1.IH"(1) [OF deeper this w(1) _ "1.prems"(3)] w(2) show ?thesis by (intro loop) blast
  next
    case some
    show ?thesis
    proof (cases "findSuperset_loop lt p (children n) its = None")
      case True
      then obtain c cs where d: "dropWhile (\<lambda>c. lt (fst c) (hd its)) (children n) = c # cs" "hd its = fst c"
          "findSuperset lt p (snd c) (tl its) = Some v"
        using "1.prems"(1) some by (auto simp: findSuperset.simps [of lt p n its] split: list.splits if_splits)
      have c: "c \<in> set (children n)" using d(1) by (metis list.set_intros(1) set_dropWhileD)
      from "1.IH"(3) [OF some refl _ d(1,2,3)] True w(2) [OF c] "1.prems"(3)
      obtain key where "set (tl its) \<subseteq> set key" "mos_lookup key (snd c) = Some v" "p v" by auto
      then show ?thesis using some d(2) by (intro down [OF c, of key]) (cases its; auto)
    next
      case False
      then have "findSuperset_loop lt p (children n) its = Some v" using "1.prems"(1) some by (simp add: findSuperset.simps)
      from "1.IH"(2) [OF some this w(1) _ "1.prems"(3)] w(2) show ?thesis by (intro loop) blast
    qed
  qed
next
  case (2 lt p ks its)
  then show ?case
    by (cases ks; subst (asm) (4) findSuperset_loop.simps) (auto simp: Let_def split: if_splits)
qed

end
