(* ===== verification/Klee_CexCache.thy ===== *)
theory Klee_CexCache
  imports Klee_Evaluator Klee_MapOfSets
begin

text \<open>
  The cache of counterexamples (\<open>lib/Solver/CexCachingSolver.cpp\<close>), for every choice of its
  options but the debugging one.
\<close>

section \<open>The cache of counterexamples\<close>

text \<open>
  The options of the cache and the order of its table of assignments, which compares the addresses
  of arrays.
\<close>

record cex_options =
  CexCacheTryAll :: bool
  CexCacheSuperSet :: bool
  CexCacheExperimental :: bool
  AssignmentLessThan :: "Assignment \<Rightarrow> Assignment \<Rightarrow> bool"

record CexState =
  cex_cache :: "(expr, Assignment option) Node"
  assignmentsTable :: "Assignment list"

definition newCexState :: CexState where
  "newCexState = \<lparr>cex_cache = emptyNode, assignmentsTable = []\<rparr>"

definition NullOrSatisfyingAssignment :: "expr list \<Rightarrow> Assignment option \<Rightarrow> bool" where
  "NullOrSatisfyingAssignment key a = (case a of None \<Rightarrow> True | Some b \<Rightarrow> satisfies b key)"

definition searchForAssignment :: "cex_options \<Rightarrow> (expr \<Rightarrow> expr \<Rightarrow> bool) \<Rightarrow> CexState \<Rightarrow> expr list \<Rightarrow> Assignment option option" where
  "searchForAssignment opts lt st key =
     (case mos_lookup key (cex_cache st) of
        Some result \<Rightarrow> Some result
      | None \<Rightarrow>
          (let superset = (if CexCacheSuperSet opts then findSuperset lt (\<lambda>a. a \<noteq> None) (cex_cache st) key else None)
           in if superset \<noteq> None then superset
              else if CexCacheTryAll opts then
                (case findSubset lt (\<lambda>a. a = None) (cex_cache st) key of
                   Some result \<Rightarrow> Some result
                 | None \<Rightarrow> map_option Some (find (\<lambda>a. satisfies a key) (assignmentsTable st)))
              else findSubset lt (NullOrSatisfyingAssignment key) (cex_cache st) key))"

definition lookupAssignment :: "cex_options \<Rightarrow> (expr \<Rightarrow> expr \<Rightarrow> bool) \<Rightarrow> CexState \<Rightarrow> Query \<Rightarrow> expr list \<times> Assignment option option" where
  "lookupAssignment opts lt st q =
     (let key = set_of lt (fst q); neg = createIsZero_expr (snd q)
      in case dc_const neg of
           Some ce \<Rightarrow> (key, if isFalse ce then Some None else searchForAssignment opts lt st key)
         | None \<Rightarrow> (let key' = set_insert lt neg key in (key', searchForAssignment opts lt st key')))"

definition cex_insert :: "cex_options \<Rightarrow> (expr \<Rightarrow> expr \<Rightarrow> bool) \<Rightarrow> expr list \<Rightarrow> Assignment option \<Rightarrow> CexState \<Rightarrow> CexState" where
  "cex_insert opts lt key binding st =
     st\<lparr>cex_cache := mos_insert lt key binding (cex_cache st),
        assignmentsTable := (case binding of
           Some b \<Rightarrow> set_insert (AssignmentLessThan opts) b (assignmentsTable st)
         | None \<Rightarrow> assignmentsTable st)\<rparr>"

definition cex_getAssignment :: "cex_options \<Rightarrow> (expr \<Rightarrow> expr \<Rightarrow> bool) \<Rightarrow> 's SolverImpl \<Rightarrow> Query \<Rightarrow> CexState \<times> 's \<Rightarrow>
    Assignment option answer \<times> CexState \<times> 's" where
  "cex_getAssignment opts lt I q = (\<lambda>(st, s).
     case lookupAssignment opts lt st q of
       (key, Some result) \<Rightarrow> (Answer result, st, s)
     | (key, None) \<Rightarrow>
         (let objects = findSymbolicObjects key
          in answer_bind (computeInitialValues I q objects s)
               (\<lambda>values s'. let binding = map_option (zip objects) values
                            in (Answer binding, cex_insert opts lt key binding st, s'))
               (\<lambda>s'. (st, s'))))"

definition cex_validity :: "cex_options \<Rightarrow> (expr \<Rightarrow> expr \<Rightarrow> bool) \<Rightarrow> 's SolverImpl \<Rightarrow> Query \<Rightarrow> CexState \<times> 's \<Rightarrow>
    Validity answer \<times> CexState \<times> 's" where
  "cex_validity opts lt I q t =
     answer_bind (cex_getAssignment opts lt I (withFalse q) t)
       (\<lambda>a t'. case a of
          None \<Rightarrow> (Aborted, t')
        | Some b \<Rightarrow>
            (case dc_const (assignment_visit False b (snd q)) of
               None \<Rightarrow> (Aborted, t')
             | Some c \<Rightarrow>
                 (if isTrue c then
                    answer_bind (cex_getAssignment opts lt I q t')
                      (\<lambda>a' t''. (Answer (if a' = None then V_True else V_Unknown), t'')) (\<lambda>t''. t'')
                  else
                    answer_bind (cex_getAssignment opts lt I (Query_negateExpr q) t')
                      (\<lambda>a' t''. (Answer (if a' = None then V_False else V_Unknown), t'')) (\<lambda>t''. t'')))) (\<lambda>t'. t')"

definition cex_truth :: "cex_options \<Rightarrow> (expr \<Rightarrow> expr \<Rightarrow> bool) \<Rightarrow> 's SolverImpl \<Rightarrow> Query \<Rightarrow> CexState \<times> 's \<Rightarrow>
    bool answer \<times> CexState \<times> 's" where
  "cex_truth opts lt I q t =
     (if CexCacheExperimental opts \<and> snd (lookupAssignment opts lt (fst t) (Query_negateExpr q)) = Some None then (Failed, t)
      else answer_bind (cex_getAssignment opts lt I q t) (\<lambda>a t'. (Answer (a = None), t')) (\<lambda>t'. t'))"

definition cex_value :: "cex_options \<Rightarrow> (expr \<Rightarrow> expr \<Rightarrow> bool) \<Rightarrow> 's SolverImpl \<Rightarrow> Query \<Rightarrow> CexState \<times> 's \<Rightarrow>
    expr answer \<times> CexState \<times> 's" where
  "cex_value opts lt I q t =
     answer_bind (cex_getAssignment opts lt I (withFalse q) t)
       (\<lambda>a t'. case a of
          None \<Rightarrow> (Aborted, t')
        | Some b \<Rightarrow> (if isConstant (assignment_visit False b (snd q)) then (Answer (assignment_visit False b (snd q)), t') else (Aborted, t'))) (\<lambda>t'. t')"

definition binding_values :: "Assignment \<Rightarrow> array list \<Rightarrow> u8 list list" where
  "binding_values a objects = map (\<lambda>os. case map_of a os of Some bs \<Rightarrow> bs | None \<Rightarrow> replicate (arr_size os) 0) objects"

definition cex_initial :: "cex_options \<Rightarrow> (expr \<Rightarrow> expr \<Rightarrow> bool) \<Rightarrow> 's SolverImpl \<Rightarrow> Query \<Rightarrow> array list \<Rightarrow> CexState \<times> 's \<Rightarrow>
    u8 list list option answer \<times> CexState \<times> 's" where
  "cex_initial opts lt I q objects t =
     answer_bind (cex_getAssignment opts lt I q t)
       (\<lambda>a t'. (Answer (map_option (\<lambda>b. binding_values b objects) a), t')) (\<lambda>t'. t')"

definition CexCachingSolver :: "cex_options \<Rightarrow> (expr \<Rightarrow> expr \<Rightarrow> bool) \<Rightarrow> 's SolverImpl \<Rightarrow> (CexState \<times> 's) SolverImpl" where
  "CexCachingSolver opts lt I =
     \<lparr>computeTruth = cex_truth opts lt I, impl_computeValidity = cex_validity opts lt I,
      computeValue = cex_value opts lt I, computeInitialValues = cex_initial opts lt I\<rparr>"

section \<open>What the cache keeps\<close>

definition sized :: "Assignment \<Rightarrow> bool" where
  "sized b \<longleftrightarrow> (\<forall>(a, bs) \<in> set b. length bs = arr_size a)"

definition cex_entry :: "expr list \<Rightarrow> Assignment option \<Rightarrow> bool" where
  "cex_entry key v \<longleftrightarrow>
     list_all bool_expr key \<and> (case v of None \<Rightarrow> \<forall>\<sigma>. \<not> sat \<sigma> key | Some b \<Rightarrow> sized b \<and> sat (assign_fn b) key)"

definition cex_ok :: "(expr \<Rightarrow> expr \<Rightarrow> bool) \<Rightarrow> CexState \<Rightarrow> bool" where
  "cex_ok lt st \<longleftrightarrow>
     mos_wf lt (cex_cache st) \<and> (\<forall>key v. mos_lookup key (cex_cache st) = Some v \<longrightarrow> cex_entry key v) \<and>
     (\<forall>b \<in> set (assignmentsTable st). sized b)"

lemma new_cex_ok [simp]: "cex_ok lt newCexState"
  by (simp add: cex_ok_def newCexState_def)

lemma sat_mono: "set xs \<subseteq> set ys \<Longrightarrow> sat \<sigma> ys \<Longrightarrow> sat \<sigma> xs"
  by (auto simp: sat_def)

lemma bool_expr_wt: "list_all bool_expr es \<Longrightarrow> list_all wt es"
  by (auto simp: list_all_iff bool_expr_def)

lemma dc_const_None_iff: "dc_const e = None \<longleftrightarrow> \<not> isConstant e"
  by (cases e) (simp_all add: isConstant_def dc_const_def)

lemma satisfies_entry: "list_all bool_expr key \<Longrightarrow> sized b \<Longrightarrow> satisfies b key \<Longrightarrow> cex_entry key (Some b)"
  by (simp add: cex_entry_def satisfies_sat bool_expr_wt)

lemma cex_insert_ok:
  assumes "strict_order lt" "cex_ok lt st" "cex_entry key v"
  shows "cex_ok lt (cex_insert opts lt key v st)"
  using assms by (auto simp: cex_ok_def cex_insert_def mos_wf_insert mos_lookup_insert cex_entry_def split: option.splits if_splits)

lemma searchForAssignment_sound:
  assumes lt: "strict_order lt" and ok: "cex_ok lt st" and key: "list_all bool_expr key"
    and found: "searchForAssignment opts lt st key = Some v"
  shows "cex_entry key v"
proof -
  have wf: "mos_wf lt (cex_cache st)" and entry: "\<And>k v. mos_lookup k (cex_cache st) = Some v \<Longrightarrow> cex_entry k v"
    and table: "\<And>b. b \<in> set (assignmentsTable st) \<Longrightarrow> sized b" using ok unfolding cex_ok_def by blast+
  have sup: "cex_entry key w" if w: "findSuperset lt (\<lambda>a. a \<noteq> None) (cex_cache st) key = Some w" for w
  proof -
    obtain k b where "set key \<subseteq> set k" "mos_lookup k (cex_cache st) = Some (Some b)" "w = Some b"
      using findSuperset_sound(1) [OF lt w wf] by auto
    then show ?thesis using entry [of k "Some b"] key sat_mono [of key k] by (simp add: cex_entry_def)
  qed
  have sub: "cex_entry key w" if p: "findSubset lt p (cex_cache st) key = Some w" "p w \<Longrightarrow> NullOrSatisfyingAssignment key w" for p w
  proof -
    obtain k where k: "set k \<subseteq> set key" "mos_lookup k (cex_cache st) = Some w" "p w"
      using findSubset_sound(1) [OF lt p(1) wf] by blast
    then have "cex_entry k w" "NullOrSatisfyingAssignment key w" using entry p(2) by blast+
    then show ?thesis using key k(1) satisfies_entry [OF key] sat_mono [OF k(1)]
      by (auto simp: cex_entry_def NullOrSatisfyingAssignment_def split: option.splits)
  qed
  have all: "cex_entry key (Some b)" if "find (\<lambda>a. satisfies a key) (assignmentsTable st) = Some b" for b
    using that table by (auto simp: find_Some_iff intro!: satisfies_entry [OF key])
  show ?thesis
  proof (cases "mos_lookup key (cex_cache st) = None \<and> \<not> (CexCacheSuperSet opts \<and> findSuperset lt (\<lambda>a. a \<noteq> None) (cex_cache st) key \<noteq> None)")
    case True
    then show ?thesis using found sub [of "\<lambda>a. a = None" v] sub [of "NullOrSatisfyingAssignment key" v] all
      by (cases "CexCacheTryAll opts")
        (auto simp: searchForAssignment_def NullOrSatisfyingAssignment_def split: option.splits if_splits)
  next
    case False
    then show ?thesis using found entry [of key v] sup [of v] by (auto simp: searchForAssignment_def split: option.splits)
  qed
qed

text \<open>The key of a query: it is satisfied exactly by the counterexamples of the query.\<close>

definition answers :: "Query \<Rightarrow> Assignment option \<Rightarrow> bool" where
  "answers q v \<longleftrightarrow> (case v of None \<Rightarrow> \<forall>\<sigma>. \<not> counter \<sigma> q | Some b \<Rightarrow> sized b \<and> counter (assign_fn b) q)"

lemma key_sat:
  assumes "list_all bool_expr (fst q)" "bool_expr (snd q)" "lookupAssignment opts lt st q = (key, r)"
    "\<And>c. dc_const (createIsZero_expr (snd q)) = Some c \<Longrightarrow> \<not> isFalse c"
  shows "list_all bool_expr key" "sat \<sigma> key \<longleftrightarrow> counter \<sigma> q" "r = searchForAssignment opts lt st key"
proof -
  have neg: "bool_expr (createIsZero_expr (snd q))" "eval \<sigma> (createIsZero_expr (snd q)) \<noteq> 0 \<longleftrightarrow> eval \<sigma> (snd q) = 0" for \<sigma>
    using assms(2) by (auto simp: bool_expr_def)
  have c: "eval \<sigma> (snd q) = 0" if "dc_const (createIsZero_expr (snd q)) = Some c" for c
    using neg assms(4) [OF that] that by (auto simp: dc_simps isFalse_def bool_expr_def)
  show "list_all bool_expr key" "sat \<sigma> key \<longleftrightarrow> counter \<sigma> q" "r = searchForAssignment opts lt st key"
    using assms(1,3) c neg(1) neg(2) [of \<sigma>] assms(4)
    by (auto simp: lookupAssignment_def Let_def list_all_iff sat_def counter_def split: option.splits)
qed

definition answers_spec :: "bool \<Rightarrow> (Query \<Rightarrow> bool) \<Rightarrow> Query \<Rightarrow> Assignment option answer \<Rightarrow> bool" where
  "answers_spec reliable safe q r \<longleftrightarrow> (\<forall>v. r = Answer v \<longrightarrow> answers q v) \<and> progress reliable safe q r"

lemma answers_spec_simps [simp]:
  "answers_spec reliable safe q (Answer v) = answers q v" "answers_spec reliable safe q Failed \<longleftrightarrow> \<not> reliable"
  "answers_spec reliable safe q Aborted \<longleftrightarrow> \<not> safe q"
  by (auto simp: answers_spec_def progress_def)

lemma sized_zip: "fills objects vs \<Longrightarrow> sized (zip objects vs)"
  by (auto simp: fills_def sized_def set_zip list_all2_conv_all_nth)

lemma answers_zip: "solves q objects i \<Longrightarrow> answers q (map_option (zip objects) i)"
  by (cases i) (simp_all add: solves_def answers_def sized_zip)

lemma covers_key:
  assumes "\<And>\<sigma>. sat \<sigma> key \<longleftrightarrow> counter \<sigma> q"
  shows "covers (findSymbolicObjects key) q"
  using sat_objects [of key] assms unfolding covers_def by blast

lemma binding_values_solves:
  assumes "answers q (Some b)" "covers objects q"
  shows "solves q objects (Some (binding_values b objects))"
proof -
  have "length (case map_of b a of Some bs \<Rightarrow> bs | None \<Rightarrow> replicate (arr_size a) 0) = arr_size a" for a
    using assms(1) by (auto simp: answers_def sized_def split: option.splits dest: map_of_SomeD)
  moreover have "assign_fn b a = assign_fn (zip objects (binding_values b objects)) a" if "a \<in> set objects" for a
    using that by (auto simp: fun_eq_iff assign_fn_def binding_values_def map_of_zip_map split: option.splits)
  moreover from this have "counter (assign_fn (zip objects (binding_values b objects))) q"
    using assms unfolding covers_def answers_def option.case by blast
  ultimately show ?thesis
    by (auto simp: solves_def fills_def binding_values_def list_all2_conv_all_nth)
qed

lemma createIsZero_isFalse:
  assumes "bool_expr (ConstantExpr c)" "\<not> isFalse c"
  shows "\<exists>d. dc_const (createIsZero_expr (ConstantExpr c)) = Some d \<and> isFalse d"
proof -
  let ?z = "createIsZero_expr (ConstantExpr c)"
  have "isConstant ?z" unfolding createIsZero_expr_def by (subst create_Eq.simps) (simp add: isConstant_def)
  then obtain d where d: "?z = ConstantExpr d" by (auto simp: isConstant_iff)
  have "getWidth ?z = 1" "eval \<sigma> ?z = 0" for \<sigma> using assms by (auto simp: bool_expr_def isFalse_def)
  then show ?thesis by (auto simp: d isFalse_def)
qed

context solver_impl
begin

lemma getAssignment_sound:
  assumes lt: "strict_order lt" and st: "cex_ok lt st" and s: "inv s"
    and q: "list_all bool_expr (fst q)" "bool_expr (snd q)"
  shows "cex_ok lt (fst (snd (cex_getAssignment opts lt I q (st, s)))) \<and> inv (snd (snd (cex_getAssignment opts lt I q (st, s)))) \<and>
    answers_spec reliable safe q (fst (cex_getAssignment opts lt I q (st, s)))"
proof (cases "\<exists>c. dc_const (createIsZero_expr (snd q)) = Some c \<and> isFalse c")
  case True
  then obtain c where c: "createIsZero_expr (snd q) = ConstantExpr c" "isFalse c" by (auto simp: dc_simps)
  have "eval \<sigma> (createIsZero_expr (snd q)) = 0" for \<sigma> using c by (simp add: isFalse_def)
  then have "\<not> counter \<sigma> q" for \<sigma> using q(2) by (auto simp: counter_def bool_expr_def)
  then show ?thesis using c st s by (simp add: cex_getAssignment_def lookupAssignment_def Let_def answers_def)
next
  case False
  then have nf: "\<And>c. dc_const (createIsZero_expr (snd q)) = Some c \<Longrightarrow> \<not> isFalse c" by blast
  obtain key r where l: "lookupAssignment opts lt st q = (key, r)" by (cases "lookupAssignment opts lt st q")
  note k = key_sat [OF q l nf]
  have entry: "cex_entry key v \<longleftrightarrow> answers q v" for v
    using k(1,2) by (simp add: cex_entry_def answers_def split: option.split)
  show ?thesis
  proof (cases r)
    case (Some v)
    then have "answers q v" using searchForAssignment_sound [OF lt st k(1), of opts v] k(3) entry by simp
    then show ?thesis using l Some st s by (simp add: cex_getAssignment_def)
  next
    case None
    let ?objs = "findSymbolicObjects key"
    have "initial_query q" using q nf createIsZero_isFalse by (force simp: initial_query_def)
    note i = initial [OF s this covers_key [OF k(2)]]
    show ?thesis
    proof (cases "fst (computeInitialValues I q ?objs s)")
      case (Answer a)
      then have "answers q (map_option (zip ?objs) a)" using i answers_zip by simp
      then show ?thesis using Answer None l i cex_insert_ok [OF lt st] entry
        by (simp add: cex_getAssignment_def answer_bind_def Let_def)
    qed (use None l i st in \<open>simp_all add: cex_getAssignment_def answer_bind_def Let_def spec_None\<close>)
  qed
qed

lemma cex_truth_sound:
  assumes lt: "strict_order lt" and st: "cex_ok lt st" and s: "inv s" and q: "query_ok q"
  shows "cex_ok lt (fst (snd (cex_truth opts lt I q (st, s)))) \<and> inv (snd (snd (cex_truth opts lt I q (st, s)))) \<and>
    truth_spec (reliable \<and> \<not> CexCacheExperimental opts) safe q (fst (cex_truth opts lt I q (st, s)))"
proof (cases "CexCacheExperimental opts \<and> snd (lookupAssignment opts lt st (Query_negateExpr q)) = Some None")
  case True
  then show ?thesis using st s by (simp add: cex_truth_def spec_None)
next
  case False
  have b: "list_all bool_expr (fst q)" "bool_expr (snd q)" using q by (simp_all add: query_ok_def sat_constraints_def)
  have v: "answers q a \<Longrightarrow> (a = None) = valid q" for a
    by (auto simp: answers_def counter_def valid_def split: option.splits)
  show ?thesis using False getAssignment_sound [OF lt st s b, of opts] v
    by (cases "fst (cex_getAssignment opts lt I q (st, s))") (auto simp: cex_truth_def answer_bind_def spec_None)
qed

text \<open>The first step of a validity and of a value: an assignment of the constraints.\<close>

lemma withFalse_sound:
  assumes lt: "strict_order lt" and st: "cex_ok lt st" and s: "inv s" and q: "sat_constraints (fst q)"
  shows "\<exists>r st' s'. cex_getAssignment opts lt I (withFalse q) (st, s) = (r, st', s') \<and> cex_ok lt st' \<and> inv s' \<and>
    ((\<exists>b. r = Answer (Some b) \<and> sat (assign_fn b) (fst q)) \<or> r = Failed \<and> \<not> reliable \<or> r = Aborted \<and> \<not> safe q)"
proof -
  obtain r st' s' where r: "cex_getAssignment opts lt I (withFalse q) (st, s) = (r, st', s')"
    by (cases "cex_getAssignment opts lt I (withFalse q) (st, s)")
  have "list_all bool_expr (fst (withFalse q))" "bool_expr (snd (withFalse q))"
    using q by (simp_all add: withFalse_def withExpr_def sat_constraints_def bool_expr_def ce_ok_alloc)
  note g = getAssignment_sound [OF lt st s this, of opts, unfolded r]
  have c: "counter \<sigma> (withFalse q) \<longleftrightarrow> sat \<sigma> (fst q)" for \<sigma> by (simp add: counter_def withFalse_def withExpr_def)
  have "safe (withFalse q)" if "safe q" using safe_key [OF that, of "fst q"] by (auto simp: withFalse_key)
  then have "(\<exists>b. r = Answer (Some b) \<and> sat (assign_fn b) (fst q)) \<or> r = Failed \<and> \<not> reliable \<or> r = Aborted \<and> \<not> safe q"
    using g q by (cases r) (auto simp: answers_def c sat_constraints_def split: option.splits)
  then show ?thesis using g r by auto
qed

lemma cex_validity_sound:
  assumes lt: "strict_order lt" and st: "cex_ok lt st" and s: "inv s" and q: "query_ok q"
  shows "cex_ok lt (fst (snd (cex_validity opts lt I q (st, s)))) \<and> inv (snd (snd (cex_validity opts lt I q (st, s)))) \<and>
    validity_spec reliable (\<lambda>q. safe q \<and> foldable_query q) q (fst (cex_validity opts lt I q (st, s)))"
proof -
  have b: "list_all bool_expr (fst q)" "bool_expr (snd q)" "wt (snd q)"
    using q by (simp_all add: query_ok_def sat_constraints_def bool_expr_def)
  have c: "sat_constraints (fst q)" using q by (simp add: query_ok_def)
  note n = query_negate [OF q]
  have nb: "list_all bool_expr (fst (Query_negateExpr q))" "bool_expr (snd (Query_negateExpr q))"
    using n(1) by (simp_all add: query_ok_def sat_constraints_def)
  obtain r st' s' where r: "cex_getAssignment opts lt I (withFalse q) (st, s) = (r, st', s')" "cex_ok lt st'" "inv s'"
    and r': "(\<exists>b. r = Answer (Some b) \<and> sat (assign_fn b) (fst q)) \<or> r = Failed \<and> \<not> reliable \<or> r = Aborted \<and> \<not> safe q"
    using withFalse_sound [OF lt st s c, of opts] by blast
  show ?thesis
  proof (cases "\<exists>b c. r = Answer (Some b) \<and> sat (assign_fn b) (fst q) \<and> dc_const (assignment_visit False b (snd q)) = Some c")
    case False
    then have "r = Failed \<and> \<not> reliable \<or> \<not> (safe q \<and> foldable_query q) \<and> (r = Aborted \<or> (\<exists>b. r = Answer (Some b) \<and> dc_const (assignment_visit False b (snd q)) = None))"
      using r' assignment_visit_const [OF b(3)] by (metis dc_const_None_iff foldable_query_def option.exhaust)
    then show ?thesis using r by (auto simp: cex_validity_def answer_bind_def spec_None)
  next
    case True
    then obtain a d where a: "r = Answer (Some a)" "sat (assign_fn a) (fst q)" "assignment_visit False a (snd q) = ConstantExpr d"
      by (auto simp: dc_simps)
    have d: "isTrue d \<longleftrightarrow> eval (assign_fn a) (snd q) \<noteq> 0"
      using assignment_visit_refines [OF b(3), of a False] b(2) a(3) by (auto simp: refines_def bool_expr_def isTrue_def)
    have val: "answers q v \<Longrightarrow> (v = None) = valid q" "answers (Query_negateExpr q) v \<Longrightarrow> (v = None) = invalid q" for v
      using n(2) by (auto simp: answers_def counter_def valid_def split: option.splits)
    have inv: "isTrue d \<Longrightarrow> \<not> invalid q" "\<not> isTrue d \<Longrightarrow> \<not> valid q" using a(2) d by (auto simp: valid_def invalid_def)
    note run = cex_validity_def answer_bind_def spec_None validity_of_def
    show ?thesis
    proof (cases "isTrue d")
      case True
      then show ?thesis using r a inv(1) val(1) getAssignment_sound [OF lt r(2,3) b(1,2), of opts]
        by (cases "fst (cex_getAssignment opts lt I q (st', s'))") (simp_all add: run)
    next
      case False
      then show ?thesis using r a inv(2) val(2) getAssignment_sound [OF lt r(2,3) nb, of opts] safe_negate [of q]
        by (cases "fst (cex_getAssignment opts lt I (Query_negateExpr q) (st', s'))") (auto simp: run)
    qed
  qed
qed

lemma cex_value_sound:
  assumes lt: "strict_order lt" and st: "cex_ok lt st" and s: "inv s" and q: "sat_constraints (fst q)" "wt (snd q)"
  shows "cex_ok lt (fst (snd (cex_value opts lt I q (st, s)))) \<and> inv (snd (snd (cex_value opts lt I q (st, s)))) \<and>
    value_spec reliable (\<lambda>q. safe q \<and> foldable_query q) q (fst (cex_value opts lt I q (st, s)))"
proof -
  obtain r st' s' where r: "cex_getAssignment opts lt I (withFalse q) (st, s) = (r, st', s')" "cex_ok lt st'" "inv s'"
    and r': "(\<exists>b. r = Answer (Some b) \<and> sat (assign_fn b) (fst q)) \<or> r = Failed \<and> \<not> reliable \<or> r = Aborted \<and> \<not> safe q"
    using withFalse_sound [OF lt st s q(1), of opts] by blast
  have "is_value q (assignment_visit False b (snd q))" if sat: "sat (assign_fn b) (fst q)" and const: "isConstant (assignment_visit False b (snd q))" for b
  proof -
    obtain c where c: "assignment_visit False b (snd q) = ConstantExpr c" using const by (auto simp: isConstant_iff)
    then have "getWidth (snd q) = ce_width c" "eval (assign_fn b) (snd q) = ce_value c"
      using assignment_visit_refines [OF q(2), of b False] by (auto simp: refines_def)
    then show ?thesis using sat c unfolding is_value_def by (intro exI [of _ "assign_fn b"]) simp
  qed
  then show ?thesis using r r' assignment_visit_const [OF q(2)]
    by (auto simp: cex_value_def answer_bind_def spec_None foldable_query_def)
qed

lemma cex_initial_sound:
  assumes lt: "strict_order lt" and st: "cex_ok lt st" and s: "inv s" and q: "initial_query q" "covers objects q"
  shows "cex_ok lt (fst (snd (cex_initial opts lt I q objects (st, s)))) \<and> inv (snd (snd (cex_initial opts lt I q objects (st, s)))) \<and>
    initial_spec reliable safe q objects (fst (cex_initial opts lt I q objects (st, s)))"
proof -
  have b: "list_all bool_expr (fst q)" "bool_expr (snd q)" using q(1) by (simp_all add: initial_query_def)
  have "solves q objects (map_option (\<lambda>b. binding_values b objects) a)" if "answers q a" for a
    using that binding_values_solves [OF _ q(2)] by (cases a) (simp_all add: answers_def solves_def)
  then show ?thesis using getAssignment_sound [OF lt st s b, of opts]
    by (cases "fst (cex_getAssignment opts lt I q (st, s))") (auto simp: cex_initial_def answer_bind_def spec_None)
qed

lemma cex_solver_impl:
  assumes lt: "strict_order lt"
  shows "solver_impl (CexCachingSolver opts lt I) (\<lambda>(st, s). cex_ok lt st \<and> inv s) (reliable \<and> \<not> CexCacheExperimental opts) (\<lambda>q. safe q \<and> foldable_query q)"
proof (unfold_locales, blast intro: safe_negate foldable_negate(1), blast intro: safe_subset foldable_key(1), blast intro: safe_key foldable_key(2))
  fix t :: "CexState \<times> 's" and q :: Query
  obtain st s where t: "t = (st, s)" by (cases t)
  let ?inv = "\<lambda>(st, s). cex_ok lt st \<and> inv s" and ?S = "CexCachingSolver opts lt I" and ?safe = "\<lambda>q. safe q \<and> foldable_query q" and ?rel = "reliable \<and> \<not> CexCacheExperimental opts"
  assume "?inv t"
  then have i: "cex_ok lt st" "inv s" by (simp_all add: t)
  show "?inv (snd (computeTruth ?S q t)) \<and> truth_spec ?rel ?safe q (fst (computeTruth ?S q t))" if "query_ok q"
    using cex_truth_sound [OF lt i that, of opts] by (auto simp: t CexCachingSolver_def split_beta spec_defs)
  show "?inv (snd (impl_computeValidity ?S q t)) \<and> validity_spec ?rel ?safe q (fst (impl_computeValidity ?S q t))" if "query_ok q"
    using cex_validity_sound [OF lt i that, of opts] by (auto simp: t CexCachingSolver_def split_beta spec_defs)
  show "?inv (snd (computeValue ?S q t)) \<and> value_spec ?rel ?safe q (fst (computeValue ?S q t))" if "sat_constraints (fst q)" "wt (snd q)"
    using cex_value_sound [OF lt i that, of opts] by (auto simp: t CexCachingSolver_def split_beta spec_defs)
  show "?inv (snd (computeInitialValues ?S q objects t)) \<and> initial_spec ?rel ?safe q objects (fst (computeInitialValues ?S q objects t))"
    if "initial_query q" "covers objects q" for objects
    using cex_initial_sound [OF lt i that, of opts] by (auto simp: t CexCachingSolver_def split_beta spec_defs)
qed

end

end
