(* ===== verification/Spec2Isabelle.thy ===== *)
theory Spec2Isabelle
  imports RV_Coverage RV_Traps RV_CSR_Props VP_MMU Symex_Explore Klee_Constraints Klee_CexCache
begin

text \<open>
  \<^bold>\<open>The program.\<close> coverage-vp is a RISC-V virtual prototype that executes an RV32 binary
  concolically: every register and memory byte carries a concrete value and, where it depends on a
  symbolic input, a KLEE expression.  At a conditional branch the condition is recorded in an
  execution tree; after the run a solver is asked for inputs that take the other side of one of the
  recorded branches, and the simulation is repeated with them until no branch is left.  Meanwhile
  the lines and basic blocks that were executed, and the concretizations on the way, are counted.

  \<^bold>\<open>Theories and the code they model\<close> (paths below \<open>src/vp/src\<close>).

  \<^item> \<open>Prelude\<close>: machine integers as integers with a width, lists of bytes, named theorem
    collections.
  \<^item> \<open>Klee_Expr\<close>: expressions of \<open>symex/clover/klee/include/klee/Expr/Expr.h\<close> as the datatype
    \<open>expr\<close> with widths, well-formedness \<open>wt\<close> and the meaning \<open>eval\<close> under an assignment of bytes to
    arrays; the constant operations of \<open>lib/Expr/Expr.cpp\<close>.
  \<^item> \<open>Klee_ExprBuilder\<close>: the three builders of \<open>lib/Expr/ExprBuilder.cpp\<close>, one function per method,
    stacked as \<open>Solver::Solver\<close> stacks them.
  \<^item> \<open>Clover_Concolic\<close>: \<open>ConcolicValue\<close>, \<open>BitVector\<close> and the value part of \<open>Solver\<close>.  The
    invariant \<open>cv_ok\<close> says that the symbolic part evaluates to the concrete part.
  \<^item> \<open>Clover_Memory\<close>: \<open>ConcolicMemory\<close> and the TLM target \<open>SymbolicMemory\<close>.
  \<^item> \<open>Clover_Trace\<close>: \<open>Trace\<close>, its tree of \<open>Branch\<close> nodes, and \<open>ExecutionContext\<close>.  The
    pointer \<open>pathCondsCurrent\<close> into the tree is the list of directions that leads to the node.
  \<^item> \<open>Symex_Explore\<close>: the loop of \<open>symex/symbolic_explore.cpp\<close> over whole simulations.
  \<^item> \<open>RV_Opcode\<close>, \<open>RV_Instr\<close>, \<open>RV_Compressed\<close>: \<open>core/common/instr.h\<close> and \<open>instr.cpp\<close>.
  \<^item> \<open>RV_CSR\<close>: \<open>core/rv32/csr.h\<close>.
  \<^item> \<open>VP_Monad\<close>: computations on a state that may throw; \<open>error\<close> lists every exception, failed
    assertion and endless wait of the modelled code.
  \<^item> \<open>RV_Coverage\<close>: \<open>core/rv32/coverage.cpp\<close>, \<open>basic_block.cpp\<close> and \<open>json.cpp\<close>.
  \<^item> \<open>RV_ISS\<close>: the core \<open>core/rv32/iss.cpp\<close>: the record \<open>ISS\<close> is its state, \<open>exec_step\<close>,
    \<open>run_step\<close> and \<open>run\<close> are the methods of these names.  What the core calls outside of itself is
    the record \<open>ISS_env\<close>.
  \<^item> \<open>RV_ISS_Inv\<close>: the invariant of the core and the locale \<open>iss_environment\<close>, the contract of
    what surrounds it.
  \<^item> \<open>RV_ISS_Props\<close>, \<open>RV_Traps\<close>, \<open>RV_CSR_Props\<close>: the core against RV32I and the privileged
    architecture.
  \<^item> \<open>RV_Memory\<close>: the memory interface \<open>core/rv32/mem.h\<close>, the MMU \<open>core/common/mmu.h\<close> and the bus
    \<open>platform/common/bus.h\<close>; the locale \<open>tlm_bus\<close> is the contract of the targets of the bus.
  \<^item> \<open>VP_Devices\<close>, \<open>VP_Syscall\<close>, \<open>VP_Platform\<close>: \<open>util/memory_map.h\<close>, \<open>core/common/clint.h\<close>,
    \<open>core/rv32/syscall.cpp\<close> and the wiring of \<open>platform/symex/symex_main.cpp\<close>.
  \<^item> \<open>VP_Platform_Props\<close>, \<open>VP_MMU\<close>: the platform and the MMU against their specifications.

  \<^bold>\<open>Interfaces.\<close>  \<open>iss_environment\<close> states what the core relies on; \<open>tlm_bus\<close> what the memory
  interface relies on.  \<open>vp_platform\<close> extends \<open>tlm_bus\<close> and is a sublocale of \<open>iss_environment\<close>;
  \<open>symex_run\<close> is a sublocale of \<open>vp_platform\<close> for the wiring of the symbolic platform, and is
  interpreted on it, so that every law is proved for the modelled code.

  \<^bold>\<open>What the lemmas show.\<close>  The builders return expressions of the same value as the plain
  node; concolic operators, memory and factory keep \<open>cv_ok\<close>; the memory refines a byte array; the
  decoder recognises exactly the encodings and compressed instructions expand to what they
  mean; arithmetic, branches, traps, interrupts, CSRs and address translation follow the
  architecture; a step of the core keeps the invariant of the platform, so that a run ends only in
  listed ways; the trace describes exactly the inputs that take the path; the search returns inputs
  for an unexplored branch; the exploration of a finite program ends with every path executed or
  refuted; coverage never looks up a missing table entry.

  \<^bold>\<open>Parameters.\<close>  The solver (with the contract \<open>klee_ok\<close>), the debug information,
  the SystemC kernel, the C library of the host and the random generator are arguments of the
  definitions.

  \<^bold>\<open>Loops.\<close>  Loops over data are structural or have a termination proof.  The run loop of the core
  and the exploration loop are \<open>partial_function\<close>s, \<open>None\<close> meaning that they do not end; the
  exploration is proved to end.  \<open>depth\<close> of \<open>platform_board\<close> bounds the nesting of system calls
  through the memory-mapped register; on the symbolic platform that register is hidden behind the
  memory, so that any depth behaves the same.

  \<^bold>\<open>Not modelled.\<close>  The layers of the KLEE solver and its rewriting of constraints, KLEE's parser and
  printers, DMI, the debugger, the ELF loader, test-case files, the HiFive and test32 platforms with
  their peripherals, patched SystemC files, and text output.
\<close>

end
